theory Spec2Isabelle
  imports
    Complex_Main
    "HOL-Library.AList"
    "HOL-Library.Char_ord"
    "HOL-Library.List_Lexorder"
    "HOL-Library.Option_ord"
    "HOL-Library.Product_Lexorder"
begin

section \<open>Time\<close>

text \<open>
  A naive \<^verbatim>\<open>datetime\<close> is the number of microseconds since midnight of an epoch day,
  a \<^verbatim>\<open>timedelta\<close> a number of microseconds. Python's floats are read as reals:
  rounding is not part of the model.
\<close>

type_synonym datetime = int
type_synonym timedelta = int

definition total_seconds :: "timedelta \<Rightarrow> real" where
  "total_seconds d = real_of_int d / 1000000"

definition datetime_hour :: "datetime \<Rightarrow> int" where
  "datetime_hour t = (t div 3600000000) mod 24"

definition timedelta_minutes :: "int \<Rightarrow> timedelta" where
  "timedelta_minutes m = m * 60000000"

definition timedelta_hours :: "int \<Rightarrow> timedelta" where
  "timedelta_hours h = h * 3600000000"

section \<open>Upstream client (services/mbta_client.py)\<close>

text \<open>
  What one request of \<^verbatim>\<open>get_vehicles\<close> can end in: a response with its status code and
  its body (\<open>None\<close> when \<^verbatim>\<open>response.json()\<close> cannot decode it), an
  \<^verbatim>\<open>httpx.TimeoutException\<close>, or any other exception of the request.
\<close>

datatype 'a attempt_outcome =
    Response nat "'a option"
  | TimeoutException
  | OtherException

record 'a fetch_result =
  fr_value :: "'a option"
  fr_sleeps :: "nat list"
  fr_attempts :: nat

text \<open>
  The loop \<^verbatim>\<open>for attempt in range(retries)\<close>. \<open>upstream attempt\<close> is the outcome of the
  request made in iteration \<open>attempt\<close>; \<open>raises status\<close> says whether
  \<^verbatim>\<open>response.raise_for_status()\<close> raises \<^verbatim>\<open>HTTPStatusError\<close> for that status (the
  library is not part of the repository). \<open>sleeps\<close> collects the arguments of
  \<^verbatim>\<open>asyncio.sleep\<close> in order, in seconds. The three \<^verbatim>\<open>except\<close> clauses cover every
  exception of the \<^verbatim>\<open>try\<close> body, so each of them is a branch here.
\<close>

function get_vehicles_loop ::
  "(nat \<Rightarrow> bool) \<Rightarrow> (nat \<Rightarrow> 'a attempt_outcome) \<Rightarrow> int \<Rightarrow> nat \<Rightarrow> nat list \<Rightarrow> 'a fetch_result"
where
  "get_vehicles_loop raises upstream retries attempt sleeps =
     (if retries \<le> int attempt
      then \<lparr>fr_value = None, fr_sleeps = sleeps, fr_attempts = attempt\<rparr>
      else
        (case upstream attempt of
           Response status body \<Rightarrow>
             if status = 429
             then get_vehicles_loop raises upstream retries (attempt + 1)
                    (sleeps @ [2 ^ attempt * 5])
             else if raises status
             then (if 500 \<le> status \<and> int attempt < retries - 1
                   then get_vehicles_loop raises upstream retries (attempt + 1)
                          (sleeps @ [2 ^ attempt * 2])
                   else \<lparr>fr_value = None, fr_sleeps = sleeps, fr_attempts = attempt + 1\<rparr>)
             else
               (case body of
                  Some json \<Rightarrow>
                    \<lparr>fr_value = Some json, fr_sleeps = sleeps, fr_attempts = attempt + 1\<rparr>
                | None \<Rightarrow>
                    if int attempt < retries - 1
                    then get_vehicles_loop raises upstream retries (attempt + 1)
                           (sleeps @ [2 ^ attempt])
                    else \<lparr>fr_value = None, fr_sleeps = sleeps, fr_attempts = attempt + 1\<rparr>)
         | TimeoutException \<Rightarrow>
             if int attempt < retries - 1
             then get_vehicles_loop raises upstream retries (attempt + 1)
                    (sleeps @ [2 ^ attempt * 2])
             else \<lparr>fr_value = None, fr_sleeps = sleeps, fr_attempts = attempt + 1\<rparr>
         | OtherException \<Rightarrow>
             if int attempt < retries - 1
             then get_vehicles_loop raises upstream retries (attempt + 1)
                    (sleeps @ [2 ^ attempt])
             else \<lparr>fr_value = None, fr_sleeps = sleeps, fr_attempts = attempt + 1\<rparr>))"
  by pat_completeness auto
termination
  by (relation "measure (\<lambda>(raises, upstream, retries, attempt, sleeps). nat (retries - int attempt))")
     auto

declare get_vehicles_loop.simps [simp del]

definition get_vehicles ::
  "(nat \<Rightarrow> bool) \<Rightarrow> (nat \<Rightarrow> 'a attempt_outcome) \<Rightarrow> int \<Rightarrow> 'a fetch_result"
where
  "get_vehicles raises upstream retries = get_vehicles_loop raises upstream retries 0 []"

subsection \<open>Parsing the response\<close>

text \<open>
  The response document, typed as the upstream API documents it: \<open>None\<close> for a key that is
  absent (or, for an attribute read with \<^verbatim>\<open>.get\<close>, absent or null). \<open>field\<close> keeps
  absent and null apart where the source does (\<^verbatim>\<open>.get('short_name', item['id'])\<close>).
  The empty document \<^verbatim>\<open>{}\<close> is the one with neither \<^verbatim>\<open>data\<close> nor \<^verbatim>\<open>included\<close>.
\<close>

datatype 'a field = Absent | Null | Value 'a

record included_item =
  ii_type :: "string option"
  ii_id :: string
  ii_long_name :: "string option"
  ii_short_name :: "string field"

text \<open>
  The \<^verbatim>\<open>route\<close> relationship of a vehicle: no usable entry (\<^verbatim>\<open>'route'\<close> missing, or
  without \<^verbatim>\<open>'data'\<close>), \<^verbatim>\<open>"data": null\<close>, or a data object with its \<^verbatim>\<open>id\<close> if it has
  one.
\<close>

datatype route_relationship = No_route | Route_null | Route_data "string option"

record vehicle_item =
  vi_id :: string
  vi_latitude :: "real option"
  vi_longitude :: "real option"
  vi_bearing :: "int option"
  vi_speed :: "real option"
  vi_current_status :: "string option"
  vi_updated_at :: "string option"
  vi_route :: route_relationship

record api_response =
  ar_data :: "vehicle_item list option"
  ar_included :: "included_item list option"

text \<open>The dictionary \<^verbatim>\<open>parse_vehicle_data\<close> builds for each vehicle.\<close>

record vehicle_data =
  vd_vehicle_id :: string
  vd_route_id :: "string option"
  vd_route_name :: "string option"
  vd_latitude :: "real option"
  vd_longitude :: "real option"
  vd_bearing :: "int option"
  vd_speed :: "real option"
  vd_current_status :: "string option"
  vd_updated_at :: "string option"

datatype storage_op =
    Query_vehicles
  | Insert_vehicles
  | Insert_telemetry_events
  | Query_telemetry_events
  | Query_route_delay int
  | Commit
  | Rollback
  | Close

datatype exn =
    AttributeError
  | KeyError
  | OverflowError
  | IntegrityError
  | StorageError storage_op

definition falsy_response :: "api_response \<Rightarrow> bool" where
  "falsy_response r = (ar_data r = None \<and> ar_included r = None)"

text \<open>\<^verbatim>\<open>a or b\<close> on strings that may be \<^verbatim>\<open>None\<close>: the empty string is falsy too.\<close>

definition str_or :: "string option \<Rightarrow> string option \<Rightarrow> string option" where
  "str_or a b = (case a of Some (c # cs) \<Rightarrow> a | _ \<Rightarrow> b)"

definition included_name :: "included_item \<Rightarrow> string option" where
  "included_name item =
     str_or (ii_long_name item)
       (case ii_short_name item of
          Absent \<Rightarrow> Some (ii_id item)
        | Null \<Rightarrow> None
        | Value n \<Rightarrow> Some n)"

definition included_routes :: "included_item list \<Rightarrow> (string \<rightharpoonup> string option)" where
  "included_routes items =
     fold (\<lambda>item m. if ii_type item = Some ''route'' then m(ii_id item \<mapsto> included_name item) else m)
       items Map.empty"

definition parse_vehicle :: "(string \<rightharpoonup> string option) \<Rightarrow> vehicle_item \<Rightarrow> exn + vehicle_data" where
  "parse_vehicle routes vehicle_item =
     (case vi_route vehicle_item of
        Route_null \<Rightarrow> Inl AttributeError
      | rel \<Rightarrow>
          let route_id = (case rel of Route_data i \<Rightarrow> i | _ \<Rightarrow> None);
              route_name =
                (case rel of
                   Route_data None \<Rightarrow> None
                 | Route_data (Some i) \<Rightarrow> (case routes i of Some n \<Rightarrow> n | None \<Rightarrow> Some i)
                 | _ \<Rightarrow> None)
          in Inr \<lparr>vd_vehicle_id = vi_id vehicle_item,
                  vd_route_id = route_id,
                  vd_route_name = route_name,
                  vd_latitude = vi_latitude vehicle_item,
                  vd_longitude = vi_longitude vehicle_item,
                  vd_bearing = vi_bearing vehicle_item,
                  vd_speed = vi_speed vehicle_item,
                  vd_current_status = vi_current_status vehicle_item,
                  vd_updated_at = vi_updated_at vehicle_item\<rparr>)"

fun parse_vehicles :: "(string \<rightharpoonup> string option) \<Rightarrow> vehicle_item list \<Rightarrow> exn + vehicle_data list" where
  "parse_vehicles routes [] = Inr []"
| "parse_vehicles routes (vehicle_item # rest) =
     (case parse_vehicle routes vehicle_item of
        Inl e \<Rightarrow> Inl e
      | Inr vehicle \<Rightarrow>
          (case parse_vehicles routes rest of
             Inl e \<Rightarrow> Inl e
           | Inr vehicles \<Rightarrow> Inr (vehicle # vehicles)))"

definition parse_vehicle_data :: "api_response option \<Rightarrow> exn + vehicle_data list" where
  "parse_vehicle_data api_response =
     (case api_response of
        None \<Rightarrow> Inr []
      | Some r \<Rightarrow>
          (case ar_data r of
             None \<Rightarrow> Inr []
           | Some data \<Rightarrow>
               parse_vehicles
                 (case ar_included r of None \<Rightarrow> Map.empty | Some items \<Rightarrow> included_routes items)
                 data))"

section \<open>State store (database.py)\<close>

text \<open>
  A table is the list of its rows in insertion order. \<open>id\<close> is the surrogate key: \<open>None\<close>
  on an object that has not been inserted, and on insertion one more than the largest key
  of the table. Nullable columns are options.
\<close>

record vehicle =
  v_id :: "nat option"
  v_vehicle_id :: string
  v_route_id :: "string option"
  v_route_name :: "string option"
  v_latitude :: "real option"
  v_longitude :: "real option"
  v_bearing :: "int option"
  v_speed :: "real option"
  v_current_status :: "string option"
  v_last_updated :: datetime

record telemetry_event =
  te_id :: "nat option"
  te_vehicle_id :: string
  te_route_id :: "string option"
  te_latitude :: "real option"
  te_longitude :: "real option"
  te_speed :: "real option"
  te_current_status :: "string option"
  te_timestamp :: datetime

record route_delay =
  rd_id :: "nat option"
  rd_route_id :: string
  rd_route_name :: "string option"
  rd_hour_of_day :: "int option"
  rd_avg_delay_minutes :: "real option"
  rd_sample_count :: "int option"
  rd_calculated_at :: datetime

record database =
  vehicles :: "vehicle list"
  telemetry_events :: "telemetry_event list"
  route_delays :: "route_delay list"

definition init_db :: database where
  "init_db = \<lparr>vehicles = [], telemetry_events = [], route_delays = []\<rparr>"

definition next_id :: "nat option list \<Rightarrow> nat" where
  "next_id ids = fold max (map (\<lambda>i. case i of None \<Rightarrow> 0 | Some n \<Rightarrow> n) ids) 0 + 1"

text \<open>
  \<^verbatim>\<open>bulk_save_objects\<close> on new \<^verbatim>\<open>Vehicle\<close> objects: one INSERT after the other. The column
  \<^verbatim>\<open>vehicle_id\<close> is declared \<^verbatim>\<open>unique=True\<close>, so an INSERT whose \<^verbatim>\<open>vehicle_id\<close> is
  already in the table raises.
\<close>

fun bulk_save_vehicles :: "vehicle list \<Rightarrow> vehicle list \<Rightarrow> exn + vehicle list" where
  "bulk_save_vehicles table [] = Inr table"
| "bulk_save_vehicles table (v # objects) =
     (if v_vehicle_id v \<in> set (map v_vehicle_id table) then Inl IntegrityError
      else bulk_save_vehicles (table @ [v\<lparr>v_id := Some (next_id (map v_id table))\<rparr>]) objects)"

fun bulk_save_telemetry_events :: "telemetry_event list \<Rightarrow> telemetry_event list \<Rightarrow> telemetry_event list" where
  "bulk_save_telemetry_events table [] = table"
| "bulk_save_telemetry_events table (e # objects) =
     bulk_save_telemetry_events (table @ [e\<lparr>te_id := Some (next_id (map te_id table))\<rparr>]) objects"

section \<open>Collector (collector.py)\<close>

text \<open>
  What the collector logs, by level. A message keeps its fixed text; the counts and the
  exception text interpolated into it are left out. The log calls of the client and of
  the calculator are not part of the model.
\<close>

datatype log_entry = Log_info string | Log_warning string | Log_error string

text \<open>
  The objects of one cycle. \<open>cs_existing\<close> are the \<^verbatim>\<open>Vehicle\<close> objects the session loaded,
  in table order; a reference to one of them is its position in that list, and an
  assignment to an attribute of the object changes the list at that position.
\<close>

record collect_state =
  cs_existing :: "vehicle list"
  cs_vehicles_to_update :: "nat list"
  cs_vehicles_to_insert :: "vehicle list"
  cs_telemetry_events :: "telemetry_event list"

text \<open>
  \<^verbatim>\<open>{v.vehicle_id: v for v in db.query(Vehicle).all()}\<close>: a later row with the same key
  replaces an earlier one.
\<close>

definition existing_vehicle_ids :: "vehicle list \<Rightarrow> (string \<rightharpoonup> nat)" where
  "existing_vehicle_ids loaded =
     fold (\<lambda>i m. m(v_vehicle_id (loaded ! i) \<mapsto> i)) [0..<length loaded] Map.empty"

text \<open>The three objects the loop body builds from one \<^verbatim>\<open>vehicle_data\<close>.\<close>

definition update_existing :: "datetime \<Rightarrow> vehicle_data \<Rightarrow> vehicle \<Rightarrow> vehicle" where
  "update_existing collection_time vehicle_data existing =
     existing
       \<lparr>v_route_id := vd_route_id vehicle_data,
        v_route_name := vd_route_name vehicle_data,
        v_latitude := vd_latitude vehicle_data,
        v_longitude := vd_longitude vehicle_data,
        v_bearing := vd_bearing vehicle_data,
        v_speed := vd_speed vehicle_data,
        v_current_status := vd_current_status vehicle_data,
        v_last_updated := collection_time\<rparr>"

definition new_vehicle :: "datetime \<Rightarrow> vehicle_data \<Rightarrow> vehicle" where
  "new_vehicle collection_time vehicle_data =
     \<lparr>v_id = None,
      v_vehicle_id = vd_vehicle_id vehicle_data,
      v_route_id = vd_route_id vehicle_data,
      v_route_name = vd_route_name vehicle_data,
      v_latitude = vd_latitude vehicle_data,
      v_longitude = vd_longitude vehicle_data,
      v_bearing = vd_bearing vehicle_data,
      v_speed = vd_speed vehicle_data,
      v_current_status = vd_current_status vehicle_data,
      v_last_updated = collection_time\<rparr>"

definition new_telemetry_event :: "datetime \<Rightarrow> vehicle_data \<Rightarrow> telemetry_event" where
  "new_telemetry_event collection_time vehicle_data =
     \<lparr>te_id = None,
      te_vehicle_id = vd_vehicle_id vehicle_data,
      te_route_id = vd_route_id vehicle_data,
      te_latitude = vd_latitude vehicle_data,
      te_longitude = vd_longitude vehicle_data,
      te_speed = vd_speed vehicle_data,
      te_current_status = vd_current_status vehicle_data,
      te_timestamp = collection_time\<rparr>"

text \<open>One iteration of \<^verbatim>\<open>for vehicle_data in vehicles_data\<close>.\<close>

definition collect_step ::
  "datetime \<Rightarrow> (string \<rightharpoonup> nat) \<Rightarrow> vehicle_data \<Rightarrow> collect_state \<Rightarrow> collect_state"
where
  "collect_step collection_time ids vehicle_data st =
     (let st' =
            (case ids (vd_vehicle_id vehicle_data) of
               Some i \<Rightarrow>
                 st\<lparr>cs_existing :=
                      (cs_existing st)
                        [i := update_existing collection_time vehicle_data (cs_existing st ! i)],
                    cs_vehicles_to_update := cs_vehicles_to_update st @ [i]\<rparr>
             | None \<Rightarrow>
                 st\<lparr>cs_vehicles_to_insert :=
                      cs_vehicles_to_insert st @ [new_vehicle collection_time vehicle_data]\<rparr>)
      in st'\<lparr>cs_telemetry_events :=
               cs_telemetry_events st' @ [new_telemetry_event collection_time vehicle_data]\<rparr>)"

text \<open>
  The body of the inner \<^verbatim>\<open>try\<close>, up to and including \<^verbatim>\<open>db.commit()\<close>. \<open>fails op\<close> says
  whether the storage operation \<open>op\<close> raises in this cycle. Nothing reaches the store
  before the commit: the result is the committed store, or the exception. The commit
  writes the loaded objects back by key (row \<open>i\<close> of the table is object \<open>i\<close> of the
  session) and keeps the inserted rows.
\<close>

definition store_cycle ::
  "(storage_op \<Rightarrow> bool) \<Rightarrow> datetime \<Rightarrow> database \<Rightarrow> vehicle_data list \<Rightarrow> exn + database"
where
  "store_cycle fails collection_time db vehicles_data =
     (if fails Query_vehicles then Inl (StorageError Query_vehicles)
      else
        let loaded = vehicles db;
            st = fold (collect_step collection_time (existing_vehicle_ids loaded)) vehicles_data
                   \<lparr>cs_existing = loaded, cs_vehicles_to_update = [],
                    cs_vehicles_to_insert = [], cs_telemetry_events = []\<rparr>
        in
          (case (if cs_vehicles_to_insert st \<noteq> []
                 then (if fails Insert_vehicles then Inl (StorageError Insert_vehicles)
                       else bulk_save_vehicles (vehicles db) (cs_vehicles_to_insert st))
                 else Inr (vehicles db))
           of
             Inl e \<Rightarrow> Inl e
           | Inr vehicle_table \<Rightarrow>
               (case (if cs_telemetry_events st \<noteq> []
                      then (if fails Insert_telemetry_events
                            then Inl (StorageError Insert_telemetry_events)
                            else Inr (bulk_save_telemetry_events (telemetry_events db)
                                        (cs_telemetry_events st)))
                      else Inr (telemetry_events db))
                of
                  Inl e \<Rightarrow> Inl e
                | Inr event_table \<Rightarrow>
                    if fails Commit then Inl (StorageError Commit)
                    else Inr (db\<lparr>vehicles :=
                                    cs_existing st @ drop (length (cs_existing st)) vehicle_table,
                                 telemetry_events := event_table\<rparr>))))"

record cycle_result =
  cr_raised :: "exn option"
  cr_db :: database
  cr_log :: "log_entry list"

text \<open>
  The body of the outer \<^verbatim>\<open>try\<close>: \<open>cr_raised\<close> is the exception that leaves it, if any.
  \<open>now\<close> is the reading of the clock the cycle takes as its collection time.
\<close>

definition collect_body ::
  "(nat \<Rightarrow> bool) \<Rightarrow> (nat \<Rightarrow> api_response attempt_outcome) \<Rightarrow> (storage_op \<Rightarrow> bool) \<Rightarrow>
   datetime \<Rightarrow> database \<Rightarrow> cycle_result"
where
  "collect_body raises upstream fails now db =
     (let log0 = [Log_info ''Starting telemetry collection...''];
          api_response = fr_value (get_vehicles raises upstream 3)
      in
        if (case api_response of None \<Rightarrow> True | Some r \<Rightarrow> falsy_response r)
        then \<lparr>cr_raised = None, cr_db = db,
              cr_log = log0 @ [Log_warning ''No data received from MBTA API'']\<rparr>
        else
          (case parse_vehicle_data api_response of
             Inl e \<Rightarrow> \<lparr>cr_raised = Some e, cr_db = db, cr_log = log0\<rparr>
           | Inr vehicles_data \<Rightarrow>
               if vehicles_data = []
               then \<lparr>cr_raised = None, cr_db = db,
                     cr_log = log0 @ [Log_warning ''No vehicles parsed from API response'']\<rparr>
               else
                 let log1 = log0 @ [Log_info ''Collected vehicles''] in
                 (case store_cycle fails now db vehicles_data of
                    Inr db' \<Rightarrow>
                      let log2 = log1 @ [Log_info ''Successfully stored vehicles''] in
                      if fails Close
                      then \<lparr>cr_raised = Some (StorageError Close), cr_db = db', cr_log = log2\<rparr>
                      else \<lparr>cr_raised = None, cr_db = db', cr_log = log2\<rparr>
                  | Inl e \<Rightarrow>
                      let log2 = log1 @ [Log_error ''Error storing telemetry data''] in
                      if fails Close
                      then \<lparr>cr_raised = Some (StorageError Close), cr_db = db, cr_log = log2\<rparr>
                      else if fails Rollback
                      then \<lparr>cr_raised = Some (StorageError Rollback), cr_db = db, cr_log = log2\<rparr>
                      else \<lparr>cr_raised = None, cr_db = db, cr_log = log2\<rparr>)))"

definition collect_telemetry ::
  "(nat \<Rightarrow> bool) \<Rightarrow> (nat \<Rightarrow> api_response attempt_outcome) \<Rightarrow> (storage_op \<Rightarrow> bool) \<Rightarrow>
   datetime \<Rightarrow> database \<Rightarrow> cycle_result"
where
  "collect_telemetry raises upstream fails now db =
     (let r = collect_body raises upstream fails now db in
      case cr_raised r of
        None \<Rightarrow> r
      | Some e \<Rightarrow>
          r\<lparr>cr_raised := None,
            cr_log := cr_log r @ [Log_error ''Error during telemetry collection'']\<rparr>)"

text \<open>
  One tick of the scheduler: what it hands to a cycle. A run is a list of ticks, each
  cycle starting from the store the previous one left.
\<close>

record tick =
  t_raises :: "nat \<Rightarrow> bool"
  t_upstream :: "nat \<Rightarrow> api_response attempt_outcome"
  t_fails :: "storage_op \<Rightarrow> bool"
  t_now :: datetime

definition run_cycle :: "tick \<Rightarrow> database \<Rightarrow> database" where
  "run_cycle t db = cr_db (collect_telemetry (t_raises t) (t_upstream t) (t_fails t) (t_now t) db)"

definition run_cycles :: "tick list \<Rightarrow> database \<Rightarrow> database" where
  "run_cycles ticks db = fold run_cycle ticks db"

text \<open>A row of the current-state table carries the values of a snapshot, stamped \<open>t\<close>.\<close>

definition carries :: "vehicle_data \<Rightarrow> datetime \<Rightarrow> vehicle \<Rightarrow> bool" where
  "carries x t v =
     (v_vehicle_id v = vd_vehicle_id x \<and> v_route_id v = vd_route_id x \<and>
      v_route_name v = vd_route_name x \<and> v_latitude v = vd_latitude x \<and>
      v_longitude v = vd_longitude x \<and> v_bearing v = vd_bearing x \<and>
      v_speed v = vd_speed x \<and> v_current_status v = vd_current_status x \<and>
      v_last_updated v = t)"

text \<open>A telemetry event records the values of a snapshot, stamped \<open>t\<close>.\<close>

definition records :: "vehicle_data \<Rightarrow> datetime \<Rightarrow> telemetry_event \<Rightarrow> bool" where
  "records x t e =
     (te_vehicle_id e = vd_vehicle_id x \<and> te_route_id e = vd_route_id x \<and>
      te_latitude e = vd_latitude x \<and> te_longitude e = vd_longitude x \<and>
      te_speed e = vd_speed x \<and> te_current_status e = vd_current_status x \<and>
      te_timestamp e = t)"

section \<open>Delay calculator (services/delay_calculator.py)\<close>

definition SCHEDULED_HEADWAYS :: "(string \<times> real) list" where
  "SCHEDULED_HEADWAYS =
     [(''Red'', 6), (''Orange'', 6), (''Green'', 5), (''Blue'', 7), (''1'', 10), (''39'', 8)]"

text \<open>\<^verbatim>\<open>SCHEDULED_HEADWAYS.get(route_id, 10)\<close>.\<close>

definition scheduled_headway_of :: "string \<Rightarrow> real" where
  "scheduled_headway_of route_id =
     (case map_of SCHEDULED_HEADWAYS route_id of Some h \<Rightarrow> h | None \<Rightarrow> 10)"

text \<open>
  \<^verbatim>\<open>datetime.utcnow() - timedelta(hours=hours_back)\<close>. In this computation the epoch is
  0001-01-01T00:00:00, the least \<^verbatim>\<open>datetime\<close>: a \<^verbatim>\<open>timedelta\<close> of more than 999999999
  days cannot be built, and a difference outside the range of \<^verbatim>\<open>datetime\<close> is an
  \<^verbatim>\<open>OverflowError\<close>.
\<close>

definition datetime_max :: datetime where
  "datetime_max = 3652059 * 86400000000 - 1"

definition cutoff_time :: "datetime \<Rightarrow> int \<Rightarrow> exn + datetime" where
  "cutoff_time now hours_back =
     (if 999999999 < \<bar>hours_back div 24\<bar> then Inl OverflowError
      else
        let cutoff = now - timedelta_hours hours_back
        in if cutoff < 0 \<or> datetime_max < cutoff then Inl OverflowError else Inr cutoff)"

text \<open>
  The query for the events of the route in the window, ordered by timestamp (rows with
  equal timestamps stay in table order).
\<close>

definition route_events :: "datetime \<Rightarrow> database \<Rightarrow> string \<Rightarrow> telemetry_event list" where
  "route_events cutoff db route_id =
     sort_key te_timestamp
       (filter (\<lambda>e. te_route_id e = Some route_id \<and> cutoff \<le> te_timestamp e) (telemetry_events db))"

text \<open>
  One iteration of the grouping loop. A dictionary is an association list in insertion
  order: \<open>AList.update\<close> replaces the value of a key that is there and appends a new key
  at the end. Both lookups find their key, which the statement before them has put there.
\<close>

definition group_event ::
  "telemetry_event \<Rightarrow> (int \<times> (string \<times> telemetry_event list) list) list \<Rightarrow>
   (int \<times> (string \<times> telemetry_event list) list) list"
where
  "group_event event vehicles_by_hour =
     (let hour = datetime_hour (te_timestamp event);
          vehicle_id = te_vehicle_id event;
          by_hour = (if map_of vehicles_by_hour hour = None
                     then AList.update hour [] vehicles_by_hour else vehicles_by_hour);
          vehicles_of_hour = (case map_of by_hour hour of Some vs \<Rightarrow> vs | None \<Rightarrow> []);
          vehicles_of_hour' =
            (if map_of vehicles_of_hour vehicle_id = None
             then AList.update vehicle_id [] vehicles_of_hour else vehicles_of_hour);
          vehicle_events = (case map_of vehicles_of_hour' vehicle_id of Some es \<Rightarrow> es | None \<Rightarrow> [])
      in AList.update hour (AList.update vehicle_id (vehicle_events @ [event]) vehicles_of_hour') by_hour)"

text \<open>The delays of one vehicle in one hour: \<^verbatim>\<open>for i in range(1, len(vehicle_events))\<close>.\<close>

definition vehicle_delays :: "real \<Rightarrow> telemetry_event list \<Rightarrow> real list" where
  "vehicle_delays scheduled_headway vehicle_events =
     (if length vehicle_events < 2 then []
      else map (\<lambda>i. total_seconds (te_timestamp (vehicle_events ! i)
                                   - te_timestamp (vehicle_events ! (i - 1))) / 60
                    - scheduled_headway)
             [1..<length vehicle_events])"

definition hour_delays :: "real \<Rightarrow> (string \<times> telemetry_event list) list \<Rightarrow> real list" where
  "hour_delays scheduled_headway vehicles_of_hour =
     concat (map (\<lambda>(vehicle_id, vehicle_events). vehicle_delays scheduled_headway vehicle_events)
               vehicles_of_hour)"

text \<open>
  \<^verbatim>\<open>query(...).filter(...).first()\<close> followed by assignments to the object found: the
  first row that satisfies \<open>P\<close> is replaced by \<open>f\<close> of it; \<open>None\<close> when there is no such row.
\<close>

fun update_first :: "('a \<Rightarrow> bool) \<Rightarrow> ('a \<Rightarrow> 'a) \<Rightarrow> 'a list \<Rightarrow> 'a list option" where
  "update_first P f [] = None"
| "update_first P f (x # xs) =
     (if P x then Some (f x # xs) else map_option ((#) x) (update_first P f xs))"

text \<open>
  The loop over the hours. The session is the pair of the loaded rows (with the changes
  made to them) and the objects added with \<^verbatim>\<open>db.add\<close>; a query sees the rows of the
  table only (\<^verbatim>\<open>autoflush=False\<close>). A new row gets its \<^verbatim>\<open>calculated_at\<close> default when it
  is inserted; the model takes one reading \<open>now\<close> of the clock for the whole call.
\<close>

fun delay_loop ::
  "(storage_op \<Rightarrow> bool) \<Rightarrow> datetime \<Rightarrow> string \<Rightarrow> string option \<Rightarrow> real \<Rightarrow>
   (int \<times> (string \<times> telemetry_event list) list) list \<Rightarrow>
   route_delay list \<times> route_delay list \<Rightarrow> exn + (route_delay list \<times> route_delay list)"
where
  "delay_loop fails now route_id route_name scheduled_headway [] session = Inr session"
| "delay_loop fails now route_id route_name scheduled_headway ((hour, vehicles_of_hour) # rest)
     (rows, pending) =
     (let delays = hour_delays scheduled_headway vehicles_of_hour in
      if delays = []
      then delay_loop fails now route_id route_name scheduled_headway rest (rows, pending)
      else
        let avg_delay = sum_list delays / real (length delays) in
        if fails (Query_route_delay hour) then Inl (StorageError (Query_route_delay hour))
        else
          (case update_first
                  (\<lambda>rd. rd_route_id rd = route_id \<and> rd_hour_of_day rd = Some hour)
                  (\<lambda>existing. existing
                     \<lparr>rd_avg_delay_minutes := Some avg_delay,
                      rd_sample_count := Some (int (length delays)),
                      rd_calculated_at := now\<rparr>)
                  rows
           of
             Some rows' \<Rightarrow>
               delay_loop fails now route_id route_name scheduled_headway rest (rows', pending)
           | None \<Rightarrow>
               delay_loop fails now route_id route_name scheduled_headway rest
                 (rows,
                  pending @
                    [\<lparr>rd_id = None,
                      rd_route_id = route_id,
                      rd_route_name = route_name,
                      rd_hour_of_day = Some hour,
                      rd_avg_delay_minutes = Some avg_delay,
                      rd_sample_count = Some (int (length delays)),
                      rd_calculated_at = now\<rparr>])))"

fun insert_route_delays :: "route_delay list \<Rightarrow> route_delay list \<Rightarrow> route_delay list" where
  "insert_route_delays table [] = table"
| "insert_route_delays table (rd # objects) =
     insert_route_delays (table @ [rd\<lparr>rd_id := Some (next_id (map rd_id table))\<rparr>]) objects"

text \<open>
  The body of the \<^verbatim>\<open>try\<close>: the committed store, or the exception. With no event in the
  window the function returns before any write or commit.
\<close>

definition calculate_body ::
  "(storage_op \<Rightarrow> bool) \<Rightarrow> datetime \<Rightarrow> database \<Rightarrow> string \<Rightarrow> int \<Rightarrow> exn + database"
where
  "calculate_body fails now db route_id hours_back =
     (case cutoff_time now hours_back of
        Inl e \<Rightarrow> Inl e
      | Inr cutoff \<Rightarrow>
          if fails Query_telemetry_events then Inl (StorageError Query_telemetry_events)
          else
            let events = route_events cutoff db route_id in
            if events = [] then Inr db
            else
              let route_name = te_route_id (hd events);
                  scheduled_headway = scheduled_headway_of route_id;
                  vehicles_by_hour = fold group_event events []
              in
                (case delay_loop fails now route_id route_name scheduled_headway
                        vehicles_by_hour (route_delays db, [])
                 of
                   Inl e \<Rightarrow> Inl e
                 | Inr (rows, pending) \<Rightarrow>
                     if fails Commit then Inl (StorageError Commit)
                     else Inr (db\<lparr>route_delays := insert_route_delays rows pending\<rparr>)))"

record delay_result =
  dr_raised :: "exn option"
  dr_db :: database

text \<open>
  \<^verbatim>\<open>except Exception: ...; self.db.rollback(); raise\<close>: the store stays as it was and the
  exception goes to the caller (the one of the rollback, should the rollback fail).
\<close>

definition calculate_route_delays ::
  "(storage_op \<Rightarrow> bool) \<Rightarrow> datetime \<Rightarrow> database \<Rightarrow> string \<Rightarrow> int \<Rightarrow> delay_result"
where
  "calculate_route_delays fails now db route_id hours_back =
     (case calculate_body fails now db route_id hours_back of
        Inr db' \<Rightarrow> \<lparr>dr_raised = None, dr_db = db'\<rparr>
      | Inl e \<Rightarrow>
          if fails Rollback then \<lparr>dr_raised = Some (StorageError Rollback), dr_db = db\<rparr>
          else \<lparr>dr_raised = Some e, dr_db = db\<rparr>)"

section \<open>Alert detector (services/alert_detector.py)\<close>

definition BUNCHING_THRESHOLD_SECONDS :: real where
  "BUNCHING_THRESHOLD_SECONDS = 180"

record bunching_alert =
  ba_type :: string
  ba_route_id :: string
  ba_vehicle_1 :: string
  ba_vehicle_2 :: string
  ba_time_between_seconds :: real
  ba_severity :: string
  ba_timestamp :: datetime

text \<open>The truth value of a nullable float: \<^verbatim>\<open>None\<close> and \<^verbatim>\<open>0.0\<close> are false.\<close>

definition truthy :: "real option \<Rightarrow> bool" where
  "truthy x = (case x of None \<Rightarrow> False | Some r \<Rightarrow> r \<noteq> 0)"

text \<open>
  The query of \<^verbatim>\<open>detect_bunching\<close>, ordered by \<^verbatim>\<open>last_updated\<close> (rows with equal times stay
  in table order). \<open>now\<close> is the clock's reading, later than the epoch by more than the
  five minutes subtracted from it.
\<close>

definition bunching_query :: "datetime \<Rightarrow> database \<Rightarrow> string \<Rightarrow> vehicle list" where
  "bunching_query now db route_id =
     sort_key v_last_updated
       (filter (\<lambda>v. v_route_id v = Some route_id \<and>
                     now - timedelta_minutes 5 \<le> v_last_updated v \<and>
                     v_latitude v \<noteq> None \<and> v_longitude v \<noteq> None)
          (vehicles db))"

text \<open>One iteration of \<^verbatim>\<open>for i in range(len(vehicles) - 1)\<close>.\<close>

definition bunching_step ::
  "datetime \<Rightarrow> string \<Rightarrow> vehicle list \<Rightarrow> nat \<Rightarrow> bunching_alert list \<Rightarrow> bunching_alert list"
where
  "bunching_step now route_id recent_vehicles i alerts =
     (let v1 = recent_vehicles ! i; v2 = recent_vehicles ! (i + 1) in
      if truthy (v_latitude v1) \<and> truthy (v_latitude v2) \<and>
         truthy (v_longitude v1) \<and> truthy (v_longitude v2)
      then
        (let time_diff = total_seconds (v_last_updated v2 - v_last_updated v1) in
         if 0 < time_diff \<and> time_diff < BUNCHING_THRESHOLD_SECONDS
         then alerts @
                [\<lparr>ba_type = ''bunching'',
                  ba_route_id = route_id,
                  ba_vehicle_1 = v_vehicle_id v1,
                  ba_vehicle_2 = v_vehicle_id v2,
                  ba_time_between_seconds = time_diff,
                  ba_severity = ''warning'',
                  ba_timestamp = now\<rparr>]
         else alerts)
      else alerts)"

definition detect_bunching :: "datetime \<Rightarrow> database \<Rightarrow> string \<Rightarrow> bunching_alert list" where
  "detect_bunching now db route_id =
     (let recent_vehicles = bunching_query now db route_id
      in fold (bunching_step now route_id recent_vehicles) [0..<length recent_vehicles - 1] [])"

section \<open>Headway analysis (main.py)\<close>

record headway_state =
  hs_current_route :: "string option"
  hs_current_vehicle :: "string option"
  hs_last_timestamp :: "datetime option"
  hs_headways_by_route :: "(string option \<times> real list) list"

text \<open>
  One iteration of \<^verbatim>\<open>for event in events\<close>. \<^verbatim>\<open>headways_by_route[current_route]\<close> raises
  \<^verbatim>\<open>KeyError\<close> when the route has no entry: that is the case of an event without a route
  (\<^verbatim>\<open>route_id\<close> null), which equals the initial \<^verbatim>\<open>current_route\<close> and so never gets one.
\<close>

definition headway_step :: "telemetry_event \<Rightarrow> headway_state \<Rightarrow> exn + headway_state" where
  "headway_step event st =
     (let st1 =
            (if te_route_id event \<noteq> hs_current_route st
             then st\<lparr>hs_current_route := te_route_id event,
                     hs_current_vehicle := None,
                     hs_last_timestamp := None,
                     hs_headways_by_route :=
                       (if map_of (hs_headways_by_route st) (te_route_id event) = None
                        then AList.update (te_route_id event) [] (hs_headways_by_route st)
                        else hs_headways_by_route st)\<rparr>
             else st)
      in
        if Some (te_vehicle_id event) \<noteq> hs_current_vehicle st1
        then Inr (st1\<lparr>hs_current_vehicle := Some (te_vehicle_id event),
                      hs_last_timestamp := Some (te_timestamp event)\<rparr>)
        else
          (case hs_last_timestamp st1 of
             None \<Rightarrow> Inr st1
           | Some last_timestamp \<Rightarrow>
               (case map_of (hs_headways_by_route st1) (hs_current_route st1) of
                  None \<Rightarrow> Inl KeyError
                | Some headways \<Rightarrow>
                    Inr (st1\<lparr>hs_headways_by_route :=
                               AList.update (hs_current_route st1)
                                 (headways @
                                    [total_seconds (te_timestamp event - last_timestamp) / 60])
                                 (hs_headways_by_route st1),
                             hs_last_timestamp := Some (te_timestamp event)\<rparr>))))"

fun headway_loop :: "telemetry_event list \<Rightarrow> headway_state \<Rightarrow> exn + headway_state" where
  "headway_loop [] st = Inr st"
| "headway_loop (event # events) st =
     (case headway_step event st of
        Inl e \<Rightarrow> Inl e
      | Inr st' \<Rightarrow> headway_loop events st')"

record headway_stats =
  hw_count :: nat
  hw_avg_minutes :: real
  hw_min_minutes :: real
  hw_max_minutes :: real
  hw_headways :: "real list"

record headway_analysis =
  ha_route_id :: "string option"
  ha_analysis :: "(string option \<times> headway_stats) list"

text \<open>
  The query: the optional route filter (applied when \<^verbatim>\<open>route_id\<close> is a non-empty string),
  the last hour, ordered by route (null first) and then by time. \<open>now\<close> is later than
  the epoch by more than the hour subtracted from it.
\<close>

definition headway_events :: "datetime \<Rightarrow> database \<Rightarrow> string option \<Rightarrow> telemetry_event list" where
  "headway_events now db route_id =
     sort_key (\<lambda>e. (te_route_id e, te_timestamp e))
       (filter (\<lambda>e. (case route_id of
                        Some (c # cs) \<Rightarrow> te_route_id e = route_id
                      | _ \<Rightarrow> True) \<and>
                     now - timedelta_hours 1 \<le> te_timestamp e)
          (telemetry_events db))"

text \<open>
  The statistics are computed for the routes with at least one headway. The loop
  variable of the statistics loop is called \<^verbatim>\<open>route_id\<close> too, so the \<^verbatim>\<open>route_id\<close> of the
  result is the last route of the dictionary when there is one.
\<close>

definition get_headway_analysis ::
  "datetime \<Rightarrow> database \<Rightarrow> string option \<Rightarrow> exn + headway_analysis"
where
  "get_headway_analysis now db route_id =
     (case headway_loop (headway_events now db route_id)
             \<lparr>hs_current_route = None, hs_current_vehicle = None,
              hs_last_timestamp = None, hs_headways_by_route = []\<rparr>
      of
        Inl e \<Rightarrow> Inl e
      | Inr st \<Rightarrow>
          Inr \<lparr>ha_route_id =
                 (if hs_headways_by_route st = [] then route_id
                  else fst (last (hs_headways_by_route st))),
               ha_analysis =
                 map (\<lambda>(route, headways).
                        (route,
                         \<lparr>hw_count = length headways,
                          hw_avg_minutes = sum_list headways / real (length headways),
                          hw_min_minutes = fold min (tl headways) (hd headways),
                          hw_max_minutes = fold max (tl headways) (hd headways),
                          hw_headways = take 100 headways\<rparr>))
                   (filter (\<lambda>(route, headways). headways \<noteq> []) (hs_headways_by_route st))\<rparr>)"

section \<open>Notions used in the statements\<close>

text \<open>
  The delay samples of one hour computed from the list of the window's events: for each
  vehicle, its events of the hour in list order; with at least two of them, each gap
  between consecutive events in minutes, minus the expected headway.
\<close>

definition window_vehicle_samples :: "real \<Rightarrow> telemetry_event list \<Rightarrow> int \<Rightarrow> string \<Rightarrow> real list" where
  "window_vehicle_samples expected events h v =
     (let ts = map te_timestamp
                 (filter (\<lambda>e. datetime_hour (te_timestamp e) = h \<and> te_vehicle_id e = v) events)
      in if 2 \<le> length ts
         then map (\<lambda>(a, b). total_seconds (b - a) / 60 - expected) (zip ts (tl ts))
         else [])"

definition window_hour_samples :: "real \<Rightarrow> telemetry_event list \<Rightarrow> int \<Rightarrow> real list" where
  "window_hour_samples expected events h =
     concat (map (window_vehicle_samples expected events h) (remdups (map te_vehicle_id events)))"

text \<open>
  The delay samples as the specification words them, from the table of telemetry events
  and not from the calculator's own query or grouping. The hour of day of an instant
  is the number of whole hours since the last midnight. The expected headway of a route is
  read off the static table, ten minutes for a route that is not listed. The samples of
  a vehicle for a route, a window and an hour of day come from the events of the table
  that are on the route, not older than the start of the window, in the hour, and of the
  vehicle: with at least two of them, taken in time order, each gap between consecutive
  events in minutes, minus the expected headway. The samples of the hour are those of all
  vehicles.
\<close>

definition spec_hour_of_day :: "datetime \<Rightarrow> int" where
  "spec_hour_of_day t = (t mod 86400000000) div 3600000000"

definition spec_expected_headway :: "string \<Rightarrow> real" where
  "spec_expected_headway route_id =
     (if route_id = ''Red'' then 6
      else if route_id = ''Orange'' then 6
      else if route_id = ''Green'' then 5
      else if route_id = ''Blue'' then 7
      else if route_id = ''1'' then 10
      else if route_id = ''39'' then 8
      else 10)"

definition spec_vehicle_samples ::
  "telemetry_event list \<Rightarrow> string \<Rightarrow> datetime \<Rightarrow> int \<Rightarrow> string \<Rightarrow> real list"
where
  "spec_vehicle_samples table route_id window_start h v =
     (let ts = sort (map te_timestamp
                 (filter (\<lambda>e. te_route_id e = Some route_id \<and> window_start \<le> te_timestamp e \<and>
                               spec_hour_of_day (te_timestamp e) = h \<and> te_vehicle_id e = v)
                    table))
      in if 2 \<le> length ts
         then map (\<lambda>(a, b). real_of_int (b - a) / 60000000 - spec_expected_headway route_id)
                (zip ts (tl ts))
         else [])"

definition spec_hour_samples ::
  "telemetry_event list \<Rightarrow> string \<Rightarrow> datetime \<Rightarrow> int \<Rightarrow> real list"
where
  "spec_hour_samples table route_id window_start h =
     concat (map (spec_vehicle_samples table route_id window_start h)
               (remdups (map te_vehicle_id table)))"

text \<open>The rows of the delay table for one route and hour of day.\<close>

definition route_hour_rows :: "string \<Rightarrow> int \<Rightarrow> route_delay list \<Rightarrow> route_delay list" where
  "route_hour_rows route_id h table =
     filter (\<lambda>rd. rd_route_id rd = route_id \<and> rd_hour_of_day rd = Some h) table"

text \<open>
  The events the grouping dictionary holds for an hour and a vehicle (none when a key is
  missing), and the dictionary's keys being distinct at both levels.
\<close>

definition grouped ::
  "(int \<times> (string \<times> telemetry_event list) list) list \<Rightarrow> int \<Rightarrow> string \<Rightarrow> telemetry_event list"
where
  "grouped vehicles_by_hour h v =
     (case map_of vehicles_by_hour h of
        None \<Rightarrow> []
      | Some vs \<Rightarrow> (case map_of vs v of None \<Rightarrow> [] | Some es \<Rightarrow> es))"

definition well_grouped :: "(int \<times> (string \<times> telemetry_event list) list) list \<Rightarrow> bool" where
  "well_grouped vehicles_by_hour =
     (distinct (map fst vehicles_by_hour) \<and>
      (\<forall>h vs. map_of vehicles_by_hour h = Some vs \<longrightarrow> distinct (map fst vs)))"

text \<open>
  The writers of the store: a collection cycle and a recomputation of the delays of a
  route, each with the storage failures it meets, and a run of them from a given store.
\<close>

datatype store_action =
    Collect tick
  | Recompute "storage_op \<Rightarrow> bool" datetime string int

fun run_action :: "store_action \<Rightarrow> database \<Rightarrow> database" where
  "run_action (Collect t) db = run_cycle t db"
| "run_action (Recompute fails now route_id hours_back) db =
     dr_db (calculate_route_delays fails now db route_id hours_back)"

definition run_actions :: "store_action list \<Rightarrow> database \<Rightarrow> database" where
  "run_actions actions db = fold run_action actions db"

section \<open>Sample inputs\<close>

text \<open>Concrete inputs at which the theorems below are instantiated.\<close>

definition raises_on_error_status :: "nat \<Rightarrow> bool" where
  "raises_on_error_status status = (400 \<le> status)"

definition sample_vehicle_item :: "string \<Rightarrow> vehicle_item" where
  "sample_vehicle_item i =
     \<lparr>vi_id = i, vi_latitude = Some 42, vi_longitude = Some (- 71), vi_bearing = Some 90,
      vi_speed = Some 12, vi_current_status = Some ''IN_TRANSIT_TO'',
      vi_updated_at = None, vi_route = Route_data (Some ''Red'')\<rparr>"

definition sample_snapshot :: "string \<Rightarrow> vehicle_data" where
  "sample_snapshot i =
     \<lparr>vd_vehicle_id = i, vd_route_id = Some ''Red'', vd_route_name = Some ''Red'',
      vd_latitude = Some 42, vd_longitude = Some (- 71), vd_bearing = Some 90,
      vd_speed = Some 12, vd_current_status = Some ''IN_TRANSIT_TO'', vd_updated_at = None\<rparr>"

definition sample_response :: "string list \<Rightarrow> api_response" where
  "sample_response ids = \<lparr>ar_data = Some (map sample_vehicle_item ids), ar_included = None\<rparr>"

definition always_ok :: "api_response \<Rightarrow> nat \<Rightarrow> api_response attempt_outcome" where
  "always_ok r attempt = Response 200 (Some r)"

definition no_failure :: "storage_op \<Rightarrow> bool" where
  "no_failure op = False"

definition commit_fails :: "storage_op \<Rightarrow> bool" where
  "commit_fails op = (op = Commit)"

definition sample_tick :: "string list \<Rightarrow> datetime \<Rightarrow> tick" where
  "sample_tick ids now =
     \<lparr>t_raises = raises_on_error_status, t_upstream = always_ok (sample_response ids),
      t_fails = no_failure, t_now = now\<rparr>"

definition timeout_then_ok :: "nat \<Rightarrow> unit attempt_outcome" where
  "timeout_then_ok a = (if a = 0 then TimeoutException else Response 200 (Some ()))"

definition sample_event :: "string \<Rightarrow> datetime \<Rightarrow> telemetry_event" where
  "sample_event vehicle_id t =
     \<lparr>te_id = None, te_vehicle_id = vehicle_id, te_route_id = Some ''Red'',
      te_latitude = Some 42, te_longitude = Some (- 71), te_speed = Some 12,
      te_current_status = Some ''IN_TRANSIT_TO'', te_timestamp = t\<rparr>"

definition events_db :: "telemetry_event list \<Rightarrow> database" where
  "events_db events = \<lparr>vehicles = [], telemetry_events = events, route_delays = []\<rparr>"

text \<open>
  One vehicle seen at minutes 0, 3, 3.5 and 20 after 86400 seconds, and two vehicles seen
  in turn at minutes 0, 1 and 2.
\<close>

definition one_vehicle_events :: "telemetry_event list" where
  "one_vehicle_events =
     [sample_event ''A'' 86400000000, sample_event ''A'' 86580000000,
      sample_event ''A'' 86610000000, sample_event ''A'' 87600000000]"

definition interleaved_events :: "telemetry_event list" where
  "interleaved_events =
     [sample_event ''A'' 86400000000, sample_event ''B'' 86460000000,
      sample_event ''A'' 86520000000]"

definition sample_vehicle :: "string \<Rightarrow> real option \<Rightarrow> datetime \<Rightarrow> vehicle" where
  "sample_vehicle vehicle_id lat t =
     \<lparr>v_id = None, v_vehicle_id = vehicle_id, v_route_id = Some ''Red'',
      v_route_name = Some ''Red Line'', v_latitude = lat, v_longitude = Some (- 71),
      v_bearing = Some 90, v_speed = Some 12, v_current_status = Some ''IN_TRANSIT_TO'',
      v_last_updated = t\<rparr>"

definition vehicles_db :: "vehicle list \<Rightarrow> database" where
  "vehicles_db rows = \<lparr>vehicles = rows, telemetry_events = [], route_delays = []\<rparr>"

definition pair_60 :: database where
  "pair_60 = vehicles_db [sample_vehicle ''A'' (Some 42) 89800000000,
                          sample_vehicle ''B'' (Some 42) 89860000000]"

definition pair_400_ahead :: database where
  "pair_400_ahead = vehicles_db [sample_vehicle ''A'' (Some 42) 89800000000,
                                 sample_vehicle ''B'' (Some 42) 90200000000]"

definition pair_60_zero_third :: database where
  "pair_60_zero_third = vehicles_db [sample_vehicle ''A'' (Some 42) 89800000000,
                                     sample_vehicle ''B'' (Some 42) 89860000000,
                                     sample_vehicle ''C'' (Some 0) 89890000000]"

definition pair_60_unpositioned :: database where
  "pair_60_unpositioned = vehicles_db [sample_vehicle ''A'' (Some 42) 89800000000,
                                       sample_vehicle ''B'' None 89860000000]"

definition three_vehicles :: database where
  "three_vehicles = vehicles_db [sample_vehicle ''A'' (Some 42) 89800000000,
                                 sample_vehicle ''B'' None 89830000000,
                                 sample_vehicle ''C'' (Some 42) 89860000000]"

text \<open>Two arrivals of one vehicle on the Red line, nine minutes apart in the same hour.\<close>

definition two_arrivals :: database where
  "two_arrivals = events_db [sample_event ''A'' 86400000000, sample_event ''A'' 86940000000]"

text \<open>The same store with a delay row already there for the Red line and hour 0.\<close>

definition stale_row :: route_delay where
  "stale_row =
     \<lparr>rd_id = Some 1, rd_route_id = ''Red'', rd_route_name = Some ''Red'', rd_hour_of_day = Some 0,
      rd_avg_delay_minutes = Some 99, rd_sample_count = Some 7, rd_calculated_at = 100\<rparr>"

definition two_arrivals_stale :: database where
  "two_arrivals_stale = two_arrivals\<lparr>route_delays := [stale_row]\<rparr>"

text \<open>
  A table in no particular order. On the Red line in hour 7, vehicle \<open>A\<close> is seen twice,
  nine minutes apart (the later event is first in the table), vehicle \<open>D\<close> twice, five minutes
  apart, and vehicle \<open>C\<close> once. Vehicle \<open>A\<close> is also seen between its two events on the Blue
  line, in hour 7 of the day before (more than 24 hours before 116000 seconds), and in
  hour 8.
\<close>

definition mixed_events :: database where
  "mixed_events = events_db
     [sample_event ''A'' 112140000000,
      sample_event ''A'' 111600000000,
      (sample_event ''A'' 111800000000)\<lparr>te_route_id := Some ''Blue''\<rparr>,
      sample_event ''A'' 25200000000,
      sample_event ''C'' 111900000000,
      sample_event ''D'' 111600000000,
      sample_event ''D'' 111900000000,
      sample_event ''A'' 115200000000]"



text \<open>
  Two rows of the current-state table: one that the sample response updates, and one of
  a vehicle the sample response does not mention.
\<close>

definition stale_vehicle :: vehicle where
  "stale_vehicle =
     \<lparr>v_id = Some 1, v_vehicle_id = ''y1801'', v_route_id = Some ''Blue'',
      v_route_name = Some ''Blue Line'', v_latitude = None, v_longitude = None,
      v_bearing = None, v_speed = None, v_current_status = Some ''STOPPED_AT'',
      v_last_updated = 3\<rparr>"

definition parked_vehicle :: vehicle where
  "parked_vehicle =
     \<lparr>v_id = Some 2, v_vehicle_id = ''y1700'', v_route_id = Some ''Orange'',
      v_route_name = Some ''Orange Line'', v_latitude = Some 42, v_longitude = Some (- 71),
      v_bearing = None, v_speed = None, v_current_status = Some ''STOPPED_AT'',
      v_last_updated = 5\<rparr>"

section \<open>The upstream client: retries and backoff\<close>

lemma loop_attempts_ge:
  "attempt \<le> fr_attempts (get_vehicles_loop raises upstream retries attempt sleeps)"
proof (induction raises upstream retries attempt sleeps rule: get_vehicles_loop.induct)
  case (1 raises upstream retries attempt sleeps)
  show ?case
    apply (subst get_vehicles_loop.simps)
    using 1 by (fastforce split: attempt_outcome.splits option.splits simp del: get_vehicles_loop.simps dest: Suc_leD)
qed

lemma loop_attempts_gt:
  "int attempt < retries \<Longrightarrow>
   attempt < fr_attempts (get_vehicles_loop raises upstream retries attempt sleeps)"
  apply (subst get_vehicles_loop.simps)
  using loop_attempts_ge [of "attempt + 1" raises upstream retries]
  by (auto split: attempt_outcome.splits option.splits simp del: get_vehicles_loop.simps
        intro: Suc_le_lessD)

lemma loop_sleeps_prefix:
  "\<exists>rest. fr_sleeps (get_vehicles_loop raises upstream retries attempt sleeps) = sleeps @ rest"
proof (induction raises upstream retries attempt sleeps rule: get_vehicles_loop.induct)
  case (1 raises upstream retries attempt sleeps)
  show ?case
    apply (subst get_vehicles_loop.simps)
    using 1 by (fastforce split: attempt_outcome.splits option.splits simp del: get_vehicles_loop.simps)
qed

lemma loop_reaches:
  "length sleeps = attempt \<Longrightarrow> attempt \<le> a \<Longrightarrow>
   a < fr_attempts (get_vehicles_loop raises upstream retries attempt sleeps) \<Longrightarrow>
   \<exists>s. length s = a \<and>
       get_vehicles_loop raises upstream retries attempt sleeps =
       get_vehicles_loop raises upstream retries a s"
proof (induction "a - attempt" arbitrary: attempt sleeps)
  case 0
  then show ?case by auto
next
  case (Suc n)
  let ?r = "get_vehicles_loop raises upstream retries attempt sleeps"
  let ?next = "\<lambda>x. get_vehicles_loop raises upstream retries (attempt + 1) (sleeps @ [x])"
  have step: "\<exists>s. length s = a \<and> ?next x = get_vehicles_loop raises upstream retries a s"
    if "a < fr_attempts (?next x)" for x
    using Suc.hyps(1) [of "attempt + 1" "sleeps @ [x]"] Suc.hyps(2) Suc.prems(1) that by simp
  have le: "attempt + 1 \<le> a" using Suc.hyps(2) by simp
  have "(\<exists>x. ?r = ?next x)
    \<or> (\<exists>v. ?r = \<lparr>fr_value = v, fr_sleeps = sleeps, fr_attempts = attempt + 1\<rparr>)
    \<or> ?r = \<lparr>fr_value = None, fr_sleeps = sleeps, fr_attempts = attempt\<rparr>"
    unfolding get_vehicles_loop.simps [of raises upstream retries attempt sleeps]
    by (auto split: attempt_outcome.splits option.splits simp del: get_vehicles_loop.simps)
  then consider x where "?r = ?next x"
    | v where "?r = \<lparr>fr_value = v, fr_sleeps = sleeps, fr_attempts = attempt + 1\<rparr>"
    | "?r = \<lparr>fr_value = None, fr_sleeps = sleeps, fr_attempts = attempt\<rparr>"
    by blast
  then show ?case
  proof cases
    case 1
    then show ?thesis using step [of x] Suc.prems(3) by simp
  next
    case 2
    then show ?thesis using Suc.prems(3) le by simp
  next
    case 3
    then show ?thesis using Suc.prems(3) le by simp
  qed
qed

lemma loop_sleep_at:
  assumes "a < fr_attempts (get_vehicles_loop raises upstream retries 0 [])"
    and "int a < retries - 1"
    and "upstream a = TimeoutException \<and> w = 2 ^ a * 2 \<or> upstream a = OtherException \<and> w = 2 ^ a"
  shows "fr_sleeps (get_vehicles_loop raises upstream retries 0 []) ! a = w \<and>
         a < length (fr_sleeps (get_vehicles_loop raises upstream retries 0 [])) \<and>
         a + 1 < fr_attempts (get_vehicles_loop raises upstream retries 0 [])"
proof -
  let ?r = "get_vehicles_loop raises upstream retries 0 []"
  obtain s where s: "length s = a" "?r = get_vehicles_loop raises upstream retries a s"
    using loop_reaches [of "[]" 0 a raises upstream retries] assms(1) by auto
  have "get_vehicles_loop raises upstream retries a s =
        get_vehicles_loop raises upstream retries (a + 1) (s @ [w])"
    using assms(2,3) by (subst get_vehicles_loop.simps) auto
  then have r: "?r = get_vehicles_loop raises upstream retries (a + 1) (s @ [w])"
    using s(2) by simp
  obtain rest where rest: "fr_sleeps ?r = (s @ [w]) @ rest"
    using loop_sleeps_prefix [of raises upstream retries "a + 1" "s @ [w]"] r by auto
  have "a + 1 < fr_attempts ?r"
    using loop_attempts_gt [of "a + 1" retries raises upstream "s @ [w]"] assms(2) r by simp
  then show ?thesis using rest s(1) by (simp add: nth_append)
qed

text \<open>
  Claim C5. When the first three requests of \<^verbatim>\<open>get_vehicles\<close> (with the default of three
  retries) are all answered with HTTP 429, the client makes exactly three attempts, sleeps
  5, 10 and 20 seconds (\<open>5 * 2 ^ attempt\<close>, the last one after the final attempt), and
  returns \<open>None\<close>: a failure value, not an exception.
\<close>

theorem get_vehicles_three_429:
  assumes "upstream 0 = Response 429 b0" "upstream 1 = Response 429 b1"
    "upstream 2 = Response 429 b2"
  shows "get_vehicles raises upstream 3 =
           \<lparr>fr_value = None, fr_sleeps = [5, 10, 20], fr_attempts = 3\<rparr> \<and>
         fr_sleeps (get_vehicles raises upstream 3) = map (\<lambda>attempt. 5 * 2 ^ attempt) [0, 1, 2]"
proof -
  have u1: "upstream (Suc 0) = Response 429 b1" using assms(2) by simp
  have u2: "upstream (Suc (Suc 0)) = Response 429 b2" using assms(3) by (simp add: numeral_2_eq_2)
  have "get_vehicles raises upstream 3 =
           \<lparr>fr_value = None, fr_sleeps = [5, 10, 20], fr_attempts = 3\<rparr>"
    unfolding get_vehicles_def
    apply (subst get_vehicles_loop.simps, simp add: assms(1) del: get_vehicles_loop.simps)
    apply (subst get_vehicles_loop.simps, simp add: u1 del: get_vehicles_loop.simps)
    apply (subst get_vehicles_loop.simps, simp add: u2 del: get_vehicles_loop.simps)
    apply (subst get_vehicles_loop.simps, simp del: get_vehicles_loop.simps)
    done
  then show ?thesis by simp
qed

theorem get_vehicles_three_429_witness:
  "get_vehicles (\<lambda>s. 400 \<le> s) (\<lambda>a. Response 429 (None :: unit option)) 3 =
     \<lparr>fr_value = None, fr_sleeps = [5, 10, 20], fr_attempts = 3\<rparr>"
  using get_vehicles_three_429 [of "\<lambda>a. Response 429 (None :: unit option)" None None None "\<lambda>s. 400 \<le> s"]
  by simp

text \<open>
  Claim C6, as the code has it. For every attempt \<open>a\<close> that was made while retries remain
  (\<open>a < retries - 1\<close>): if it ended in a timeout the client sleeps \<open>2 * 2 ^ a\<close> seconds,
  if it ended in another non-HTTP exception it sleeps \<open>2 ^ a\<close> seconds, and in both
  cases the next attempt is made.
\<close>

theorem get_vehicles_backoff:
  assumes "a < fr_attempts (get_vehicles raises upstream retries)" "int a < retries - 1"
  shows "(upstream a = TimeoutException \<longrightarrow>
            fr_sleeps (get_vehicles raises upstream retries) ! a = 2 * 2 ^ a) \<and>
         (upstream a = OtherException \<longrightarrow>
            fr_sleeps (get_vehicles raises upstream retries) ! a = 2 ^ a) \<and>
         (upstream a = TimeoutException \<or> upstream a = OtherException \<longrightarrow>
            a < length (fr_sleeps (get_vehicles raises upstream retries)) \<and>
            a + 1 < fr_attempts (get_vehicles raises upstream retries))"
  using loop_sleep_at [of a raises upstream retries "2 ^ a * 2"]
    loop_sleep_at [of a raises upstream retries "2 ^ a"] assms
  unfolding get_vehicles_def by auto

text \<open>
  Claim C6 as stated fails for timeouts: a timeout on the first attempt (attempt 0) is
  followed by a sleep of 2 seconds, not \<open>2 ^ 0 = 1\<close>.
\<close>

theorem get_vehicles_timeout_counterexample:
  "timeout_then_ok 0 = TimeoutException \<and>
   fr_sleeps (get_vehicles (\<lambda>s. 400 \<le> s) timeout_then_ok 3) = [2] \<and>
   fr_sleeps (get_vehicles (\<lambda>s. 400 \<le> s) timeout_then_ok 3) ! 0 \<noteq> 2 ^ 0"
  unfolding get_vehicles_def timeout_then_ok_def
  apply (subst (1 2) get_vehicles_loop.simps, simp del: get_vehicles_loop.simps)
  apply (subst (1 2) get_vehicles_loop.simps, simp del: get_vehicles_loop.simps)
  done

theorem get_vehicles_backoff_witness:
  "fr_sleeps (get_vehicles (\<lambda>s. 400 \<le> s) timeout_then_ok 3) ! 0 = 2 \<and>
   1 < fr_attempts (get_vehicles (\<lambda>s. 400 \<le> s) timeout_then_ok 3)"
proof -
  have r: "get_vehicles (\<lambda>s. 400 \<le> s) timeout_then_ok 3 =
      \<lparr>fr_value = Some (), fr_sleeps = [2], fr_attempts = 2\<rparr>"
    unfolding get_vehicles_def timeout_then_ok_def
    apply (subst get_vehicles_loop.simps, simp del: get_vehicles_loop.simps)
    apply (subst get_vehicles_loop.simps, simp del: get_vehicles_loop.simps)
    done
  have a: "0 < fr_attempts (get_vehicles (\<lambda>s. 400 \<le> s) timeout_then_ok 3)" by (simp add: r)
  have b: "int 0 < 3 - 1" by simp
  have t: "timeout_then_ok 0 = TimeoutException" by (simp add: timeout_then_ok_def)
  show ?thesis using get_vehicles_backoff [OF a b] t by simp
qed

section \<open>The collector: upsert, atomicity, event counts\<close>

lemma fold_index_map:
  "fold (\<lambda>i m. m(f i \<mapsto> i)) js m0 k = Some j \<Longrightarrow> (j \<in> set js \<and> f j = k) \<or> m0 k = Some j"
proof (induction js arbitrary: m0)
  case Nil
  then show ?case by simp
next
  case (Cons a js)
  from Cons.prems have "fold (\<lambda>i m. m(f i \<mapsto> i)) js (m0(f a \<mapsto> a)) k = Some j"
    by (simp del: fun_upd_apply)
  from Cons.IH [OF this] show ?case by (auto split: if_splits)
qed

lemma fold_index_map_defined:
  "m0 k \<noteq> None \<Longrightarrow> fold (\<lambda>i m. m(f i \<mapsto> i)) js m0 k \<noteq> None"
  by (induction js arbitrary: m0) auto

lemma fold_index_map_None:
  "fold (\<lambda>i m. m(f i \<mapsto> i)) js m0 k = None \<Longrightarrow> k \<notin> f ` set js"
proof (induction js arbitrary: m0)
  case Nil
  then show ?case by simp
next
  case (Cons a js)
  from Cons.prems have run: "fold (\<lambda>i m. m(f i \<mapsto> i)) js (m0(f a \<mapsto> a)) k = None"
    by (simp del: fun_upd_apply)
  have "k \<noteq> f a"
    using run fold_index_map_defined [of "m0(f a \<mapsto> a)" k f js] by auto
  with Cons.IH [OF run] show ?case by simp
qed

lemma map_update_same: "(map f xs)[i := f (xs ! i)] = map f xs"
  by (metis list_update_id map_update)

lemma existing_vehicle_ids_valid:
  "existing_vehicle_ids loaded k = Some i \<Longrightarrow> i < length loaded \<and> v_vehicle_id (loaded ! i) = k"
  unfolding existing_vehicle_ids_def
  using fold_index_map [of "\<lambda>i. v_vehicle_id (loaded ! i)" "[0..<length loaded]" Map.empty k i]
  by auto

lemma existing_vehicle_ids_None:
  "existing_vehicle_ids loaded k = None \<Longrightarrow> k \<notin> set (map v_vehicle_id loaded)"
  unfolding existing_vehicle_ids_def
  using fold_index_map_None [of "\<lambda>i. v_vehicle_id (loaded ! i)" "[0..<length loaded]" Map.empty k]
  by (auto simp: in_set_conv_nth)

lemma existing_vehicle_ids_Some:
  "k \<in> set (map v_vehicle_id loaded) \<Longrightarrow> \<exists>i. existing_vehicle_ids loaded k = Some i"
  using existing_vehicle_ids_None [of loaded k] by (cases "existing_vehicle_ids loaded k") auto

lemma collect_step_events:
  "length (cs_telemetry_events (collect_step t ids x st)) = Suc (length (cs_telemetry_events st))"
  by (simp add: collect_step_def Let_def split: option.splits)

lemma fold_collect_events:
  "length (cs_telemetry_events (fold (collect_step t ids) xs st)) =
     length (cs_telemetry_events st) + length xs"
  by (induction xs arbitrary: st) (simp_all add: collect_step_events)

lemma collect_step_existing_ids:
  "map v_vehicle_id (cs_existing (collect_step t ids x st)) = map v_vehicle_id (cs_existing st)"
  using map_update_same [of v_vehicle_id "cs_existing st"]
  by (simp add: collect_step_def update_existing_def Let_def map_update split: option.splits)

lemma fold_collect_existing_ids:
  "map v_vehicle_id (cs_existing (fold (collect_step t ids) xs st)) = map v_vehicle_id (cs_existing st)"
  by (induction xs arbitrary: st) (simp_all add: collect_step_existing_ids)

lemma fold_collect_existing_length:
  "length (cs_existing (fold (collect_step t ids) xs st)) = length (cs_existing st)"
  using fold_collect_existing_ids [of t ids xs st] by (metis length_map)

lemma collect_step_insert:
  "cs_vehicles_to_insert (collect_step t ids x st) =
     cs_vehicles_to_insert st @ (if ids (vd_vehicle_id x) = None then [new_vehicle t x] else [])"
  by (auto simp: collect_step_def Let_def split: option.splits)

lemma fold_collect_insert:
  "cs_vehicles_to_insert (fold (collect_step t ids) xs st) =
     cs_vehicles_to_insert st @ map (new_vehicle t) (filter (\<lambda>x. ids (vd_vehicle_id x) = None) xs)"
  by (induction xs arbitrary: st) (simp_all add: collect_step_insert)

lemma collect_step_existing_length:
  "length (cs_existing (collect_step t ids x st)) = length (cs_existing st)"
  by (simp add: collect_step_def Let_def split: option.splits)

lemma collect_step_untouched:
  "ids (vd_vehicle_id x) \<noteq> Some i \<Longrightarrow>
   cs_existing (collect_step t ids x st) ! i = cs_existing st ! i"
  by (auto simp: collect_step_def Let_def split: option.splits)

lemma fold_collect_untouched:
  "\<forall>y \<in> set ys. ids (vd_vehicle_id y) \<noteq> Some i \<Longrightarrow>
   cs_existing (fold (collect_step t ids) ys st) ! i = cs_existing st ! i"
  by (induction ys arbitrary: st) (simp_all add: collect_step_untouched)

lemma collect_step_touched:
  "ids (vd_vehicle_id x) = Some i \<Longrightarrow> i < length (cs_existing st) \<Longrightarrow>
   cs_existing (collect_step t ids x st) ! i = update_existing t x (cs_existing st ! i)"
  by (simp add: collect_step_def Let_def)

lemma collect_step_stamp:
  "i < length (cs_existing st) \<Longrightarrow>
   v_last_updated (cs_existing st ! i) = t \<or> ids (vd_vehicle_id x) = Some i \<Longrightarrow>
   v_last_updated (cs_existing (collect_step t ids x st) ! i) = t"
  by (cases "ids (vd_vehicle_id x) = Some i")
     (auto simp: collect_step_touched collect_step_untouched update_existing_def)

lemma fold_collect_stamp_kept:
  "i < length (cs_existing st) \<Longrightarrow> v_last_updated (cs_existing st ! i) = t \<Longrightarrow>
   v_last_updated (cs_existing (fold (collect_step t ids) xs st) ! i) = t"
proof (induction xs arbitrary: st)
  case Nil
  then show ?case by simp
next
  case (Cons x xs)
  have "v_last_updated (cs_existing (collect_step t ids x st) ! i) = t"
    using collect_step_stamp [of i st t ids x] Cons.prems by simp
  then show ?case
    using Cons.IH [of "collect_step t ids x st"] Cons.prems(1)
    by (simp add: collect_step_existing_length)
qed

lemma fold_collect_stamp:
  "x \<in> set xs \<Longrightarrow> ids (vd_vehicle_id x) = Some i \<Longrightarrow> i < length (cs_existing st) \<Longrightarrow>
   v_last_updated (cs_existing (fold (collect_step t ids) xs st) ! i) = t"
proof (induction xs arbitrary: st)
  case Nil
  then show ?case by simp
next
  case (Cons y xs)
  have len: "i < length (cs_existing (collect_step t ids y st))"
    using Cons.prems(3) by (simp add: collect_step_existing_length)
  show ?case
  proof (cases "x = y")
    case True
    have "v_last_updated (cs_existing (collect_step t ids y st) ! i) = t"
      using collect_step_stamp [of i st t ids y] Cons.prems True by simp
    then show ?thesis using fold_collect_stamp_kept [OF len] by simp
  next
    case False
    then have "x \<in> set xs" using Cons.prems(1) by simp
    then show ?thesis using Cons.IH [OF _ Cons.prems(2) len] by simp
  qed
qed

lemma fold_collect_carries:
  assumes "distinct (map vd_vehicle_id xs)" "x \<in> set xs" "ids (vd_vehicle_id x) = Some i"
    and "i < length (cs_existing st)" "v_vehicle_id (cs_existing st ! i) = vd_vehicle_id x"
    and inj: "\<forall>k k' j. ids k = Some j \<and> ids k' = Some j \<longrightarrow> k = k'"
  shows "carries x t (cs_existing (fold (collect_step t ids) xs st) ! i)"
  using assms(1,2,4,5)
proof (induction xs arbitrary: st)
  case Nil
  then show ?case by simp
next
  case (Cons y xs)
  have len: "i < length (cs_existing (collect_step t ids y st))"
    using Cons.prems(3) by (simp add: collect_step_existing_length)
  show ?case
  proof (cases "x = y")
    case True
    have "\<forall>z \<in> set xs. ids (vd_vehicle_id z) \<noteq> Some i"
    proof
      fix z assume z: "z \<in> set xs"
      then have "vd_vehicle_id z \<in> vd_vehicle_id ` set xs" by (rule imageI)
      moreover have "vd_vehicle_id y \<notin> vd_vehicle_id ` set xs" using Cons.prems(1) by simp
      ultimately have "vd_vehicle_id z \<noteq> vd_vehicle_id x" using True by metis
      then show "ids (vd_vehicle_id z) \<noteq> Some i" using inj assms(3) by blast
    qed
    then have "cs_existing (fold (collect_step t ids) (y # xs) st) ! i =
        cs_existing (collect_step t ids y st) ! i"
      using fold_collect_untouched [of xs ids i t "collect_step t ids y st"] by simp
    then show ?thesis
      using collect_step_touched [of ids y i st t] assms(3) Cons.prems(3,4) True
      by (simp add: carries_def update_existing_def)
  next
    case False
    then have mem: "x \<in> set xs" using Cons.prems(2) by simp
    have "vd_vehicle_id x \<in> vd_vehicle_id ` set xs" using mem by (rule imageI)
    moreover have "vd_vehicle_id y \<notin> vd_vehicle_id ` set xs" using Cons.prems(1) by simp
    ultimately have "vd_vehicle_id y \<noteq> vd_vehicle_id x" by metis
    then have "ids (vd_vehicle_id y) \<noteq> Some i" using inj assms(3) by blast
    then have same: "cs_existing (collect_step t ids y st) ! i = cs_existing st ! i"
      by (rule collect_step_untouched)
    show ?thesis
      using Cons.IH [of "collect_step t ids y st"] Cons.prems(1,4) mem len same by simp
  qed
qed

lemma bulk_save_vehicles_Inr:
  "bulk_save_vehicles table objects = Inr table' \<Longrightarrow>
   \<exists>new. table' = table @ new \<and>
         list_all2 (\<lambda>object row. \<exists>n. row = object\<lparr>v_id := Some n\<rparr>) objects new"
proof (induction objects arbitrary: table)
  case Nil
  then show ?case by simp
next
  case (Cons v objects)
  let ?row = "v\<lparr>v_id := Some (next_id (map v_id table))\<rparr>"
  from Cons.prems have "bulk_save_vehicles (table @ [?row]) objects = Inr table'"
    by (simp split: if_splits)
  from Cons.IH [OF this] obtain new where
    "table' = (table @ [?row]) @ new"
    "list_all2 (\<lambda>object row. \<exists>n. row = object\<lparr>v_id := Some n\<rparr>) objects new" by blast
  then show ?case by (intro exI [of _ "?row # new"]) auto
qed

lemma bulk_save_vehicles_distinct:
  "bulk_save_vehicles table objects = Inr table' \<Longrightarrow> distinct (map v_vehicle_id table) \<Longrightarrow>
   distinct (map v_vehicle_id table')"
proof (induction objects arbitrary: table)
  case Nil
  then show ?case by simp
next
  case (Cons v objects)
  let ?row = "v\<lparr>v_id := Some (next_id (map v_id table))\<rparr>"
  from Cons.prems(1) have fresh: "v_vehicle_id v \<notin> set (map v_vehicle_id table)"
    and run: "bulk_save_vehicles (table @ [?row]) objects = Inr table'"
    by (simp_all split: if_splits)
  have "distinct (map v_vehicle_id (table @ [?row]))" using fresh Cons.prems(2) by simp
  from Cons.IH [OF run this] show ?case .
qed

lemma bulk_save_vehicles_succeeds:
  "distinct (map v_vehicle_id objects) \<Longrightarrow>
   set (map v_vehicle_id objects) \<inter> set (map v_vehicle_id table) = {} \<Longrightarrow>
   \<exists>table'. bulk_save_vehicles table objects = Inr table'"
proof (induction objects arbitrary: table)
  case Nil
  then show ?case by simp
next
  case (Cons v objects)
  let ?row = "v\<lparr>v_id := Some (next_id (map v_id table))\<rparr>"
  have "set (map v_vehicle_id objects) \<inter> set (map v_vehicle_id (table @ [?row])) = {}"
    using Cons.prems by auto
  moreover have "distinct (map v_vehicle_id objects)" using Cons.prems(1) by simp
  ultimately obtain table' where "bulk_save_vehicles (table @ [?row]) objects = Inr table'"
    using Cons.IH by blast
  moreover have "v_vehicle_id v \<notin> set (map v_vehicle_id table)" using Cons.prems(2) by auto
  ultimately show ?case by simp
qed

lemma bulk_save_telemetry_events_length:
  "length (bulk_save_telemetry_events table objects) = length table + length objects"
  by (induction objects arbitrary: table) simp_all

lemma store_cycle_Inr:
  assumes "store_cycle fails t db xs = Inr db'"
  obtains new where
    "vehicles db' =
       cs_existing (fold (collect_step t (existing_vehicle_ids (vehicles db))) xs
          \<lparr>cs_existing = vehicles db, cs_vehicles_to_update = [],
           cs_vehicles_to_insert = [], cs_telemetry_events = []\<rparr>) @ new"
    "bulk_save_vehicles (vehicles db)
       (map (new_vehicle t) (filter (\<lambda>x. existing_vehicle_ids (vehicles db) (vd_vehicle_id x) = None) xs))
     = Inr (vehicles db @ new)"
    "list_all2 (\<lambda>object row. \<exists>n. row = object\<lparr>v_id := Some n\<rparr>)
       (map (new_vehicle t) (filter (\<lambda>x. existing_vehicle_ids (vehicles db) (vd_vehicle_id x) = None) xs))
       new"
    "length (telemetry_events db') = length (telemetry_events db) + length xs"
    "route_delays db' = route_delays db"
proof -
  let ?ids = "existing_vehicle_ids (vehicles db)"
  let ?st = "fold (collect_step t ?ids) xs
          \<lparr>cs_existing = vehicles db, cs_vehicles_to_update = [],
           cs_vehicles_to_insert = [], cs_telemetry_events = []\<rparr>"
  let ?objects = "map (new_vehicle t) (filter (\<lambda>x. ?ids (vd_vehicle_id x) = None) xs)"
  have ins: "cs_vehicles_to_insert ?st = ?objects" by (simp add: fold_collect_insert)
  have len: "length (cs_existing ?st) = length (vehicles db)"
    by (simp add: fold_collect_existing_length)
  have evs: "length (cs_telemetry_events ?st) = length xs" by (simp add: fold_collect_events)
  obtain table where table: "bulk_save_vehicles (vehicles db) ?objects = Inr table"
    and db': "vehicles db' = cs_existing ?st @ drop (length (vehicles db)) table"
    and ev: "length (telemetry_events db') = length (telemetry_events db) + length xs"
    and rd: "route_delays db' = route_delays db"
  proof (cases "cs_vehicles_to_insert ?st = []")
    case True
    with ins have "bulk_save_vehicles (vehicles db) ?objects = Inr (vehicles db)" by simp
    moreover from assms True have
      "vehicles db' = cs_existing ?st @ drop (length (vehicles db)) (vehicles db)
       \<and> length (telemetry_events db') = length (telemetry_events db) + length xs
       \<and> route_delays db' = route_delays db"
      using len evs
      by (auto simp: store_cycle_def Let_def bulk_save_telemetry_events_length
            split: if_splits sum.splits)
    ultimately show ?thesis using that by blast
  next
    case False
    from assms False obtain table where "bulk_save_vehicles (vehicles db) (cs_vehicles_to_insert ?st) = Inr table"
      and "vehicles db' = cs_existing ?st @ drop (length (vehicles db)) table
       \<and> length (telemetry_events db') = length (telemetry_events db) + length xs
       \<and> route_delays db' = route_delays db"
      using len evs
      by (auto simp: store_cycle_def Let_def bulk_save_telemetry_events_length
            split: if_splits sum.splits)
    then show ?thesis using that ins by auto
  qed
  from bulk_save_vehicles_Inr [OF table] obtain new where
    new: "table = vehicles db @ new"
      "list_all2 (\<lambda>object row. \<exists>n. row = object\<lparr>v_id := Some n\<rparr>) ?objects new" by blast
  show ?thesis
    using that [of new] db' table new ev rd by simp
qed

lemma list_all2_new_rows_ids:
  "list_all2 (\<lambda>object row. \<exists>n. row = object\<lparr>v_id := Some n\<rparr>) objects new \<Longrightarrow>
   map v_vehicle_id new = map v_vehicle_id objects"
  by (induction rule: list_all2_induct) auto

lemma store_cycle_vehicle_ids:
  assumes "store_cycle fails t db xs = Inr db'"
  shows "map v_vehicle_id (vehicles db') =
           map v_vehicle_id (vehicles db) @
             filter (\<lambda>k. k \<notin> set (map v_vehicle_id (vehicles db))) (map vd_vehicle_id xs)"
proof -
  let ?ids = "existing_vehicle_ids (vehicles db)"
  have none: "?ids k = None \<longleftrightarrow> k \<notin> set (map v_vehicle_id (vehicles db))" for k
  proof (cases "existing_vehicle_ids (vehicles db) k")
    case None
    then show ?thesis using existing_vehicle_ids_None [of "vehicles db" k] by simp
  next
    case (Some i)
    from existing_vehicle_ids_valid [OF Some] have "k \<in> v_vehicle_id ` set (vehicles db)"
      by (metis imageI nth_mem)
    then show ?thesis using Some by simp
  qed
  from store_cycle_Inr [OF assms] obtain new where
    v: "vehicles db' = cs_existing (fold (collect_step t ?ids) xs
          \<lparr>cs_existing = vehicles db, cs_vehicles_to_update = [],
           cs_vehicles_to_insert = [], cs_telemetry_events = []\<rparr>) @ new"
    and n: "list_all2 (\<lambda>object row. \<exists>n. row = object\<lparr>v_id := Some n\<rparr>)
       (map (new_vehicle t) (filter (\<lambda>x. ?ids (vd_vehicle_id x) = None) xs)) new"
    by blast
  have "map v_vehicle_id new = map vd_vehicle_id (filter (\<lambda>x. ?ids (vd_vehicle_id x) = None) xs)"
    using list_all2_new_rows_ids [OF n] by (simp add: new_vehicle_def comp_def)
  then show ?thesis
    using v by (simp add: fold_collect_existing_ids filter_map comp_def none)
qed

lemma store_cycle_distinct:
  assumes "store_cycle fails t db xs = Inr db'" "distinct (map v_vehicle_id (vehicles db))"
  shows "distinct (map v_vehicle_id (vehicles db'))"
proof -
  let ?ids = "existing_vehicle_ids (vehicles db)"
  from store_cycle_Inr [OF assms(1)] obtain new where
    v: "vehicles db' = cs_existing (fold (collect_step t ?ids) xs
          \<lparr>cs_existing = vehicles db, cs_vehicles_to_update = [],
           cs_vehicles_to_insert = [], cs_telemetry_events = []\<rparr>) @ new"
    and b: "bulk_save_vehicles (vehicles db)
       (map (new_vehicle t) (filter (\<lambda>x. ?ids (vd_vehicle_id x) = None) xs))
       = Inr (vehicles db @ new)"
    by blast
  have "distinct (map v_vehicle_id (vehicles db @ new))"
    using bulk_save_vehicles_distinct [OF b assms(2)] .
  then show ?thesis using v by (simp add: fold_collect_existing_ids)
qed

lemma store_cycle_succeeds:
  assumes "\<not> fails Query_vehicles" "\<not> fails Insert_vehicles"
    "\<not> fails Insert_telemetry_events" "\<not> fails Commit"
    and "distinct (map vd_vehicle_id xs)"
  shows "\<exists>db'. store_cycle fails t db xs = Inr db'"
proof -
  let ?ids = "existing_vehicle_ids (vehicles db)"
  let ?objects = "map (new_vehicle t) (filter (\<lambda>x. ?ids (vd_vehicle_id x) = None) xs)"
  have ids: "map v_vehicle_id ?objects = filter (\<lambda>k. ?ids k = None) (map vd_vehicle_id xs)"
    by (simp add: new_vehicle_def comp_def filter_map)
  have "distinct (map v_vehicle_id ?objects)" using assms(5) by (simp only: ids distinct_filter)
  moreover have "set (map v_vehicle_id ?objects) \<inter> set (map v_vehicle_id (vehicles db)) = {}"
    using existing_vehicle_ids_None [of "vehicles db"] by (auto simp only: ids set_filter)
  ultimately obtain table where "bulk_save_vehicles (vehicles db) ?objects = Inr table"
    using bulk_save_vehicles_succeeds by blast
  then show ?thesis
    using assms(1-4)
    by (simp add: store_cycle_def Let_def fold_collect_insert)
qed

lemma distinct_filter_single:
  "distinct (map f rows) \<Longrightarrow> v \<in> set rows \<Longrightarrow> filter (\<lambda>r. f r = f v) rows = [v]"
proof (induction rows)
  case Nil
  then show ?case by simp
next
  case (Cons r rows)
  show ?case
  proof (cases "v = r")
    case True
    have "f r \<notin> f ` set rows" using Cons.prems(1) by simp
    then have "filter (\<lambda>r'. f r' = f r) rows = []"
      unfolding filter_empty_conv by (metis imageI)
    then show ?thesis using True by simp
  next
    case False
    then have mem: "v \<in> set rows" using Cons.prems(2) by simp
    then have "f v \<in> f ` set rows" by (rule imageI)
    moreover have "f r \<notin> f ` set rows" using Cons.prems(1) by simp
    ultimately have "f r \<noteq> f v" by metis
    then show ?thesis using Cons.IH mem Cons.prems(1) by simp
  qed
qed

lemma new_row_in_table:
  assumes "list_all2 (\<lambda>object row. \<exists>n. row = object\<lparr>v_id := Some n\<rparr>) objects new"
    and "object \<in> set objects"
  shows "\<exists>n. object\<lparr>v_id := Some n\<rparr> \<in> set new"
  using assms by (induction rule: list_all2_induct) auto

lemma store_cycle_row:
  assumes ok: "store_cycle fails t db xs = Inr db'" and x: "x \<in> set xs"
  shows "\<exists>v \<in> set (vehicles db'). v_vehicle_id v = vd_vehicle_id x \<and> v_last_updated v = t \<and>
           (distinct (map vd_vehicle_id xs) \<longrightarrow> carries x t v)"
proof -
  let ?ids = "existing_vehicle_ids (vehicles db)"
  let ?init = "\<lparr>cs_existing = vehicles db, cs_vehicles_to_update = [],
           cs_vehicles_to_insert = [], cs_telemetry_events = []\<rparr>"
  let ?st = "fold (collect_step t ?ids) xs ?init"
  let ?objects = "map (new_vehicle t) (filter (\<lambda>x. ?ids (vd_vehicle_id x) = None) xs)"
  from store_cycle_Inr [OF ok] obtain new where
    v: "vehicles db' = cs_existing ?st @ new"
    and n: "list_all2 (\<lambda>object row. \<exists>n. row = object\<lparr>v_id := Some n\<rparr>) ?objects new"
    by blast
  show ?thesis
  proof (cases "?ids (vd_vehicle_id x)")
    case None
    then have "new_vehicle t x \<in> set ?objects" using x by simp
    from new_row_in_table [OF n this] obtain k where
      "(new_vehicle t x)\<lparr>v_id := Some k\<rparr> \<in> set new" by blast
    then show ?thesis using v by (intro bexI [of _ "(new_vehicle t x)\<lparr>v_id := Some k\<rparr>"])
        (simp_all add: new_vehicle_def carries_def)
  next
    case (Some i)
    from existing_vehicle_ids_valid [OF Some] have i: "i < length (vehicles db)"
      and key: "v_vehicle_id (vehicles db ! i) = vd_vehicle_id x" by simp_all
    have len: "length (cs_existing ?st) = length (vehicles db)"
      by (simp add: fold_collect_existing_length)
    have "map v_vehicle_id (cs_existing ?st) ! i = map v_vehicle_id (vehicles db) ! i"
      by (simp add: fold_collect_existing_ids)
    then have id: "v_vehicle_id (cs_existing ?st ! i) = vd_vehicle_id x"
      using i len key by simp
    have stamp: "v_last_updated (cs_existing ?st ! i) = t"
      using fold_collect_stamp [where x = x and xs = xs and ids = ?ids and i = i and st = ?init and t = t]
        x Some i by simp
    have inj: "\<forall>k k' j. ?ids k = Some j \<and> ?ids k' = Some j \<longrightarrow> k = k'"
      using existing_vehicle_ids_valid [of "vehicles db"] by blast
    have car: "carries x t (cs_existing ?st ! i)" if "distinct (map vd_vehicle_id xs)"
      using fold_collect_carries [where x = x and xs = xs and ids = ?ids and i = i and st = ?init and t = t]
        that x Some inj i key by simp
    have "cs_existing ?st ! i \<in> set (vehicles db')" using v i len by simp
    then show ?thesis using id stamp car by blast
  qed
qed

lemma store_cycle_upsert:
  assumes ok: "store_cycle fails t db xs = Inr db'"
    and dd: "distinct (map v_vehicle_id (vehicles db))"
    and dx: "distinct (map vd_vehicle_id xs)" and x: "x \<in> set xs"
  shows "\<exists>v. filter (\<lambda>r. v_vehicle_id r = vd_vehicle_id x) (vehicles db') = [v] \<and> carries x t v"
proof -
  from store_cycle_row [OF ok x] dx obtain v where
    v: "v \<in> set (vehicles db')" "v_vehicle_id v = vd_vehicle_id x" "carries x t v" by blast
  have "distinct (map v_vehicle_id (vehicles db'))" using store_cycle_distinct [OF ok dd] .
  from distinct_filter_single [OF this v(1)] v(2,3) show ?thesis by auto
qed

lemma parse_vehicle_data_falsy:
  "(case api_response of None \<Rightarrow> True | Some r \<Rightarrow> falsy_response r) \<Longrightarrow>
   parse_vehicle_data api_response = Inr []"
  by (auto simp: parse_vehicle_data_def falsy_response_def split: option.splits)

lemma collect_telemetry_raised:
  "cr_raised (collect_telemetry raises upstream fails now db) = None"
  by (simp add: collect_telemetry_def Let_def split: option.splits)

lemma collect_telemetry_db:
  "cr_db (collect_telemetry raises upstream fails now db) =
     (case parse_vehicle_data (fr_value (get_vehicles raises upstream 3)) of
        Inl e \<Rightarrow> db
      | Inr xs \<Rightarrow>
          if xs = [] then db
          else (case store_cycle fails now db xs of Inl e \<Rightarrow> db | Inr db' \<Rightarrow> db'))"
proof (cases "case fr_value (get_vehicles raises upstream 3) of None \<Rightarrow> True | Some r \<Rightarrow> falsy_response r")
  case True
  then show ?thesis
    using parse_vehicle_data_falsy [OF True]
    by (simp add: collect_telemetry_def collect_body_def Let_def)
next
  case False
  then show ?thesis
    by (simp add: collect_telemetry_def collect_body_def Let_def split: option.splits sum.splits)
qed

lemma collect_telemetry_error_logged:
  assumes "parse_vehicle_data (fr_value (get_vehicles raises upstream 3)) = Inr xs" "xs \<noteq> []"
    and "store_cycle fails now db xs = Inl e"
  shows "Log_error ''Error storing telemetry data'' \<in> set (cr_log (collect_telemetry raises upstream fails now db))"
proof -
  have "\<not> (case fr_value (get_vehicles raises upstream 3) of None \<Rightarrow> True | Some r \<Rightarrow> falsy_response r)"
    using parse_vehicle_data_falsy assms(1,2) by fastforce
  then show ?thesis
    using assms by (simp add: collect_telemetry_def collect_body_def Let_def)
qed

lemma run_cycle_distinct:
  "distinct (map v_vehicle_id (vehicles db)) \<Longrightarrow> distinct (map v_vehicle_id (vehicles (run_cycle t db)))"
  by (auto simp: run_cycle_def collect_telemetry_db split: sum.splits dest: store_cycle_distinct)

lemma store_cycle_keeps:
  assumes "store_cycle fails t db xs = Inr db'"
  shows "set (map v_vehicle_id (vehicles db)) \<subseteq> set (map v_vehicle_id (vehicles db'))"
  unfolding store_cycle_vehicle_ids [OF assms] by simp

lemma run_cycle_keeps:
  "set (map v_vehicle_id (vehicles db)) \<subseteq> set (map v_vehicle_id (vehicles (run_cycle t db)))"
  using store_cycle_keeps [of "t_fails t" "t_now t" db]
  by (simp add: run_cycle_def collect_telemetry_db split: sum.splits)

lemma run_cycles_distinct:
  "distinct (map v_vehicle_id (vehicles db)) \<Longrightarrow> distinct (map v_vehicle_id (vehicles (run_cycles ticks db)))"
  unfolding run_cycles_def
  by (induction ticks arbitrary: db) (simp_all add: run_cycle_distinct)

lemma run_cycles_keeps:
  "set (map v_vehicle_id (vehicles db)) \<subseteq> set (map v_vehicle_id (vehicles (run_cycles ticks db)))"
  unfolding run_cycles_def
proof (induction ticks arbitrary: db)
  case Nil
  then show ?case by simp
next
  case (Cons t ticks)
  show ?case using run_cycle_keeps [of db t] Cons.IH [of "run_cycle t db"] by auto
qed

text \<open>
  Claim C1. Starting from a current-state table with at most one row per vehicle
  identifier (the empty table of \<open>init_db\<close> is one), after every sequence of collection
  cycles, whatever the upstream answers and whichever storage operations fail, the table
  still has at most one row per vehicle identifier, and every vehicle identifier that had
  a row still has one (a cycle never deletes a row). Running the same response, whose
  snapshots have pairwise distinct vehicle identifiers, through two cycles in which no
  storage operation fails leaves, for each snapshot, exactly one row with its vehicle
  identifier, and that row carries the snapshot's values and the second cycle's
  collection time.
\<close>

theorem current_vehicle_state_unique:
  assumes "distinct (map v_vehicle_id (vehicles db))"
  shows "distinct (map v_vehicle_id (vehicles (run_cycles ticks db))) \<and>
         set (map v_vehicle_id (vehicles db)) \<subseteq> set (map v_vehicle_id (vehicles (run_cycles ticks db))) \<and>
         (fr_value (get_vehicles (t_raises t1) (t_upstream t1) 3) = Some response \<and>
          fr_value (get_vehicles (t_raises t2) (t_upstream t2) 3) = Some response \<and>
          parse_vehicle_data (Some response) = Inr snapshots \<and>
          distinct (map vd_vehicle_id snapshots) \<and>
          (\<forall>op. \<not> t_fails t1 op) \<and> (\<forall>op. \<not> t_fails t2 op) \<longrightarrow>
          (\<forall>x \<in> set snapshots.
             \<exists>v. filter (\<lambda>r. v_vehicle_id r = vd_vehicle_id x) (vehicles (run_cycles [t1, t2] db)) = [v] \<and>
                 carries x (t_now t2) v))"
proof (intro conjI impI ballI)
  show "distinct (map v_vehicle_id (vehicles (run_cycles ticks db)))"
    using assms by (rule run_cycles_distinct)
  show "set (map v_vehicle_id (vehicles db)) \<subseteq> set (map v_vehicle_id (vehicles (run_cycles ticks db)))"
    by (rule run_cycles_keeps)
next
  fix x
  assume h: "fr_value (get_vehicles (t_raises t1) (t_upstream t1) 3) = Some response \<and>
          fr_value (get_vehicles (t_raises t2) (t_upstream t2) 3) = Some response \<and>
          parse_vehicle_data (Some response) = Inr snapshots \<and>
          distinct (map vd_vehicle_id snapshots) \<and>
          (\<forall>op. \<not> t_fails t1 op) \<and> (\<forall>op. \<not> t_fails t2 op)"
    and x: "x \<in> set snapshots"
  let ?db1 = "run_cycle t1 db"
  have d1: "distinct (map v_vehicle_id (vehicles ?db1))" using assms by (rule run_cycle_distinct)
  from h obtain db2 where ok: "store_cycle (t_fails t2) (t_now t2) ?db1 snapshots = Inr db2"
    using store_cycle_succeeds [of "t_fails t2" snapshots "t_now t2" ?db1] by blast
  have ne: "snapshots \<noteq> []" using x by auto
  have "run_cycle t2 ?db1 = db2"
    using h ok ne by (simp add: run_cycle_def collect_telemetry_db)
  then have "run_cycles [t1, t2] db = db2" by (simp add: run_cycles_def)
  moreover from store_cycle_upsert [OF ok d1 _ x] h
  have "\<exists>v. filter (\<lambda>r. v_vehicle_id r = vd_vehicle_id x) (vehicles db2) = [v] \<and> carries x (t_now t2) v"
    by blast
  ultimately show "\<exists>v. filter (\<lambda>r. v_vehicle_id r = vd_vehicle_id x) (vehicles (run_cycles [t1, t2] db)) = [v] \<and>
                 carries x (t_now t2) v" by simp
qed

lemma get_vehicles_first_ok:
  "upstream 0 = Response status (Some body) \<Longrightarrow> status \<noteq> 429 \<Longrightarrow> \<not> raises status \<Longrightarrow>
   get_vehicles raises upstream 3 = \<lparr>fr_value = Some body, fr_sleeps = [], fr_attempts = 1\<rparr>"
  unfolding get_vehicles_def by (subst get_vehicles_loop.simps) simp

lemma sample_fetch:
  "fr_value (get_vehicles raises_on_error_status (always_ok r) 3) = Some r"
  by (simp add: get_vehicles_first_ok [of _ 200 r] always_ok_def raises_on_error_status_def)

lemma sample_parse:
  "parse_vehicle_data (Some (sample_response [i])) = Inr [sample_snapshot i]"
  "parse_vehicle_data (Some (sample_response [i, j])) = Inr [sample_snapshot i, sample_snapshot j]"
  by (simp_all add: parse_vehicle_data_def sample_response_def sample_vehicle_item_def
        sample_snapshot_def parse_vehicle_def)

theorem current_vehicle_state_unique_witness:
  "distinct (map v_vehicle_id (vehicles init_db)) \<and>
   distinct (map v_vehicle_id (vehicles
      (run_cycles [sample_tick [''y1801''] 10, sample_tick [''y1801''] 20] init_db))) \<and>
   (\<exists>v. filter (\<lambda>r. v_vehicle_id r = ''y1801'')
          (vehicles (run_cycles [sample_tick [''y1801''] 10, sample_tick [''y1801''] 20] init_db)) = [v] \<and>
        carries (sample_snapshot ''y1801'') 20 v)"
proof -
  let ?t1 = "sample_tick [''y1801''] 10" and ?t2 = "sample_tick [''y1801''] 20"
  have d: "distinct (map v_vehicle_id (vehicles init_db))" by (simp add: init_db_def)
  have h: "fr_value (get_vehicles (t_raises ?t1) (t_upstream ?t1) 3) = Some (sample_response [''y1801'']) \<and>
      fr_value (get_vehicles (t_raises ?t2) (t_upstream ?t2) 3) = Some (sample_response [''y1801'']) \<and>
      parse_vehicle_data (Some (sample_response [''y1801''])) = Inr [sample_snapshot ''y1801''] \<and>
      distinct (map vd_vehicle_id [sample_snapshot ''y1801'']) \<and>
      (\<forall>op. \<not> t_fails ?t1 op) \<and> (\<forall>op. \<not> t_fails ?t2 op)"
    by (simp add: sample_tick_def sample_fetch sample_parse no_failure_def)
  have x: "sample_snapshot ''y1801'' \<in> set [sample_snapshot ''y1801'']" by simp
  have id: "vd_vehicle_id (sample_snapshot ''y1801'') = ''y1801''" by (simp add: sample_snapshot_def)
  have t: "t_now ?t2 = 20" by (simp add: sample_tick_def)
  from current_vehicle_state_unique [OF d, of "[?t1, ?t2]" ?t1 "sample_response [''y1801'']" ?t2
      "[sample_snapshot ''y1801'']"] h x
  show ?thesis using d id t by auto
qed

lemma store_cycle_fails:
  assumes "xs \<noteq> []" "fails Query_vehicles \<or> fails Insert_telemetry_events \<or> fails Commit"
  shows "\<exists>e. store_cycle fails t db xs = Inl e"
proof -
  have "length (cs_telemetry_events (fold (collect_step t (existing_vehicle_ids (vehicles db))) xs
          \<lparr>cs_existing = vehicles db, cs_vehicles_to_update = [],
           cs_vehicles_to_insert = [], cs_telemetry_events = []\<rparr>)) = length xs"
    by (simp add: fold_collect_events)
  then have "cs_telemetry_events (fold (collect_step t (existing_vehicle_ids (vehicles db))) xs
          \<lparr>cs_existing = vehicles db, cs_vehicles_to_update = [],
           cs_vehicles_to_insert = [], cs_telemetry_events = []\<rparr>) \<noteq> []"
    using assms(1) by auto
  then show ?thesis
    using assms(2) by (auto simp: store_cycle_def Let_def split: sum.splits)
qed

lemma collect_telemetry_failure_parts:
  "cr_raised (collect_telemetry raises upstream fails now db) = None \<and>
   (cr_db (collect_telemetry raises upstream fails now db) = db \<or>
    (\<exists>xs. parse_vehicle_data (fr_value (get_vehicles raises upstream 3)) = Inr xs \<and>
        length (telemetry_events (cr_db (collect_telemetry raises upstream fails now db))) =
          length (telemetry_events db) + length xs \<and>
        (\<forall>x \<in> set xs. \<exists>v \<in> set (vehicles (cr_db (collect_telemetry raises upstream fails now db))).
           v_vehicle_id v = vd_vehicle_id x \<and> v_last_updated v = now))) \<and>
   (parse_vehicle_data (fr_value (get_vehicles raises upstream 3)) = Inr snapshots \<and>
    snapshots \<noteq> [] \<and>
    (store_cycle fails now db snapshots = Inl e \<or>
     fails Query_vehicles \<or> fails Insert_telemetry_events \<or> fails Commit) \<longrightarrow>
    cr_db (collect_telemetry raises upstream fails now db) = db \<and>
    Log_error ''Error storing telemetry data''
      \<in> set (cr_log (collect_telemetry raises upstream fails now db)))"
proof (intro conjI impI)
  let ?r = "collect_telemetry raises upstream fails now db"
  let ?parsed = "parse_vehicle_data (fr_value (get_vehicles raises upstream 3))"
  show "cr_raised ?r = None" by (rule collect_telemetry_raised)
  show "cr_db ?r = db \<or>
    (\<exists>xs. ?parsed = Inr xs \<and>
        length (telemetry_events (cr_db ?r)) = length (telemetry_events db) + length xs \<and>
        (\<forall>x \<in> set xs. \<exists>v \<in> set (vehicles (cr_db ?r)).
           v_vehicle_id v = vd_vehicle_id x \<and> v_last_updated v = now))"
  proof (cases ?parsed)
    case (Inl e)
    then show ?thesis by (simp add: collect_telemetry_db)
  next
    case (Inr xs)
    show ?thesis
    proof (cases "store_cycle fails now db xs")
      case (Inl e)
      then show ?thesis using Inr by (simp add: collect_telemetry_db)
    next
      case ok: (Inr db')
      show ?thesis
      proof (cases "xs = []")
        case True
        then show ?thesis using Inr by (simp add: collect_telemetry_db)
      next
        case False
        then have db': "cr_db ?r = db'" using Inr ok by (simp add: collect_telemetry_db)
        have "length (telemetry_events db') = length (telemetry_events db) + length xs"
          using store_cycle_Inr [OF ok] by blast
        moreover have "\<forall>x \<in> set xs. \<exists>v \<in> set (vehicles db').
             v_vehicle_id v = vd_vehicle_id x \<and> v_last_updated v = now"
          using store_cycle_row [OF ok] by blast
        ultimately show ?thesis using Inr db' by simp
      qed
    qed
  qed
next
  let ?r = "collect_telemetry raises upstream fails now db"
  assume h: "parse_vehicle_data (fr_value (get_vehicles raises upstream 3)) = Inr snapshots \<and>
    snapshots \<noteq> [] \<and>
    (store_cycle fails now db snapshots = Inl e \<or>
     fails Query_vehicles \<or> fails Insert_telemetry_events \<or> fails Commit)"
  then obtain e' where e': "store_cycle fails now db snapshots = Inl e'"
    using store_cycle_fails [of snapshots fails now db] by blast
  show "cr_db ?r = db" using h e' by (simp add: collect_telemetry_db)
  show "Log_error ''Error storing telemetry data'' \<in> set (cr_log ?r)"
    using collect_telemetry_error_logged [of raises upstream snapshots fails now db e'] h e' by simp
qed

lemma collect_step_events_list:
  "cs_telemetry_events (collect_step t ids x st) = cs_telemetry_events st @ [new_telemetry_event t x]"
  by (simp add: collect_step_def Let_def split: option.splits)

lemma fold_collect_events_list:
  "cs_telemetry_events (fold (collect_step t ids) xs st) =
     cs_telemetry_events st @ map (new_telemetry_event t) xs"
  by (induction xs arbitrary: st) (simp_all add: collect_step_events_list)

lemma bulk_save_telemetry_events_rows:
  "\<exists>new. bulk_save_telemetry_events table objects = table @ new \<and>
         list_all2 (\<lambda>object row. \<exists>n. row = object\<lparr>te_id := Some n\<rparr>) objects new"
proof (induction objects arbitrary: table)
  case Nil
  then show ?case by simp
next
  case (Cons e objects)
  let ?row = "e\<lparr>te_id := Some (next_id (map te_id table))\<rparr>"
  from Cons.IH [of "table @ [?row]"] obtain new where
    "bulk_save_telemetry_events (table @ [?row]) objects = (table @ [?row]) @ new"
    "list_all2 (\<lambda>object row. \<exists>n. row = object\<lparr>te_id := Some n\<rparr>) objects new" by blast
  then show ?case by (intro exI [of _ "?row # new"]) auto
qed

lemma store_cycle_events:
  assumes "store_cycle fails t db xs = Inr db'"
  shows "\<exists>new. telemetry_events db' = telemetry_events db @ new \<and>
           list_all2 (\<lambda>x e. records x t e) xs new"
proof -
  let ?objects = "map (new_telemetry_event t) xs"
  from bulk_save_telemetry_events_rows [of "telemetry_events db" ?objects] obtain new where
    new: "bulk_save_telemetry_events (telemetry_events db) ?objects = telemetry_events db @ new"
      "list_all2 (\<lambda>object row. \<exists>n. row = object\<lparr>te_id := Some n\<rparr>) ?objects new" by blast
  have "list_all2 (\<lambda>x e. \<exists>n. e = (new_telemetry_event t x)\<lparr>te_id := Some n\<rparr>) xs new"
    using new(2) by (simp add: list_all2_map1)
  then have rec: "list_all2 (\<lambda>x e. records x t e) xs new"
    by (rule list_all2_mono) (auto simp: records_def new_telemetry_event_def)
  have "telemetry_events db' = telemetry_events db @ new"
  proof (cases "xs = []")
    case True
    then have "new = []" using new(2) by simp
    then show ?thesis using assms True
      by (auto simp: store_cycle_def Let_def split: if_splits sum.splits)
  next
    case False
    then show ?thesis using assms new(1)
      by (auto simp: store_cycle_def Let_def fold_collect_events_list split: if_splits sum.splits)
  qed
  then show ?thesis using rec by blast
qed

lemma store_cycle_absent_kept:
  assumes ok: "store_cycle fails t db xs = Inr db'" and v: "v \<in> set (vehicles db)"
    and absent: "v_vehicle_id v \<notin> vd_vehicle_id ` set xs"
  shows "v \<in> set (vehicles db')"
proof -
  let ?ids = "existing_vehicle_ids (vehicles db)"
  let ?init = "\<lparr>cs_existing = vehicles db, cs_vehicles_to_update = [],
           cs_vehicles_to_insert = [], cs_telemetry_events = []\<rparr>"
  let ?st = "fold (collect_step t ?ids) xs ?init"
  from store_cycle_Inr [OF ok] obtain new where db': "vehicles db' = cs_existing ?st @ new"
    by blast
  from v obtain i where i: "i < length (vehicles db)" "vehicles db ! i = v"
    by (auto simp: in_set_conv_nth)
  have "\<forall>y \<in> set xs. ?ids (vd_vehicle_id y) \<noteq> Some i"
  proof
    fix y assume y: "y \<in> set xs"
    show "?ids (vd_vehicle_id y) \<noteq> Some i"
    proof
      assume "?ids (vd_vehicle_id y) = Some i"
      from existing_vehicle_ids_valid [OF this] i have "v_vehicle_id v = vd_vehicle_id y" by simp
      then show False using absent y by (metis imageI)
    qed
  qed
  then have "cs_existing ?st ! i = v"
    using fold_collect_untouched [of xs ?ids i t ?init] i by simp
  moreover have "i < length (cs_existing ?st)" using i by (simp add: fold_collect_existing_length)
  ultimately have "v \<in> set (cs_existing ?st)" by (metis nth_mem)
  then show ?thesis using db' by simp
qed

lemma store_cycle_length:
  assumes ok: "store_cycle fails t db xs = Inr db'"
  shows "length (vehicles db') = length (vehicles db) +
      length (filter (\<lambda>x. vd_vehicle_id x \<notin> set (map v_vehicle_id (vehicles db))) xs)"
proof -
  have "length (map v_vehicle_id (vehicles db')) =
      length (map v_vehicle_id (vehicles db) @
             filter (\<lambda>k. k \<notin> set (map v_vehicle_id (vehicles db))) (map vd_vehicle_id xs))"
    using store_cycle_vehicle_ids [OF ok] by simp
  then show ?thesis by (simp add: filter_map comp_def)
qed

lemma collect_success_persists:
  assumes p: "parse_vehicle_data (fr_value (get_vehicles raises upstream 3)) = Inr snapshots"
    and ne: "snapshots \<noteq> []" and d: "distinct (map vd_vehicle_id snapshots)"
    and nf: "\<not> fails Query_vehicles" "\<not> fails Insert_vehicles"
      "\<not> fails Insert_telemetry_events" "\<not> fails Commit"
  shows "(\<exists>new. telemetry_events (cr_db (collect_telemetry raises upstream fails now db)) =
              telemetry_events db @ new \<and>
            list_all2 (\<lambda>x e. records x now e) snapshots new) \<and>
         (\<forall>x \<in> set snapshots.
            \<exists>v \<in> set (vehicles (cr_db (collect_telemetry raises upstream fails now db))).
              carries x now v) \<and>
         (\<forall>v \<in> set (vehicles db). v_vehicle_id v \<notin> vd_vehicle_id ` set snapshots \<longrightarrow>
            v \<in> set (vehicles (cr_db (collect_telemetry raises upstream fails now db)))) \<and>
         length (vehicles (cr_db (collect_telemetry raises upstream fails now db))) =
           length (vehicles db) +
           length (filter (\<lambda>x. vd_vehicle_id x \<notin> set (map v_vehicle_id (vehicles db))) snapshots) \<and>
         route_delays (cr_db (collect_telemetry raises upstream fails now db)) = route_delays db"
proof -
  let ?r = "collect_telemetry raises upstream fails now db"
  from store_cycle_succeeds [OF nf d, of now db] obtain db' where
    ok: "store_cycle fails now db snapshots = Inr db'" by blast
  have r: "cr_db ?r = db'" using p ne ok by (simp add: collect_telemetry_db)
  have rd: "route_delays db' = route_delays db" using store_cycle_Inr [OF ok] by blast
  have rows: "\<forall>x \<in> set snapshots. \<exists>v \<in> set (vehicles db'). carries x now v"
    using store_cycle_row [OF ok] d by blast
  have kept: "\<forall>v \<in> set (vehicles db). v_vehicle_id v \<notin> vd_vehicle_id ` set snapshots \<longrightarrow>
      v \<in> set (vehicles db')"
    using store_cycle_absent_kept [OF ok] by blast
  show ?thesis
    unfolding r using store_cycle_events [OF ok] rows kept store_cycle_length [OF ok] rd by blast
qed

text \<open>
  Claim C2. A collection cycle never raises to its caller. Its store is either the
  store it started from, or one in which every write of the cycle is present. Whenever
  a storage operation of the cycle fails (the body of the inner \<^verbatim>\<open>try\<close> returns an
  exception; in particular when the query, the insert of the events or the commit
  fails), the store is the pre-cycle store and the failure is logged. When none of the
  query, the two inserts and the commit fails and the parsed snapshots have pairwise
  distinct vehicle identifiers, every write of the cycle is in the store: the telemetry
  table is the old one followed by one event per snapshot, in order, each recording its
  snapshot at the collection time; every snapshot has a current-state row carrying its
  values and the collection time; the rows of vehicles the response does not mention
  are still there; the table has grown by exactly the snapshots of vehicles that had no
  row; and the delay table is untouched.
\<close>

theorem collect_telemetry_atomic:
  "cr_raised (collect_telemetry raises upstream fails now db) = None \<and>
   (cr_db (collect_telemetry raises upstream fails now db) = db \<or>
    (\<exists>xs. parse_vehicle_data (fr_value (get_vehicles raises upstream 3)) = Inr xs \<and>
        length (telemetry_events (cr_db (collect_telemetry raises upstream fails now db))) =
          length (telemetry_events db) + length xs \<and>
        (\<forall>x \<in> set xs. \<exists>v \<in> set (vehicles (cr_db (collect_telemetry raises upstream fails now db))).
           v_vehicle_id v = vd_vehicle_id x \<and> v_last_updated v = now))) \<and>
   (parse_vehicle_data (fr_value (get_vehicles raises upstream 3)) = Inr snapshots \<and>
    snapshots \<noteq> [] \<and>
    (store_cycle fails now db snapshots = Inl e \<or>
     fails Query_vehicles \<or> fails Insert_telemetry_events \<or> fails Commit) \<longrightarrow>
    cr_db (collect_telemetry raises upstream fails now db) = db \<and>
    Log_error ''Error storing telemetry data''
      \<in> set (cr_log (collect_telemetry raises upstream fails now db))) \<and>
   (parse_vehicle_data (fr_value (get_vehicles raises upstream 3)) = Inr snapshots \<and>
    snapshots \<noteq> [] \<and> distinct (map vd_vehicle_id snapshots) \<and>
    \<not> fails Query_vehicles \<and> \<not> fails Insert_vehicles \<and>
    \<not> fails Insert_telemetry_events \<and> \<not> fails Commit \<longrightarrow>
    (\<exists>new. telemetry_events (cr_db (collect_telemetry raises upstream fails now db)) =
              telemetry_events db @ new \<and>
            list_all2 (\<lambda>x e. records x now e) snapshots new) \<and>
    (\<forall>x \<in> set snapshots.
       \<exists>v \<in> set (vehicles (cr_db (collect_telemetry raises upstream fails now db))).
         carries x now v) \<and>
    (\<forall>v \<in> set (vehicles db). v_vehicle_id v \<notin> vd_vehicle_id ` set snapshots \<longrightarrow>
       v \<in> set (vehicles (cr_db (collect_telemetry raises upstream fails now db)))) \<and>
    length (vehicles (cr_db (collect_telemetry raises upstream fails now db))) =
      length (vehicles db) +
      length (filter (\<lambda>x. vd_vehicle_id x \<notin> set (map v_vehicle_id (vehicles db))) snapshots) \<and>
    route_delays (cr_db (collect_telemetry raises upstream fails now db)) = route_delays db)"
  using collect_telemetry_failure_parts [of raises upstream fails now db snapshots e]
    collect_success_persists [of raises upstream snapshots fails now db]
  by blast

text \<open>
  A cycle whose commit fails leaves the empty store empty and logs the failure. A cycle
  in which nothing fails, over a table with a stale row for the first vehicle of the
  response and a row for a vehicle the response does not mention, appends two events,
  leaves a row carrying each snapshot, keeps the other vehicle's row and adds one row.
\<close>

theorem collect_telemetry_atomic_witness:
  "cr_raised (collect_telemetry raises_on_error_status (always_ok (sample_response [''y1801'']))
      commit_fails 10 init_db) = None \<and>
   cr_db (collect_telemetry raises_on_error_status (always_ok (sample_response [''y1801'']))
      commit_fails 10 init_db) = init_db \<and>
   Log_error ''Error storing telemetry data''
     \<in> set (cr_log (collect_telemetry raises_on_error_status
           (always_ok (sample_response [''y1801''])) commit_fails 10 init_db)) \<and>
   length (telemetry_events (cr_db (collect_telemetry raises_on_error_status
      (always_ok (sample_response [''y1801'', ''y1802''])) no_failure 10
      (vehicles_db [stale_vehicle, parked_vehicle])))) = 2 \<and>
   (\<exists>v \<in> set (vehicles (cr_db (collect_telemetry raises_on_error_status
      (always_ok (sample_response [''y1801'', ''y1802''])) no_failure 10
      (vehicles_db [stale_vehicle, parked_vehicle])))). carries (sample_snapshot ''y1801'') 10 v) \<and>
   (\<exists>v \<in> set (vehicles (cr_db (collect_telemetry raises_on_error_status
      (always_ok (sample_response [''y1801'', ''y1802''])) no_failure 10
      (vehicles_db [stale_vehicle, parked_vehicle])))). carries (sample_snapshot ''y1802'') 10 v) \<and>
   parked_vehicle \<in> set (vehicles (cr_db (collect_telemetry raises_on_error_status
      (always_ok (sample_response [''y1801'', ''y1802''])) no_failure 10
      (vehicles_db [stale_vehicle, parked_vehicle])))) \<and>
   length (vehicles (cr_db (collect_telemetry raises_on_error_status
      (always_ok (sample_response [''y1801'', ''y1802''])) no_failure 10
      (vehicles_db [stale_vehicle, parked_vehicle])))) = 3"
proof -
  let ?up1 = "always_ok (sample_response [''y1801''])"
  let ?up2 = "always_ok (sample_response [''y1801'', ''y1802''])"
  let ?db = "vehicles_db [stale_vehicle, parked_vehicle]"
  let ?xs = "[sample_snapshot ''y1801'', sample_snapshot ''y1802'']"
  have h1: "parse_vehicle_data (fr_value (get_vehicles raises_on_error_status ?up1 3))
      = Inr [sample_snapshot ''y1801''] \<and>
    [sample_snapshot ''y1801''] \<noteq> [] \<and>
    (store_cycle commit_fails 10 init_db [sample_snapshot ''y1801''] = Inl (StorageError Commit) \<or>
     commit_fails Query_vehicles \<or> commit_fails Insert_telemetry_events \<or> commit_fails Commit)"
    by (simp add: sample_fetch sample_parse commit_fails_def)
  from collect_telemetry_atomic [of raises_on_error_status ?up1 commit_fails 10 init_db
      "[sample_snapshot ''y1801'']" "StorageError Commit"] h1
  have failing: "cr_raised (collect_telemetry raises_on_error_status ?up1 commit_fails 10 init_db) = None \<and>
     cr_db (collect_telemetry raises_on_error_status ?up1 commit_fails 10 init_db) = init_db \<and>
     Log_error ''Error storing telemetry data''
       \<in> set (cr_log (collect_telemetry raises_on_error_status ?up1 commit_fails 10 init_db))"
    by blast
  have h2: "parse_vehicle_data (fr_value (get_vehicles raises_on_error_status ?up2 3)) = Inr ?xs \<and>
    ?xs \<noteq> [] \<and> distinct (map vd_vehicle_id ?xs) \<and>
    \<not> no_failure Query_vehicles \<and> \<not> no_failure Insert_vehicles \<and>
    \<not> no_failure Insert_telemetry_events \<and> \<not> no_failure Commit"
    by (simp add: sample_fetch sample_parse no_failure_def sample_snapshot_def)
  let ?r = "collect_telemetry raises_on_error_status ?up2 no_failure 10 ?db"
  from collect_telemetry_atomic [of raises_on_error_status ?up2 no_failure 10 ?db ?xs IntegrityError] h2
  have ok: "(\<exists>new. telemetry_events (cr_db ?r) = telemetry_events ?db @ new \<and>
            list_all2 (\<lambda>x e. records x 10 e) ?xs new) \<and>
    (\<forall>x \<in> set ?xs. \<exists>v \<in> set (vehicles (cr_db ?r)). carries x 10 v) \<and>
    (\<forall>v \<in> set (vehicles ?db). v_vehicle_id v \<notin> vd_vehicle_id ` set ?xs \<longrightarrow>
       v \<in> set (vehicles (cr_db ?r))) \<and>
    length (vehicles (cr_db ?r)) =
      length (vehicles ?db) +
      length (filter (\<lambda>x. vd_vehicle_id x \<notin> set (map v_vehicle_id (vehicles ?db))) ?xs)"
    by blast
  from ok obtain new where new: "telemetry_events (cr_db ?r) = telemetry_events ?db @ new"
    "list_all2 (\<lambda>x e. records x 10 e) ?xs new" by blast
  have "length new = 2" using list_all2_lengthD [OF new(2)] by simp
  then have events: "length (telemetry_events (cr_db ?r)) = 2"
    using new(1) by (simp add: vehicles_db_def)
  have c1: "\<exists>v \<in> set (vehicles (cr_db ?r)). carries (sample_snapshot ''y1801'') 10 v"
    and c2: "\<exists>v \<in> set (vehicles (cr_db ?r)). carries (sample_snapshot ''y1802'') 10 v"
    using ok by simp_all
  have "parked_vehicle \<in> set (vehicles ?db) \<and>
      v_vehicle_id parked_vehicle \<notin> vd_vehicle_id ` set ?xs"
    by (simp add: vehicles_db_def parked_vehicle_def sample_snapshot_def)
  then have kept: "parked_vehicle \<in> set (vehicles (cr_db ?r))" using ok by blast
  have "length (vehicles (cr_db ?r)) =
      length (vehicles ?db) +
      length (filter (\<lambda>x. vd_vehicle_id x \<notin> set (map v_vehicle_id (vehicles ?db))) ?xs)"
    using ok by blast
  then have len: "length (vehicles (cr_db ?r)) = 3"
    by (simp add: vehicles_db_def stale_vehicle_def parked_vehicle_def sample_snapshot_def)
  show ?thesis using failing events c1 c2 kept len by blast
qed

text \<open>
  Claim C3, as the code has it. When the upstream fetch fails, or the response parses to
  no snapshot, or parsing raises, the cycle leaves the store as it was, whichever storage
  operations would fail: it appends no telemetry event. When a storage operation of the
  cycle fails, the store is unchanged as well. When the cycle's writes succeed (as they
  do whenever no storage operation fails and the parsed snapshots have pairwise distinct
  vehicle identifiers), the number of telemetry events appended is the number of parsed
  snapshots.
\<close>

theorem telemetry_events_appended:
  "((fr_value (get_vehicles raises upstream 3) = None \<or>
     parse_vehicle_data (fr_value (get_vehicles raises upstream 3)) = Inr [] \<or>
     parse_vehicle_data (fr_value (get_vehicles raises upstream 3)) = Inl e) \<longrightarrow>
    cr_db (collect_telemetry raises upstream fails now db) = db) \<and>
   (parse_vehicle_data (fr_value (get_vehicles raises upstream 3)) = Inr snapshots \<and>
    store_cycle fails now db snapshots = Inl e' \<longrightarrow>
    cr_db (collect_telemetry raises upstream fails now db) = db) \<and>
   (parse_vehicle_data (fr_value (get_vehicles raises upstream 3)) = Inr snapshots \<and>
    (store_cycle fails now db snapshots = Inr db' \<or>
     distinct (map vd_vehicle_id snapshots) \<and> \<not> fails Query_vehicles \<and>
     \<not> fails Insert_vehicles \<and> \<not> fails Insert_telemetry_events \<and> \<not> fails Commit) \<longrightarrow>
    length (telemetry_events (cr_db (collect_telemetry raises upstream fails now db))) =
      length (telemetry_events db) + length snapshots)"
proof (intro conjI impI)
  let ?r = "collect_telemetry raises upstream fails now db"
  let ?fetched = "fr_value (get_vehicles raises upstream 3)"
  assume "?fetched = None \<or> parse_vehicle_data ?fetched = Inr [] \<or> parse_vehicle_data ?fetched = Inl e"
  then show "cr_db ?r = db"
    by (auto simp: collect_telemetry_db parse_vehicle_data_def)
next
  let ?r = "collect_telemetry raises upstream fails now db"
  assume "parse_vehicle_data (fr_value (get_vehicles raises upstream 3)) = Inr snapshots \<and>
    store_cycle fails now db snapshots = Inl e'"
  then show "cr_db ?r = db" by (simp add: collect_telemetry_db)
next
  let ?r = "collect_telemetry raises upstream fails now db"
  assume h: "parse_vehicle_data (fr_value (get_vehicles raises upstream 3)) = Inr snapshots \<and>
    (store_cycle fails now db snapshots = Inr db' \<or>
     distinct (map vd_vehicle_id snapshots) \<and> \<not> fails Query_vehicles \<and>
     \<not> fails Insert_vehicles \<and> \<not> fails Insert_telemetry_events \<and> \<not> fails Commit)"
  then obtain db2 where ok: "store_cycle fails now db snapshots = Inr db2"
    using store_cycle_succeeds [of fails snapshots now db] by blast
  have len: "length (telemetry_events db2) = length (telemetry_events db) + length snapshots"
    using store_cycle_Inr [OF ok] by blast
  show "length (telemetry_events (cr_db ?r)) = length (telemetry_events db) + length snapshots"
    using h ok len by (simp add: collect_telemetry_db)
qed

theorem telemetry_events_appended_witness:
  "length (telemetry_events (cr_db (collect_telemetry raises_on_error_status
      (always_ok (sample_response [''y1801'', ''y1802''])) no_failure 10 init_db))) = 2"
proof -
  have h: "parse_vehicle_data (fr_value (get_vehicles raises_on_error_status
        (always_ok (sample_response [''y1801'', ''y1802''])) 3))
      = Inr [sample_snapshot ''y1801'', sample_snapshot ''y1802''] \<and>
    (store_cycle no_failure 10 init_db [sample_snapshot ''y1801'', sample_snapshot ''y1802''] = Inr init_db \<or>
     distinct (map vd_vehicle_id [sample_snapshot ''y1801'', sample_snapshot ''y1802'']) \<and>
     \<not> no_failure Query_vehicles \<and> \<not> no_failure Insert_vehicles \<and>
     \<not> no_failure Insert_telemetry_events \<and> \<not> no_failure Commit)"
    by (simp add: sample_fetch sample_parse no_failure_def sample_snapshot_def)
  from telemetry_events_appended [of raises_on_error_status
      "always_ok (sample_response [''y1801'', ''y1802''])" AttributeError no_failure 10 init_db
      "[sample_snapshot ''y1801'', sample_snapshot ''y1802'']" IntegrityError init_db] h
  have "length (telemetry_events (cr_db (collect_telemetry raises_on_error_status
      (always_ok (sample_response [''y1801'', ''y1802''])) no_failure 10 init_db))) =
      length (telemetry_events init_db) + length [sample_snapshot ''y1801'', sample_snapshot ''y1802'']"
    by blast
  then show ?thesis by (simp add: init_db_def)
qed

lemma store_cycle_duplicate:
  "store_cycle no_failure 10 init_db [sample_snapshot ''y1801'', sample_snapshot ''y1801'']
     = Inl IntegrityError"
  by (simp add: store_cycle_def no_failure_def init_db_def existing_vehicle_ids_def
        collect_step_def new_vehicle_def sample_snapshot_def Let_def)

lemma store_cycle_commit_fails:
  "store_cycle commit_fails 10 init_db [sample_snapshot ''y1801''] = Inl (StorageError Commit)"
  by (simp add: store_cycle_def commit_fails_def init_db_def existing_vehicle_ids_def
        collect_step_def new_vehicle_def sample_snapshot_def Let_def)

text \<open>
  Claim C3 as stated (for every cycle, appended events = parsed snapshots) fails when the
  cycle's storage writes fail: a response with the same new vehicle twice parses to two
  snapshots and appends none (the second INSERT violates the unique column, the cycle is
  rolled back), and a cycle whose commit fails parses one snapshot and appends none.
\<close>

theorem telemetry_events_appended_counterexample:
  "parse_vehicle_data (fr_value (get_vehicles raises_on_error_status
      (always_ok (sample_response [''y1801'', ''y1801''])) 3))
     = Inr [sample_snapshot ''y1801'', sample_snapshot ''y1801''] \<and>
   length (telemetry_events (cr_db (collect_telemetry raises_on_error_status
      (always_ok (sample_response [''y1801'', ''y1801''])) no_failure 10 init_db)))
     - length (telemetry_events init_db) = 0 \<and>
   parse_vehicle_data (fr_value (get_vehicles raises_on_error_status
      (always_ok (sample_response [''y1801''])) 3))
     = Inr [sample_snapshot ''y1801''] \<and>
   length (telemetry_events (cr_db (collect_telemetry raises_on_error_status
      (always_ok (sample_response [''y1801''])) commit_fails 10 init_db)))
     - length (telemetry_events init_db) = 0"
  by (simp add: sample_fetch sample_parse collect_telemetry_db store_cycle_duplicate
        store_cycle_commit_fails)

section \<open>Headway analysis\<close>

lemma red_le: "(Some ''Red'', a::int) \<le> (Some ''Red'', b) \<longleftrightarrow> a \<le> b"
  by (simp add: less_eq_prod_def)

text \<open>
  The example of claim C7: one vehicle with events at minutes 0, 3, 3.5 and 20 gives the
  headways 3, 0.5 and 16.5.
\<close>

lemma headway_one_vehicle:
  "get_headway_analysis 88200000000 (events_db one_vehicle_events) None =
     Inr \<lparr>ha_route_id = Some ''Red'',
          ha_analysis =
            [(Some ''Red'',
              \<lparr>hw_count = 3, hw_avg_minutes = 20 / 3, hw_min_minutes = 1 / 2,
               hw_max_minutes = 33 / 2, hw_headways = [3, 1 / 2, 33 / 2]\<rparr>)]\<rparr>"
  by (simp add: get_headway_analysis_def headway_events_def events_db_def
        one_vehicle_events_def sample_event_def timedelta_hours_def red_le headway_step_def
        total_seconds_def Let_def)

text \<open>
  Claim C7 at two vehicles of one route seen in turn: vehicle A at minute 0, vehicle B at
  minute 1, vehicle A again at minute 2. The stream is ordered by route and time, the
  loop keeps one current vehicle, and every event differs from it: each event only
  seeds the timestamp. No headway is emitted, where the claim has the second event of A
  emit the 2 minutes since A's first event.
\<close>

theorem headway_interleaved_vehicles:
  "headway_events 88200000000 (events_db interleaved_events) None = interleaved_events \<and>
   get_headway_analysis 88200000000 (events_db interleaved_events) None =
     Inr \<lparr>ha_route_id = Some ''Red'', ha_analysis = []\<rparr>"
  by (simp add: get_headway_analysis_def headway_events_def events_db_def
        interleaved_events_def sample_event_def timedelta_hours_def red_le headway_step_def
        total_seconds_def Let_def)

section \<open>Bunching detection\<close>

lemma bunching_step_append:
  "bunching_step now route_id vs i alerts = alerts @ bunching_step now route_id vs i []"
  by (simp add: bunching_step_def Let_def)

lemma fold_bunching_step:
  "fold (bunching_step now route_id vs) js alerts =
     alerts @ concat (map (\<lambda>i. bunching_step now route_id vs i []) js)"
proof (induction js arbitrary: alerts)
  case Nil
  then show ?case by simp
next
  case (Cons j js)
  show ?case
    using Cons.IH [of "bunching_step now route_id vs j alerts"]
      bunching_step_append [of now route_id vs j alerts]
    by simp
qed

lemma concat_map_if: "concat (map (\<lambda>i. if P i then [f i] else []) js) = map f (filter P js)"
  by (induction js) simp_all

lemma set_bunching_query:
  "set (bunching_query now db route_id) =
     {v \<in> set (vehicles db). v_route_id v = Some route_id \<and>
        now - timedelta_minutes 5 \<le> v_last_updated v \<and>
        v_latitude v \<noteq> None \<and> v_longitude v \<noteq> None}"
  by (auto simp: bunching_query_def)

lemma detect_bunching_alert:
  assumes "a \<in> set (detect_bunching now db route_id)"
  shows "\<exists>i. i + 1 < length (bunching_query now db route_id) \<and>
             ba_vehicle_1 a = v_vehicle_id (bunching_query now db route_id ! i) \<and>
             ba_vehicle_2 a = v_vehicle_id (bunching_query now db route_id ! (i + 1))"
proof -
  let ?vs = "bunching_query now db route_id"
  from assms obtain i where i: "i \<in> set [0..<length ?vs - 1]"
    and a: "a \<in> set (bunching_step now route_id ?vs i [])"
    by (auto simp: detect_bunching_def Let_def fold_bunching_step)
  from a have "ba_vehicle_1 a = v_vehicle_id (?vs ! i) \<and> ba_vehicle_2 a = v_vehicle_id (?vs ! (i + 1))"
    by (auto simp: bunching_step_def Let_def split: if_splits)
  moreover from i have "i + 1 < length ?vs" by auto
  ultimately show ?thesis by blast
qed

lemma truthy_nonzero: "x \<noteq> None \<Longrightarrow> truthy x \<longleftrightarrow> x \<noteq> Some 0"
  by (cases x) (simp_all add: truthy_def)

text \<open>
  Claim C8, as the code has it. The detector takes the vehicles of the route that were
  updated in the trailing five minutes and have a latitude and a longitude, ordered by
  update time (vehicles with the same update time in table order). For each adjacent
  pair of that list, in order, it emits exactly one alert when the gap between the two
  update times is strictly between 0 and 180 seconds and none of the four coordinates is
  zero, and no alert otherwise; the alert is of type \<open>bunching\<close> and severity
  \<open>warning\<close> and names both vehicle identifiers and the gap in seconds.
\<close>

theorem detect_bunching_adjacent_pairs:
  "set (bunching_query now db route_id) =
     {v \<in> set (vehicles db). v_route_id v = Some route_id \<and>
        now - 5 * 60000000 \<le> v_last_updated v \<and>
        v_latitude v \<noteq> None \<and> v_longitude v \<noteq> None} \<and>
   sorted (map v_last_updated (bunching_query now db route_id)) \<and>
   filter (\<lambda>v. v_last_updated v = t) (bunching_query now db route_id) =
     filter (\<lambda>v. v_last_updated v = t)
       (filter (\<lambda>v. v_route_id v = Some route_id \<and>
                     now - 5 * 60000000 \<le> v_last_updated v \<and>
                     v_latitude v \<noteq> None \<and> v_longitude v \<noteq> None)
          (vehicles db)) \<and>
   detect_bunching now db route_id =
     (let vs = bunching_query now db route_id;
          gap = (\<lambda>i. real_of_int (v_last_updated (vs ! (i + 1)) - v_last_updated (vs ! i)) / 1000000);
          nonzero = (\<lambda>v. v_latitude v \<noteq> Some 0 \<and> v_longitude v \<noteq> Some 0)
      in map (\<lambda>i. \<lparr>ba_type = ''bunching'', ba_route_id = route_id,
                    ba_vehicle_1 = v_vehicle_id (vs ! i),
                    ba_vehicle_2 = v_vehicle_id (vs ! (i + 1)),
                    ba_time_between_seconds = gap i,
                    ba_severity = ''warning'', ba_timestamp = now\<rparr>)
           (filter (\<lambda>i. nonzero (vs ! i) \<and> nonzero (vs ! (i + 1)) \<and> 0 < gap i \<and> gap i < 180)
              [0..<length vs - 1]))"
proof (intro conjI)
  let ?vs = "bunching_query now db route_id"
  let ?gap = "\<lambda>i. real_of_int (v_last_updated (?vs ! (i + 1)) - v_last_updated (?vs ! i)) / 1000000"
  let ?nz = "\<lambda>v. v_latitude v \<noteq> Some 0 \<and> v_longitude v \<noteq> Some 0"
  let ?alert = "\<lambda>i. \<lparr>ba_type = ''bunching'', ba_route_id = route_id,
                          ba_vehicle_1 = v_vehicle_id (?vs ! i),
                          ba_vehicle_2 = v_vehicle_id (?vs ! (i + 1)),
                          ba_time_between_seconds = ?gap i,
                          ba_severity = ''warning'', ba_timestamp = now\<rparr>"
  let ?ok = "\<lambda>i. ?nz (?vs ! i) \<and> ?nz (?vs ! (i + 1)) \<and> 0 < ?gap i \<and> ?gap i < 180"
  show "set ?vs = {v \<in> set (vehicles db). v_route_id v = Some route_id \<and>
              now - 5 * 60000000 \<le> v_last_updated v \<and>
              v_latitude v \<noteq> None \<and> v_longitude v \<noteq> None}"
    using set_bunching_query [of now db route_id] by (simp add: timedelta_minutes_def)
  show "sorted (map v_last_updated ?vs)" by (simp add: bunching_query_def)
  show "filter (\<lambda>v. v_last_updated v = t) ?vs =
     filter (\<lambda>v. v_last_updated v = t)
       (filter (\<lambda>v. v_route_id v = Some route_id \<and>
                     now - 5 * 60000000 \<le> v_last_updated v \<and>
                     v_latitude v \<noteq> None \<and> v_longitude v \<noteq> None)
          (vehicles db))"
    unfolding bunching_query_def timedelta_minutes_def by (rule sort_key_stable)
  have pos: "v_latitude v \<noteq> None \<and> v_longitude v \<noteq> None" if "v \<in> set ?vs" for v
    using that unfolding set_bunching_query by simp
  have step: "bunching_step now route_id ?vs i [] = (if ?ok i then [?alert i] else [])"
    if "i \<in> set [0..<length ?vs - 1]" for i
  proof -
    from that have "?vs ! i \<in> set ?vs" "?vs ! (i + 1) \<in> set ?vs" by auto
    then have "truthy (v_latitude (?vs ! i)) \<longleftrightarrow> v_latitude (?vs ! i) \<noteq> Some 0"
      "truthy (v_longitude (?vs ! i)) \<longleftrightarrow> v_longitude (?vs ! i) \<noteq> Some 0"
      "truthy (v_latitude (?vs ! (i + 1))) \<longleftrightarrow> v_latitude (?vs ! (i + 1)) \<noteq> Some 0"
      "truthy (v_longitude (?vs ! (i + 1))) \<longleftrightarrow> v_longitude (?vs ! (i + 1)) \<noteq> Some 0"
      using pos truthy_nonzero by blast+
    then show ?thesis
      by (auto simp: bunching_step_def Let_def BUNCHING_THRESHOLD_SECONDS_def total_seconds_def)
  qed
  have "detect_bunching now db route_id =
      concat (map (\<lambda>i. bunching_step now route_id ?vs i []) [0..<length ?vs - 1])"
    by (simp add: detect_bunching_def Let_def fold_bunching_step)
  also have "\<dots> = concat (map (\<lambda>i. if ?ok i then [?alert i] else []) [0..<length ?vs - 1])"
    using step by (intro arg_cong [where f = concat] map_cong) auto
  also have "\<dots> = map ?alert (filter ?ok [0..<length ?vs - 1])"
    by (rule concat_map_if)
  finally show "detect_bunching now db route_id =
     (let vs = bunching_query now db route_id;
          gap = (\<lambda>i. real_of_int (v_last_updated (vs ! (i + 1)) - v_last_updated (vs ! i)) / 1000000);
          nonzero = (\<lambda>v. v_latitude v \<noteq> Some 0 \<and> v_longitude v \<noteq> Some 0)
      in map (\<lambda>i. \<lparr>ba_type = ''bunching'', ba_route_id = route_id,
                    ba_vehicle_1 = v_vehicle_id (vs ! i),
                    ba_vehicle_2 = v_vehicle_id (vs ! (i + 1)),
                    ba_time_between_seconds = gap i,
                    ba_severity = ''warning'', ba_timestamp = now\<rparr>)
           (filter (\<lambda>i. nonzero (vs ! i) \<and> nonzero (vs ! (i + 1)) \<and> 0 < gap i \<and> gap i < 180)
              [0..<length vs - 1]))"
    by (simp add: Let_def)
qed

text \<open>
  Claim C10. Every bunching alert names two rows of the table that both have a latitude
  and a longitude. With at most one row per vehicle identifier, no alert names, as
  either vehicle, a vehicle whose row lacks a latitude or a longitude, however close in
  time its update is to another vehicle's.
\<close>

theorem detect_bunching_needs_position:
  "(\<forall>a \<in> set (detect_bunching now db route_id).
      \<exists>v1 \<in> set (vehicles db). \<exists>v2 \<in> set (vehicles db).
        ba_vehicle_1 a = v_vehicle_id v1 \<and> ba_vehicle_2 a = v_vehicle_id v2 \<and>
        v_latitude v1 \<noteq> None \<and> v_longitude v1 \<noteq> None \<and>
        v_latitude v2 \<noteq> None \<and> v_longitude v2 \<noteq> None) \<and>
   (distinct (map v_vehicle_id (vehicles db)) \<and> v \<in> set (vehicles db) \<and>
    (v_latitude v = None \<or> v_longitude v = None) \<longrightarrow>
    (\<forall>a \<in> set (detect_bunching now db route_id).
       ba_vehicle_1 a \<noteq> v_vehicle_id v \<and> ba_vehicle_2 a \<noteq> v_vehicle_id v))"
proof -
  let ?vs = "bunching_query now db route_id"
  have named: "\<exists>v1 \<in> set (vehicles db). \<exists>v2 \<in> set (vehicles db).
        ba_vehicle_1 a = v_vehicle_id v1 \<and> ba_vehicle_2 a = v_vehicle_id v2 \<and>
        v_latitude v1 \<noteq> None \<and> v_longitude v1 \<noteq> None \<and>
        v_latitude v2 \<noteq> None \<and> v_longitude v2 \<noteq> None"
    if "a \<in> set (detect_bunching now db route_id)" for a
  proof -
    from detect_bunching_alert [OF that] obtain i where i: "i + 1 < length ?vs"
      and n: "ba_vehicle_1 a = v_vehicle_id (?vs ! i)" "ba_vehicle_2 a = v_vehicle_id (?vs ! (i + 1))"
      by blast
    from i have "?vs ! i \<in> set ?vs" "?vs ! (i + 1) \<in> set ?vs" by simp_all
    then show ?thesis using n unfolding set_bunching_query by blast
  qed
  have unnamed: "ba_vehicle_1 a \<noteq> v_vehicle_id v \<and> ba_vehicle_2 a \<noteq> v_vehicle_id v"
    if d: "distinct (map v_vehicle_id (vehicles db))" and v: "v \<in> set (vehicles db)"
      and none: "v_latitude v = None \<or> v_longitude v = None"
      and a: "a \<in> set (detect_bunching now db route_id)" for a
  proof -
    from named [OF a] obtain v1 v2 where
      m: "v1 \<in> set (vehicles db)" "v2 \<in> set (vehicles db)"
      and n: "ba_vehicle_1 a = v_vehicle_id v1" "ba_vehicle_2 a = v_vehicle_id v2"
      and p: "v_latitude v1 \<noteq> None" "v_longitude v1 \<noteq> None"
             "v_latitude v2 \<noteq> None" "v_longitude v2 \<noteq> None"
      by blast
    have inj: "inj_on v_vehicle_id (set (vehicles db))" using d by (simp add: distinct_map)
    have positioned: "v_latitude w \<noteq> None \<and> v_longitude w \<noteq> None"
      if "w = v1 \<or> w = v2" for w using that p by (metis (full_types))
    have "v_vehicle_id v1 \<noteq> v_vehicle_id v"
    proof
      assume "v_vehicle_id v1 = v_vehicle_id v"
      then have "v = v1" using inj_onD [OF inj _ m(1) v] by simp
      then show False using positioned [of v] none by metis
    qed
    moreover have "v_vehicle_id v2 \<noteq> v_vehicle_id v"
    proof
      assume "v_vehicle_id v2 = v_vehicle_id v"
      then have "v = v2" using inj_onD [OF inj _ m(2) v] by simp
      then show False using positioned [of v] none by metis
    qed
    ultimately have "v_vehicle_id v1 \<noteq> v_vehicle_id v \<and> v_vehicle_id v2 \<noteq> v_vehicle_id v"
      by simp
    then show ?thesis using n by simp
  qed
  show ?thesis using named unnamed by blast
qed

lemma sample_queries:
  "bunching_query 90000000000 pair_60 ''Red'' =
     [sample_vehicle ''A'' (Some 42) 89800000000, sample_vehicle ''B'' (Some 42) 89860000000]"
  "bunching_query 90000000000 pair_60_unpositioned ''Red'' =
     [sample_vehicle ''A'' (Some 42) 89800000000]"
  "bunching_query 90000000000 three_vehicles ''Red'' =
     [sample_vehicle ''A'' (Some 42) 89800000000, sample_vehicle ''C'' (Some 42) 89860000000]"
  by (simp_all add: bunching_query_def pair_60_def pair_60_unpositioned_def
        three_vehicles_def vehicles_db_def sample_vehicle_def timedelta_minutes_def)

lemma sample_queries2:
  "bunching_query 90000000000 pair_400_ahead ''Red'' =
     [sample_vehicle ''A'' (Some 42) 89800000000, sample_vehicle ''B'' (Some 42) 90200000000]"
  "bunching_query 90000000000 pair_60_zero_third ''Red'' =
     [sample_vehicle ''A'' (Some 42) 89800000000, sample_vehicle ''B'' (Some 42) 89860000000,
      sample_vehicle ''C'' (Some 0) 89890000000]"
  by (simp_all add: bunching_query_def pair_400_ahead_def pair_60_zero_third_def
        vehicles_db_def sample_vehicle_def timedelta_minutes_def)

text \<open>
  Two vehicles with positions updated 60 seconds apart, both in the window: exactly one
  alert. A pair 400 seconds apart, both selected by the query (the later update is ahead
  of the clock): none, by the threshold. The first pair followed by a third vehicle at
  latitude 0: exactly the alert of the first pair.
\<close>

theorem detect_bunching_adjacent_pairs_witness:
  "detect_bunching 90000000000 pair_60 ''Red'' =
     [\<lparr>ba_type = ''bunching'', ba_route_id = ''Red'', ba_vehicle_1 = ''A'', ba_vehicle_2 = ''B'',
       ba_time_between_seconds = 60, ba_severity = ''warning'', ba_timestamp = 90000000000\<rparr>] \<and>
   bunching_query 90000000000 pair_400_ahead ''Red'' =
     [sample_vehicle ''A'' (Some 42) 89800000000, sample_vehicle ''B'' (Some 42) 90200000000] \<and>
   detect_bunching 90000000000 pair_400_ahead ''Red'' = [] \<and>
   detect_bunching 90000000000 pair_60_zero_third ''Red'' =
     [\<lparr>ba_type = ''bunching'', ba_route_id = ''Red'', ba_vehicle_1 = ''A'', ba_vehicle_2 = ''B'',
       ba_time_between_seconds = 60, ba_severity = ''warning'', ba_timestamp = 90000000000\<rparr>]"
proof -
  have idx: "[0..<Suc (Suc 0)] = [0, Suc 0]" by (simp add: upt_rec)
  have a: "detect_bunching 90000000000 pair_60 ''Red'' =
     [\<lparr>ba_type = ''bunching'', ba_route_id = ''Red'', ba_vehicle_1 = ''A'', ba_vehicle_2 = ''B'',
       ba_time_between_seconds = 60, ba_severity = ''warning'', ba_timestamp = 90000000000\<rparr>]"
    using detect_bunching_adjacent_pairs [of 90000000000 pair_60 "''Red''" 0]
    by (simp add: sample_queries sample_vehicle_def Let_def)
  have b: "detect_bunching 90000000000 pair_400_ahead ''Red'' = []"
    using detect_bunching_adjacent_pairs [of 90000000000 pair_400_ahead "''Red''" 0]
    by (simp add: sample_queries2 sample_vehicle_def Let_def)
  have c: "detect_bunching 90000000000 pair_60_zero_third ''Red'' =
     [\<lparr>ba_type = ''bunching'', ba_route_id = ''Red'', ba_vehicle_1 = ''A'', ba_vehicle_2 = ''B'',
       ba_time_between_seconds = 60, ba_severity = ''warning'', ba_timestamp = 90000000000\<rparr>]"
    using detect_bunching_adjacent_pairs [of 90000000000 pair_60_zero_third "''Red''" 0]
    by (simp add: sample_queries2 sample_vehicle_def Let_def idx)
  show ?thesis using a b c sample_queries2(1) by simp
qed

text \<open>
  Claim C8 as stated fails when a vehicle has no recorded position: two vehicles of the
  route, both updated in the trailing five minutes and 60 seconds apart, of which the
  second has no latitude, give no alert.
\<close>

theorem detect_bunching_counterexample:
  "vehicles pair_60_unpositioned =
     [sample_vehicle ''A'' (Some 42) 89800000000, sample_vehicle ''B'' None 89860000000] \<and>
   v_route_id (sample_vehicle ''A'' (Some 42) 89800000000) = Some ''Red'' \<and>
   v_route_id (sample_vehicle ''B'' None 89860000000) = Some ''Red'' \<and>
   90000000000 - timedelta_minutes 5 \<le> v_last_updated (sample_vehicle ''A'' (Some 42) 89800000000) \<and>
   90000000000 - timedelta_minutes 5 \<le> v_last_updated (sample_vehicle ''B'' None 89860000000) \<and>
   total_seconds (v_last_updated (sample_vehicle ''B'' None 89860000000)
                  - v_last_updated (sample_vehicle ''A'' (Some 42) 89800000000)) = 60 \<and>
   detect_bunching 90000000000 pair_60_unpositioned ''Red'' = []"
proof -
  have "detect_bunching 90000000000 pair_60_unpositioned ''Red'' = []"
    by (simp add: detect_bunching_def sample_queries)
  moreover have "vehicles pair_60_unpositioned =
     [sample_vehicle ''A'' (Some 42) 89800000000, sample_vehicle ''B'' None 89860000000]"
    by (simp add: pair_60_unpositioned_def vehicles_db_def)
  ultimately show ?thesis
    by (simp add: sample_vehicle_def timedelta_minutes_def total_seconds_def)
qed

theorem detect_bunching_needs_position_witness:
  "distinct (map v_vehicle_id (vehicles three_vehicles)) \<and>
   sample_vehicle ''B'' None 89830000000 \<in> set (vehicles three_vehicles) \<and>
   v_latitude (sample_vehicle ''B'' None 89830000000) = None \<and>
   length (detect_bunching 90000000000 three_vehicles ''Red'') = 1 \<and>
   list_all (\<lambda>a. ba_vehicle_1 a \<noteq> ''B'' \<and> ba_vehicle_2 a \<noteq> ''B'')
     (detect_bunching 90000000000 three_vehicles ''Red'')"
proof -
  let ?b = "sample_vehicle ''B'' None 89830000000"
  have h: "distinct (map v_vehicle_id (vehicles three_vehicles)) \<and>
      ?b \<in> set (vehicles three_vehicles) \<and> (v_latitude ?b = None \<or> v_longitude ?b = None)"
    by (simp add: three_vehicles_def vehicles_db_def sample_vehicle_def)
  have id: "v_vehicle_id ?b = ''B''" by (simp add: sample_vehicle_def)
  have one: "length (detect_bunching 90000000000 three_vehicles ''Red'') = 1"
    by (simp add: detect_bunching_def sample_queries bunching_step_def sample_vehicle_def
          truthy_def total_seconds_def BUNCHING_THRESHOLD_SECONDS_def Let_def)
  from detect_bunching_needs_position [of 90000000000 three_vehicles "''Red''" ?b] h
  have "\<forall>a \<in> set (detect_bunching 90000000000 three_vehicles ''Red'').
       ba_vehicle_1 a \<noteq> v_vehicle_id ?b \<and> ba_vehicle_2 a \<noteq> v_vehicle_id ?b"
    by blast
  then have "list_all (\<lambda>a. ba_vehicle_1 a \<noteq> ''B'' \<and> ba_vehicle_2 a \<noteq> ''B'')
     (detect_bunching 90000000000 three_vehicles ''Red'')"
    unfolding id by (simp add: list_all_iff)
  then show ?thesis using h one by (simp add: sample_vehicle_def)
qed

section \<open>The delay calculator\<close>

lemma grouped_group_event:
  "grouped (group_event e g) h v =
     grouped g h v @ (if datetime_hour (te_timestamp e) = h \<and> te_vehicle_id e = v then [e] else [])"
  by (auto simp: grouped_def group_event_def Let_def update_conv' split: option.splits)

lemma well_grouped_group_event: "well_grouped g \<Longrightarrow> well_grouped (group_event e g)"
  by (auto simp: well_grouped_def group_event_def Let_def update_conv' distinct_update
        split: option.splits if_splits)

lemma fold_group_event_snoc:
  "fold group_event (es @ [e]) g = group_event e (fold group_event es g)"
  by simp

lemma grouped_fold:
  "grouped (fold group_event es []) h v =
     filter (\<lambda>e. datetime_hour (te_timestamp e) = h \<and> te_vehicle_id e = v) es"
proof (induction es rule: rev_induct)
  case Nil
  then show ?case by (simp add: grouped_def)
next
  case (snoc e es)
  then show ?case by (simp add: grouped_group_event)
qed

lemma well_grouped_fold: "well_grouped (fold group_event es [])"
proof (induction es rule: rev_induct)
  case Nil
  then show ?case by (simp add: well_grouped_def)
next
  case (snoc e es)
  then show ?case by (simp add: well_grouped_group_event)
qed

lemma vehicle_delays_pairs:
  "vehicle_delays sh es =
     (let ts = map te_timestamp es
      in if 2 \<le> length ts
         then map (\<lambda>(a, b). total_seconds (b - a) / 60 - sh) (zip ts (tl ts))
         else [])"
proof (cases "length es < 2")
  case True
  then show ?thesis by (simp add: vehicle_delays_def Let_def)
next
  case False
  have "map (\<lambda>i. total_seconds (te_timestamp (es ! i) - te_timestamp (es ! (i - 1))) / 60 - sh)
          [1..<length es] =
        map (\<lambda>(a, b). total_seconds (b - a) / 60 - sh)
          (zip (map te_timestamp es) (tl (map te_timestamp es)))"
  proof (rule nth_equalityI)
    show "length (map (\<lambda>i. total_seconds (te_timestamp (es ! i) - te_timestamp (es ! (i - 1))) / 60 - sh)
          [1..<length es]) =
        length (map (\<lambda>(a, b). total_seconds (b - a) / 60 - sh)
          (zip (map te_timestamp es) (tl (map te_timestamp es))))"
      by simp
  next
    fix i
    assume "i < length (map (\<lambda>i. total_seconds (te_timestamp (es ! i) - te_timestamp (es ! (i - 1))) / 60 - sh)
          [1..<length es])"
    then have i: "i + 1 < length es" by simp
    then show "map (\<lambda>i. total_seconds (te_timestamp (es ! i) - te_timestamp (es ! (i - 1))) / 60 - sh)
          [1..<length es] ! i =
        map (\<lambda>(a, b). total_seconds (b - a) / 60 - sh)
          (zip (map te_timestamp es) (tl (map te_timestamp es))) ! i"
      by (simp add: nth_tl)
  qed
  then show ?thesis using False by (simp add: vehicle_delays_def Let_def)
qed

lemma vehicle_delays_grouped:
  "vehicle_delays sh (grouped (fold group_event events []) h v) = window_vehicle_samples sh events h v"
  by (simp add: vehicle_delays_pairs grouped_fold window_vehicle_samples_def)

lemma window_vehicle_samples_absent:
  "filter (\<lambda>e. datetime_hour (te_timestamp e) = h \<and> te_vehicle_id e = v) events = [] \<Longrightarrow>
   window_vehicle_samples sh events h v = []"
  by (simp add: window_vehicle_samples_def)

lemma sum_list_concat_map:
  fixes F :: "'a \<Rightarrow> real list"
  shows "sum_list (concat (map F ks)) = sum_list (map (\<lambda>k. sum_list (F k)) ks)"
  by (induction ks) simp_all

lemma length_concat_map:
  "length (concat (map F ks)) = sum_list (map (\<lambda>k. length (F k)) ks)"
  by (induction ks) simp_all

lemma concat_map_distinct_sums:
  fixes F :: "'a \<Rightarrow> real list"
  assumes "distinct ks" "distinct ks'"
    and "\<And>v. v \<in> set ks \<Longrightarrow> v \<notin> set ks' \<Longrightarrow> F v = []"
    and "\<And>v. v \<in> set ks' \<Longrightarrow> v \<notin> set ks \<Longrightarrow> F v = []"
  shows "sum_list (concat (map F ks)) = sum_list (concat (map F ks'))"
    and "length (concat (map F ks)) = length (concat (map F ks'))"
proof -
  have s: "sum_list (concat (map F js)) = (\<Sum>v \<in> set js. sum_list (F v))" if "distinct js" for js
    using that by (simp add: sum_list_concat_map sum_list_distinct_conv_sum_set)
  have l: "length (concat (map F js)) = (\<Sum>v \<in> set js. length (F v))" if "distinct js" for js
    using that by (simp add: length_concat_map sum_list_distinct_conv_sum_set)
  have "(\<Sum>v \<in> set ks. sum_list (F v)) = (\<Sum>v \<in> set ks \<union> set ks'. sum_list (F v))"
    using assms(4) by (intro sum.mono_neutral_left) auto
  also have "\<dots> = (\<Sum>v \<in> set ks'. sum_list (F v))"
    using assms(3) by (intro sum.mono_neutral_right) auto
  finally show "sum_list (concat (map F ks)) = sum_list (concat (map F ks'))"
    using s assms(1,2) by simp
  have "(\<Sum>v \<in> set ks. length (F v)) = (\<Sum>v \<in> set ks \<union> set ks'. length (F v))"
    using assms(4) by (intro sum.mono_neutral_left) auto
  also have "\<dots> = (\<Sum>v \<in> set ks'. length (F v))"
    using assms(3) by (intro sum.mono_neutral_right) auto
  finally show "length (concat (map F ks)) = length (concat (map F ks'))"
    using l assms(1,2) by simp
qed

lemma hour_delays_grouped:
  assumes "map_of (fold group_event events []) h = Some vs"
  shows "hour_delays sh vs = concat (map (window_vehicle_samples sh events h) (map fst vs))"
    and "distinct (map fst vs)"
proof -
  let ?g = "fold group_event events []"
  show d: "distinct (map fst vs)"
    using well_grouped_fold [of events] assms by (auto simp: well_grouped_def)
  have "vehicle_delays sh es = window_vehicle_samples sh events h v" if "(v, es) \<in> set vs" for v es
  proof -
    have "map_of vs v = Some es" using d that by simp
    then have "grouped ?g h v = es" using assms by (simp add: grouped_def)
    then show ?thesis using vehicle_delays_grouped [of sh events h v] by simp
  qed
  then show "hour_delays sh vs = concat (map (window_vehicle_samples sh events h) (map fst vs))"
    by (auto simp: hour_delays_def intro!: arg_cong [where f = concat])
qed

lemma hour_delays_spec:
  assumes "map_of (fold group_event events []) h = Some vs"
  shows "sum_list (hour_delays sh vs) = sum_list (window_hour_samples sh events h)"
    and "length (hour_delays sh vs) = length (window_hour_samples sh events h)"
proof -
  let ?g = "fold group_event events []"
  let ?F = "window_vehicle_samples sh events h"
  have absent: "?F v = []" if "v \<notin> set (remdups (map te_vehicle_id events))" for v
  proof -
    have "filter (\<lambda>e. datetime_hour (te_timestamp e) = h \<and> te_vehicle_id e = v) events = []"
      using that by (auto simp: filter_empty_conv)
    then show ?thesis by (rule window_vehicle_samples_absent)
  qed
  have nokey: "?F v = []" if "v \<notin> set (map fst vs)" for v
  proof -
    have "map_of vs v = None" using that by (simp add: map_of_eq_None_iff)
    then have "grouped ?g h v = []" using assms by (simp add: grouped_def)
    then have "filter (\<lambda>e. datetime_hour (te_timestamp e) = h \<and> te_vehicle_id e = v) events = []"
      by (simp add: grouped_fold)
    then show ?thesis by (rule window_vehicle_samples_absent)
  qed
  note hd = hour_delays_grouped(1) [OF assms, of sh] hour_delays_grouped(2) [OF assms]
  show "sum_list (hour_delays sh vs) = sum_list (window_hour_samples sh events h)"
    unfolding hd(1) window_hour_samples_def
    using hd(2) absent nokey by (intro concat_map_distinct_sums(1)) auto
  show "length (hour_delays sh vs) = length (window_hour_samples sh events h)"
    unfolding hd(1) window_hour_samples_def
    using hd(2) absent nokey by (intro concat_map_distinct_sums(2)) auto
qed

lemma window_hour_samples_no_events:
  assumes "map_of (fold group_event events []) h = None"
  shows "window_hour_samples sh events h = []"
proof -
  have "window_vehicle_samples sh events h v = []" for v
  proof -
    have "grouped (fold group_event events []) h v = []" using assms by (simp add: grouped_def)
    then have "filter (\<lambda>e. datetime_hour (te_timestamp e) = h \<and> te_vehicle_id e = v) events = []"
      by (simp add: grouped_fold)
    then show ?thesis by (rule window_vehicle_samples_absent)
  qed
  then show ?thesis by (simp add: window_hour_samples_def)
qed

lemma update_first_None: "update_first P f xs = None \<longleftrightarrow> filter P xs = []"
  by (induction xs) auto

lemma update_first_Some:
  "update_first P f xs = Some ys \<Longrightarrow> (\<And>x. P x \<Longrightarrow> P (f x)) \<Longrightarrow>
   filter P xs \<noteq> [] \<and> filter P ys = f (hd (filter P xs)) # tl (filter P xs)"
  by (induction xs arbitrary: ys) (auto split: if_splits)

lemma update_first_other:
  "update_first P f xs = Some ys \<Longrightarrow> (\<And>x. P x \<Longrightarrow> \<not> Q x \<and> \<not> Q (f x)) \<Longrightarrow>
   filter Q ys = filter Q xs"
  by (induction xs arbitrary: ys) (auto split: if_splits)

lemma delay_loop_succeeds:
  "\<forall>h. \<not> fails (Query_route_delay h) \<Longrightarrow>
   \<exists>session'. delay_loop fails now r rn sh items session = Inr session'"
proof (induction items arbitrary: session)
  case Nil
  then show ?case by simp
next
  case (Cons item items)
  obtain h vs where item: "item = (h, vs)" by (cases item)
  obtain rows pending where session: "session = (rows, pending)" by (cases session)
  show ?case
    unfolding item session using Cons.IH [OF Cons.prems] Cons.prems
    by (auto simp: Let_def split: option.splits)
qed

lemma delay_loop_other_hours:
  "delay_loop fails now r rn sh items (rows, pending) = Inr (rows', pending') \<Longrightarrow>
   h \<notin> fst ` set items \<Longrightarrow>
   route_hour_rows r h rows' = route_hour_rows r h rows \<and>
   route_hour_rows r h pending' = route_hour_rows r h pending"
proof (induction items arbitrary: rows pending)
  case Nil
  then show ?case by simp
next
  case (Cons item items)
  obtain h0 vs where item: "item = (h0, vs)" by (cases item)
  have ne: "h0 \<noteq> h" and rest: "h \<notin> fst ` set items" using Cons.prems(2) item by auto
  let ?d = "hour_delays sh vs"
  let ?upd = "\<lambda>existing. existing
                     \<lparr>rd_avg_delay_minutes := Some (sum_list ?d / real (length ?d)),
                      rd_sample_count := Some (int (length ?d)),
                      rd_calculated_at := now\<rparr>"
  let ?new = "\<lparr>rd_id = None, rd_route_id = r, rd_route_name = rn, rd_hour_of_day = Some h0,
               rd_avg_delay_minutes = Some (sum_list ?d / real (length ?d)),
               rd_sample_count = Some (int (length ?d)), rd_calculated_at = now\<rparr>"
  show ?case
  proof (cases "?d = []")
    case True
    then show ?thesis using Cons.prems(1) Cons.IH [OF _ rest] item by simp
  next
    case False
    show ?thesis
    proof (cases "update_first (\<lambda>rd. rd_route_id rd = r \<and> rd_hour_of_day rd = Some h0) ?upd rows")
      case None
      then have "delay_loop fails now r rn sh items (rows, pending @ [?new]) = Inr (rows', pending')"
        using Cons.prems(1) item False by (simp add: Let_def split: if_splits)
      from Cons.IH [OF this rest] show ?thesis using ne by (simp add: route_hour_rows_def)
    next
      case (Some rows1)
      then have "delay_loop fails now r rn sh items (rows1, pending) = Inr (rows', pending')"
        using Cons.prems(1) item False by (simp add: Let_def split: if_splits)
      moreover have "route_hour_rows r h rows1 = route_hour_rows r h rows"
        unfolding route_hour_rows_def using ne by (intro update_first_other [OF Some]) simp
      ultimately show ?thesis using Cons.IH [OF _ rest] by simp
    qed
  qed
qed

lemma delay_loop_this_hour:
  assumes "delay_loop fails now r rn sh items (rows, pending) = Inr (rows', pending')"
    and "distinct (map fst items)" and "map_of items h = Some vs"
  shows "(hour_delays sh vs = [] \<longrightarrow>
            route_hour_rows r h rows' = route_hour_rows r h rows \<and>
            route_hour_rows r h pending' = route_hour_rows r h pending) \<and>
         (hour_delays sh vs \<noteq> [] \<and> route_hour_rows r h rows = [] \<longrightarrow>
            route_hour_rows r h rows' = [] \<and>
            route_hour_rows r h pending' = route_hour_rows r h pending @
              [\<lparr>rd_id = None, rd_route_id = r, rd_route_name = rn, rd_hour_of_day = Some h,
                rd_avg_delay_minutes =
                  Some (sum_list (hour_delays sh vs) / real (length (hour_delays sh vs))),
                rd_sample_count = Some (int (length (hour_delays sh vs))),
                rd_calculated_at = now\<rparr>]) \<and>
         (hour_delays sh vs \<noteq> [] \<and> route_hour_rows r h rows \<noteq> [] \<longrightarrow>
            route_hour_rows r h rows' =
              (hd (route_hour_rows r h rows))
                \<lparr>rd_avg_delay_minutes :=
                   Some (sum_list (hour_delays sh vs) / real (length (hour_delays sh vs))),
                 rd_sample_count := Some (int (length (hour_delays sh vs))),
                 rd_calculated_at := now\<rparr> # tl (route_hour_rows r h rows) \<and>
            route_hour_rows r h pending' = route_hour_rows r h pending)"
  using assms
proof (induction items arbitrary: rows pending)
  case Nil
  then show ?case by simp
next
  case (Cons item items)
  obtain h0 vs0 where item: "item = (h0, vs0)" by (cases item)
  let ?d = "hour_delays sh vs0"
  let ?upd = "\<lambda>existing. existing
                     \<lparr>rd_avg_delay_minutes := Some (sum_list ?d / real (length ?d)),
                      rd_sample_count := Some (int (length ?d)),
                      rd_calculated_at := now\<rparr>"
  let ?new = "\<lparr>rd_id = None, rd_route_id = r, rd_route_name = rn, rd_hour_of_day = Some h0,
               rd_avg_delay_minutes = Some (sum_list ?d / real (length ?d)),
               rd_sample_count = Some (int (length ?d)), rd_calculated_at = now\<rparr>"
  let ?P = "\<lambda>rd. rd_route_id rd = r \<and> rd_hour_of_day rd = Some h0"
  have dist: "distinct (map fst items)" and fresh: "h0 \<notin> fst ` set items"
    using Cons.prems(2) item by auto
  show ?case
  proof (cases "h0 = h")
    case True
    then have vs: "vs0 = vs" using Cons.prems(3) item by simp
    have rest: "h \<notin> fst ` set items" using fresh True by simp
    show ?thesis
    proof (cases "?d = []")
      case True
      then have "delay_loop fails now r rn sh items (rows, pending) = Inr (rows', pending')"
        using Cons.prems(1) item by simp
      from delay_loop_other_hours [OF this rest] True vs show ?thesis by simp
    next
      case False
      show ?thesis
      proof (cases "update_first ?P ?upd rows")
        case None
        then have "delay_loop fails now r rn sh items (rows, pending @ [?new]) = Inr (rows', pending')"
          using Cons.prems(1) item False by (simp add: Let_def split: if_splits)
        from delay_loop_other_hours [OF this rest]
        have "route_hour_rows r h rows' = route_hour_rows r h rows"
          "route_hour_rows r h pending' = route_hour_rows r h (pending @ [?new])" by simp_all
        moreover have "route_hour_rows r h rows = []"
          using None \<open>h0 = h\<close> by (simp add: update_first_None route_hour_rows_def)
        ultimately show ?thesis using False vs \<open>h0 = h\<close> by (simp add: route_hour_rows_def)
      next
        case (Some rows1)
        then have "delay_loop fails now r rn sh items (rows1, pending) = Inr (rows', pending')"
          using Cons.prems(1) item False by (simp add: Let_def split: if_splits)
        from delay_loop_other_hours [OF this rest]
        have "route_hour_rows r h rows' = route_hour_rows r h rows1"
          "route_hour_rows r h pending' = route_hour_rows r h pending" by simp_all
        moreover have "filter ?P rows \<noteq> [] \<and> filter ?P rows1 = ?upd (hd (filter ?P rows)) # tl (filter ?P rows)"
          by (rule update_first_Some [OF Some]) simp
        ultimately show ?thesis using False vs \<open>h0 = h\<close> by (simp add: route_hour_rows_def)
      qed
    qed
  next
    case False
    then have look: "map_of items h = Some vs" using Cons.prems(3) item by simp
    show ?thesis
    proof (cases "?d = []")
      case True
      then have "delay_loop fails now r rn sh items (rows, pending) = Inr (rows', pending')"
        using Cons.prems(1) item by simp
      from Cons.IH [OF this dist look] show ?thesis .
    next
      case nonempty: False
      show ?thesis
      proof (cases "update_first ?P ?upd rows")
        case None
        then have run: "delay_loop fails now r rn sh items (rows, pending @ [?new]) = Inr (rows', pending')"
          using Cons.prems(1) item nonempty by (simp add: Let_def split: if_splits)
        have "route_hour_rows r h (pending @ [?new]) = route_hour_rows r h pending"
          using False by (simp add: route_hour_rows_def)
        with Cons.IH [OF run dist look] show ?thesis by simp
      next
        case (Some rows1)
        then have run: "delay_loop fails now r rn sh items (rows1, pending) = Inr (rows', pending')"
          using Cons.prems(1) item nonempty by (simp add: Let_def split: if_splits)
        have "route_hour_rows r h rows1 = route_hour_rows r h rows"
          unfolding route_hour_rows_def using False by (intro update_first_other [OF Some]) simp
        with Cons.IH [OF run dist look] show ?thesis by simp
      qed
    qed
  qed
qed

lemma insert_route_delays_rows:
  "\<exists>new. insert_route_delays table objects = table @ new \<and>
         list_all2 (\<lambda>object row. \<exists>n. row = object\<lparr>rd_id := Some n\<rparr>) objects new"
proof (induction objects arbitrary: table)
  case Nil
  then show ?case by simp
next
  case (Cons rd objects)
  let ?row = "rd\<lparr>rd_id := Some (next_id (map rd_id table))\<rparr>"
  from Cons.IH [of "table @ [?row]"] obtain new where
    "insert_route_delays (table @ [?row]) objects = (table @ [?row]) @ new"
    "list_all2 (\<lambda>object row. \<exists>n. row = object\<lparr>rd_id := Some n\<rparr>) objects new" by blast
  then show ?case by (intro exI [of _ "?row # new"]) auto
qed

lemma list_all2_filter:
  "list_all2 R xs ys \<Longrightarrow> (\<And>x y. R x y \<Longrightarrow> P x = P y) \<Longrightarrow>
   list_all2 R (filter P xs) (filter P ys)"
  by (induction rule: list_all2_induct) auto

lemma route_hour_rows_inserted:
  "\<exists>new. route_hour_rows r h (insert_route_delays table objects) =
           route_hour_rows r h table @ new \<and>
         list_all2 (\<lambda>object row. \<exists>n. row = object\<lparr>rd_id := Some n\<rparr>)
           (route_hour_rows r h objects) new"
proof -
  from insert_route_delays_rows [of table objects] obtain new where
    new: "insert_route_delays table objects = table @ new"
      "list_all2 (\<lambda>object row. \<exists>n. row = object\<lparr>rd_id := Some n\<rparr>) objects new" by blast
  have "list_all2 (\<lambda>object row. \<exists>n. row = object\<lparr>rd_id := Some n\<rparr>)
      (route_hour_rows r h objects) (route_hour_rows r h new)"
    unfolding route_hour_rows_def by (rule list_all2_filter [OF new(2)]) auto
  then show ?thesis using new(1) by (auto simp: route_hour_rows_def)
qed

lemma calculate_route_delays_raised:
  "dr_raised (calculate_route_delays fails now db route_id hours_back) = None \<longleftrightarrow>
     (\<exists>db'. calculate_body fails now db route_id hours_back = Inr db')"
  by (auto simp: calculate_route_delays_def split: sum.splits)

lemma calculate_route_delays_db:
  "dr_db (calculate_route_delays fails now db route_id hours_back) =
     (case calculate_body fails now db route_id hours_back of Inl e \<Rightarrow> db | Inr db' \<Rightarrow> db')"
  by (simp add: calculate_route_delays_def split: sum.splits)

lemma window_hour_samples_Nil: "window_hour_samples sh [] h = []"
  by (simp add: window_hour_samples_def)

lemma calculate_route_delays_rows:
  assumes "\<forall>op. \<not> fails op" and "cutoff_time now hours_back = Inr cutoff"
  shows "let events = route_events cutoff db route_id;
             samples = window_hour_samples (scheduled_headway_of route_id) events h;
             old = route_hour_rows route_id h (route_delays db);
             result = calculate_route_delays fails now db route_id hours_back;
             new = route_hour_rows route_id h (route_delays (dr_db result))
         in dr_raised result = None \<and>
            (samples = [] \<longrightarrow> new = old) \<and>
            (samples \<noteq> [] \<longrightarrow>
               (\<exists>row. new = row # tl old \<and>
                  rd_avg_delay_minutes row = Some (sum_list samples / real (length samples)) \<and>
                  rd_sample_count row = Some (int (length samples)) \<and>
                  rd_calculated_at row = now \<and>
                  (old \<noteq> [] \<longrightarrow>
                     row = (hd old)
                       \<lparr>rd_avg_delay_minutes := Some (sum_list samples / real (length samples)),
                        rd_sample_count := Some (int (length samples)),
                        rd_calculated_at := now\<rparr>))) \<and>
            (route_id \<notin> fst ` set SCHEDULED_HEADWAYS \<longrightarrow> scheduled_headway_of route_id = 10)"
proof -
  let ?events = "route_events cutoff db route_id"
  let ?sh = "scheduled_headway_of route_id"
  let ?samples = "window_hour_samples ?sh ?events h"
  let ?old = "route_hour_rows route_id h (route_delays db)"
  let ?result = "calculate_route_delays fails now db route_id hours_back"
  let ?new = "route_hour_rows route_id h (route_delays (dr_db ?result))"
  let ?g = "fold group_event ?events []"
  let ?rn = "te_route_id (hd ?events)"
  have default: "route_id \<notin> fst ` set SCHEDULED_HEADWAYS \<longrightarrow> ?sh = 10"
  proof
    assume "route_id \<notin> fst ` set SCHEDULED_HEADWAYS"
    then have "map_of SCHEDULED_HEADWAYS route_id = None" by (simp add: map_of_eq_None_iff)
    then show "?sh = 10" by (simp add: scheduled_headway_of_def)
  qed
  have main: "dr_raised ?result = None \<and>
      (?samples = [] \<longrightarrow> ?new = ?old) \<and>
      (?samples \<noteq> [] \<longrightarrow>
         (\<exists>row. ?new = row # tl ?old \<and>
            rd_avg_delay_minutes row = Some (sum_list ?samples / real (length ?samples)) \<and>
            rd_sample_count row = Some (int (length ?samples)) \<and>
            rd_calculated_at row = now \<and>
            (?old \<noteq> [] \<longrightarrow>
               row = (hd ?old)
                 \<lparr>rd_avg_delay_minutes := Some (sum_list ?samples / real (length ?samples)),
                  rd_sample_count := Some (int (length ?samples)),
                  rd_calculated_at := now\<rparr>)))"
  proof (cases "?events = []")
    case True
    then have "calculate_body fails now db route_id hours_back = Inr db"
      using assms by (simp add: calculate_body_def)
    then show ?thesis
      using True by (simp add: calculate_route_delays_def window_hour_samples_Nil)
  next
    case False
    from delay_loop_succeeds [of fails now route_id ?rn ?sh ?g "(route_delays db, [])"] assms(1)
    obtain rows' pending' where
      loop: "delay_loop fails now route_id ?rn ?sh ?g (route_delays db, []) = Inr (rows', pending')"
      by (metis surj_pair)
    have body: "calculate_body fails now db route_id hours_back =
        Inr (db\<lparr>route_delays := insert_route_delays rows' pending'\<rparr>)"
      using assms False loop by (simp add: calculate_body_def Let_def)
    then have raised: "dr_raised ?result = None" and
      db': "route_delays (dr_db ?result) = insert_route_delays rows' pending'"
      by (simp_all add: calculate_route_delays_def)
    from route_hour_rows_inserted [of route_id h rows' pending'] obtain added where
      new: "?new = route_hour_rows route_id h rows' @ added"
      and added: "list_all2 (\<lambda>object row. \<exists>n. row = object\<lparr>rd_id := Some n\<rparr>)
           (route_hour_rows route_id h pending') added"
      unfolding db' by blast
    have dist: "distinct (map fst ?g)"
      using well_grouped_fold [of ?events] by (simp add: well_grouped_def)
    show ?thesis
    proof (cases "map_of ?g h")
      case None
      then have "h \<notin> fst ` set ?g" by (simp add: map_of_eq_None_iff)
      from delay_loop_other_hours [OF loop this]
      have "route_hour_rows route_id h rows' = ?old" "route_hour_rows route_id h pending' = []"
        by (simp_all add: route_hour_rows_def)
      then have "?new = ?old" using new added by simp
      moreover have "?samples = []" using None by (rule window_hour_samples_no_events)
      ultimately show ?thesis using raised by simp
    next
      case (Some vs)
      let ?d = "hour_delays ?sh vs"
      have sum: "sum_list ?d = sum_list ?samples" and len: "length ?d = length ?samples"
        using hour_delays_spec [OF Some, of ?sh] by simp_all
      have empty: "?d = [] \<longleftrightarrow> ?samples = []" using len by (metis length_0_conv)
      note effect = delay_loop_this_hour [OF loop dist Some]
      show ?thesis
      proof (cases "?samples = []")
        case True
        then have "route_hour_rows route_id h rows' = ?old" "route_hour_rows route_id h pending' = []"
          using effect empty by (simp_all add: route_hour_rows_def)
        then have "?new = ?old" using new added by simp
        then show ?thesis using raised True by simp
      next
        case nonempty: False
        show ?thesis
        proof (cases "?old = []")
          case True
          then have "route_hour_rows route_id h rows' = []"
            and p: "route_hour_rows route_id h pending' =
              [\<lparr>rd_id = None, rd_route_id = route_id, rd_route_name = ?rn, rd_hour_of_day = Some h,
                rd_avg_delay_minutes = Some (sum_list ?d / real (length ?d)),
                rd_sample_count = Some (int (length ?d)), rd_calculated_at = now\<rparr>]"
            using effect empty nonempty by (simp_all add: route_hour_rows_def)
          moreover from added p obtain n where
            "added = [\<lparr>rd_id = None, rd_route_id = route_id, rd_route_name = ?rn, rd_hour_of_day = Some h,
                rd_avg_delay_minutes = Some (sum_list ?d / real (length ?d)),
                rd_sample_count = Some (int (length ?d)), rd_calculated_at = now\<rparr>\<lparr>rd_id := Some n\<rparr>]"
            by (auto simp: list_all2_Cons1)
          ultimately show ?thesis using raised nonempty new True sum len by simp
        next
          case False
          then have "route_hour_rows route_id h rows' =
              (hd ?old)\<lparr>rd_avg_delay_minutes := Some (sum_list ?d / real (length ?d)),
                 rd_sample_count := Some (int (length ?d)),
                 rd_calculated_at := now\<rparr> # tl ?old"
            and "route_hour_rows route_id h pending' = []"
            using effect empty nonempty by (simp_all add: route_hour_rows_def)
          then show ?thesis using raised nonempty new added False sum len by simp
        qed
      qed
    qed
  qed
  show ?thesis using main default by (simp add: Let_def)
qed

lemma two_arrivals_cutoff: "cutoff_time 88200000000 24 = Inr 1800000000"
  by (simp add: cutoff_time_def timedelta_hours_def datetime_max_def Let_def)

lemma two_arrivals_events:
  "route_events 1800000000 two_arrivals ''Red'' =
     [sample_event ''A'' 86400000000, sample_event ''A'' 86940000000]"
  by (simp add: route_events_def two_arrivals_def events_db_def sample_event_def)

lemma red_headway: "scheduled_headway_of ''Red'' = 6"
  by (simp add: scheduled_headway_of_def SCHEDULED_HEADWAYS_def)

lemma datetime_hour_spec: "datetime_hour t = spec_hour_of_day t"
proof -
  have "t mod (3600000000 * 24) = 3600000000 * (t div 3600000000 mod 24) + t mod 3600000000"
    by (rule zmod_zmult2_eq) simp
  then have "(t mod 86400000000) div 3600000000 =
      (3600000000 * (t div 3600000000 mod 24) + t mod 3600000000) div 3600000000"
    by simp
  also have "\<dots> = t div 3600000000 mod 24"
    by simp
  finally show ?thesis by (simp add: datetime_hour_def spec_hour_of_day_def)
qed

lemma scheduled_headway_spec: "scheduled_headway_of route_id = spec_expected_headway route_id"
  by (simp add: scheduled_headway_of_def SCHEDULED_HEADWAYS_def spec_expected_headway_def)

lemma cutoff_time_window:
  assumes "0 \<le> hours_back" "hours_back * 3600000000 \<le> now" "now \<le> 315537897599999999"
  shows "cutoff_time now hours_back = Inr (now - hours_back * 3600000000)"
proof -
  have "hours_back \<le> 87649416" using assms by linarith
  then have "hours_back div 24 \<le> 999999999" using assms(1) by linarith
  moreover have "0 \<le> hours_back div 24" using assms(1) by simp
  ultimately have "\<not> 999999999 < \<bar>hours_back div 24\<bar>" by linarith
  then show ?thesis
    using assms by (simp add: cutoff_time_def timedelta_hours_def datetime_max_def Let_def)
qed

lemma map_insort_key: "map f (insort_key f x xs) = insort (f x) (map f xs)"
  by (induction xs) simp_all

lemma map_sort_key: "map f (sort_key f xs) = sort (map f xs)"
  by (induction xs) (simp_all add: map_insort_key)

lemma window_vehicle_samples_spec:
  "window_vehicle_samples (scheduled_headway_of route_id) (route_events cutoff db route_id) h v =
     spec_vehicle_samples (telemetry_events db) route_id cutoff h v"
proof -
  have "map te_timestamp
          (filter (\<lambda>e. datetime_hour (te_timestamp e) = h \<and> te_vehicle_id e = v)
             (route_events cutoff db route_id)) =
        sort (map te_timestamp
          (filter (\<lambda>e. te_route_id e = Some route_id \<and> cutoff \<le> te_timestamp e \<and>
                        spec_hour_of_day (te_timestamp e) = h \<and> te_vehicle_id e = v)
             (telemetry_events db)))"
    by (simp add: route_events_def filter_sort map_sort_key datetime_hour_spec conj_ac
          cong: conj_cong)
  then show ?thesis
    by (simp add: window_vehicle_samples_def spec_vehicle_samples_def scheduled_headway_spec
          total_seconds_def Let_def)
qed


lemma spec_vehicle_samples_absent:
  "filter (\<lambda>e. te_route_id e = Some route_id \<and> window_start \<le> te_timestamp e \<and>
               spec_hour_of_day (te_timestamp e) = h \<and> te_vehicle_id e = v) table = [] \<Longrightarrow>
   spec_vehicle_samples table route_id window_start h v = []"
  by (simp add: spec_vehicle_samples_def)

lemma window_hour_samples_spec:
  "sum_list (window_hour_samples (scheduled_headway_of route_id) (route_events cutoff db route_id) h) =
     sum_list (spec_hour_samples (telemetry_events db) route_id cutoff h)"
  "length (window_hour_samples (scheduled_headway_of route_id) (route_events cutoff db route_id) h) =
     length (spec_hour_samples (telemetry_events db) route_id cutoff h)"
proof -
  let ?F = "spec_vehicle_samples (telemetry_events db) route_id cutoff h"
  let ?ks = "remdups (map te_vehicle_id (route_events cutoff db route_id))"
  let ?ks' = "remdups (map te_vehicle_id (telemetry_events db))"
  have F: "window_vehicle_samples (scheduled_headway_of route_id) (route_events cutoff db route_id) h = ?F"
    by (rule ext) (rule window_vehicle_samples_spec)
  have sub: "v \<in> set ?ks'" if "v \<in> set ?ks" for v
    using that by (auto simp: route_events_def)
  have out: "?F v = []" if "v \<notin> set ?ks" for v
  proof -
    have "\<not> (te_route_id e = Some route_id \<and> cutoff \<le> te_timestamp e \<and>
              spec_hour_of_day (te_timestamp e) = h \<and> te_vehicle_id e = v)"
      if e: "e \<in> set (telemetry_events db)" for e
    proof
      assume a: "te_route_id e = Some route_id \<and> cutoff \<le> te_timestamp e \<and>
              spec_hour_of_day (te_timestamp e) = h \<and> te_vehicle_id e = v"
      then have "e \<in> set (route_events cutoff db route_id)" using e by (simp add: route_events_def)
      then have "te_vehicle_id e \<in> set ?ks" by simp
      then show False using a \<open>v \<notin> set ?ks\<close> by simp
    qed
    then have "filter (\<lambda>e. te_route_id e = Some route_id \<and> cutoff \<le> te_timestamp e \<and>
               spec_hour_of_day (te_timestamp e) = h \<and> te_vehicle_id e = v) (telemetry_events db) = []"
      by (simp add: filter_empty_conv)
    then show ?thesis by (rule spec_vehicle_samples_absent)
  qed
  show "sum_list (window_hour_samples (scheduled_headway_of route_id) (route_events cutoff db route_id) h) =
     sum_list (spec_hour_samples (telemetry_events db) route_id cutoff h)"
    unfolding window_hour_samples_def spec_hour_samples_def F
    using sub out by (intro concat_map_distinct_sums(1)) auto
  show "length (window_hour_samples (scheduled_headway_of route_id) (route_events cutoff db route_id) h) =
     length (spec_hour_samples (telemetry_events db) route_id cutoff h)"
    unfolding window_hour_samples_def spec_hour_samples_def F
    using sub out by (intro concat_map_distinct_sums(2)) auto
qed

lemma update_first_length:
  "update_first P f xs = Some ys \<Longrightarrow> (\<And>x. Q (f x) = Q x) \<Longrightarrow>
   length (filter Q ys) = length (filter Q xs)"
  by (induction xs arbitrary: ys) (auto split: if_splits)

lemma delay_loop_lengths:
  "delay_loop fails now r rn sh items (rows, pending) = Inr (rows', pending') \<Longrightarrow>
   distinct (map fst items) \<Longrightarrow>
   length (route_hour_rows r' h' rows') = length (route_hour_rows r' h' rows) \<and>
   length (route_hour_rows r' h' pending') \<le>
     length (route_hour_rows r' h' pending) +
       (if r' = r \<and> h' \<in> fst ` set items \<and> route_hour_rows r' h' rows = [] then 1 else 0)"
proof (induction items arbitrary: rows pending)
  case Nil
  then show ?case by simp
next
  case (Cons item items)
  obtain h0 vs where item: "item = (h0, vs)" by (cases item)
  have dist: "distinct (map fst items)" and fresh: "h0 \<notin> fst ` set items"
    using Cons.prems(2) item by auto
  let ?d = "hour_delays sh vs"
  let ?upd = "\<lambda>existing. existing
                     \<lparr>rd_avg_delay_minutes := Some (sum_list ?d / real (length ?d)),
                      rd_sample_count := Some (int (length ?d)),
                      rd_calculated_at := now\<rparr>"
  let ?new = "\<lparr>rd_id = None, rd_route_id = r, rd_route_name = rn, rd_hour_of_day = Some h0,
               rd_avg_delay_minutes = Some (sum_list ?d / real (length ?d)),
               rd_sample_count = Some (int (length ?d)), rd_calculated_at = now\<rparr>"
  let ?P = "\<lambda>rd. rd_route_id rd = r \<and> rd_hour_of_day rd = Some h0"
  show ?case
  proof (cases "?d = []")
    case True
    then have "delay_loop fails now r rn sh items (rows, pending) = Inr (rows', pending')"
      using Cons.prems(1) item by simp
    from Cons.IH [OF this dist] show ?thesis by (auto split: if_splits)
  next
    case False
    show ?thesis
    proof (cases "update_first ?P ?upd rows")
      case None
      then have run: "delay_loop fails now r rn sh items (rows, pending @ [?new]) = Inr (rows', pending')"
        using Cons.prems(1) item False by (simp add: Let_def split: if_splits)
      have none: "route_hour_rows r h0 rows = []"
        using None by (simp add: update_first_None route_hour_rows_def)
      note ih = Cons.IH [OF run dist]
      show ?thesis
      proof (cases "r' = r \<and> h' = h0")
        case True
        then have "length (route_hour_rows r' h' (pending @ [?new])) =
            length (route_hour_rows r' h' pending) + 1"
          by (simp add: route_hour_rows_def)
        then show ?thesis using ih True fresh none item by simp
      next
        case False
        then have "route_hour_rows r' h' (pending @ [?new]) = route_hour_rows r' h' pending"
          by (auto simp: route_hour_rows_def)
        then show ?thesis using ih item by (auto split: if_splits)
      qed
    next
      case (Some rows1)
      then have run: "delay_loop fails now r rn sh items (rows1, pending) = Inr (rows', pending')"
        using Cons.prems(1) item False by (simp add: Let_def split: if_splits)
      have len: "length (route_hour_rows r' h' rows1) = length (route_hour_rows r' h' rows)"
        unfolding route_hour_rows_def by (rule update_first_length [OF Some]) simp
      then have "route_hour_rows r' h' rows1 = [] \<longleftrightarrow> route_hour_rows r' h' rows = []"
        by (metis length_0_conv)
      then show ?thesis using Cons.IH [OF run dist] len item by (auto split: if_splits)
    qed
  qed
qed

lemma calculate_body_unique:
  assumes "calculate_body fails now db r hb = Inr db'"
    and "length (route_hour_rows r' h' (route_delays db)) \<le> 1"
  shows "length (route_hour_rows r' h' (route_delays db')) \<le> 1"
proof -
  obtain cutoff where cutoff: "cutoff_time now hb = Inr cutoff"
    using assms(1) by (cases "cutoff_time now hb") (simp_all add: calculate_body_def)
  let ?events = "route_events cutoff db r"
  let ?g = "fold group_event ?events []"
  show ?thesis
  proof (cases "?events = []")
    case True
    then have "db' = db" using assms(1) cutoff by (simp add: calculate_body_def split: if_splits)
    then show ?thesis using assms(2) by simp
  next
    case False
    obtain rows' pending' where
      loop: "delay_loop fails now r (te_route_id (hd ?events)) (scheduled_headway_of r) ?g
               (route_delays db, []) = Inr (rows', pending')"
      and db': "db' = db\<lparr>route_delays := insert_route_delays rows' pending'\<rparr>"
      using assms(1) cutoff False
      by (auto simp: calculate_body_def Let_def split: if_splits sum.splits)
    have dist: "distinct (map fst ?g)"
      using well_grouped_fold [of ?events] by (simp add: well_grouped_def)
    from route_hour_rows_inserted [of r' h' rows' pending'] obtain added where
      new: "route_hour_rows r' h' (route_delays db') = route_hour_rows r' h' rows' @ added"
      and added: "list_all2 (\<lambda>object row. \<exists>n. row = object\<lparr>rd_id := Some n\<rparr>)
           (route_hour_rows r' h' pending') added"
      unfolding db' by auto
    have "length added = length (route_hour_rows r' h' pending')"
      using added by (simp add: list_all2_lengthD)
    moreover have "route_hour_rows r' h' [] = []" by (simp add: route_hour_rows_def)
    ultimately show ?thesis
      using delay_loop_lengths [OF loop dist, of r' h'] new assms(2)
      by (auto split: if_splits)
  qed
qed

lemma calculate_route_delays_unique:
  "length (route_hour_rows r' h' (route_delays db)) \<le> 1 \<Longrightarrow>
   length (route_hour_rows r' h'
     (route_delays (dr_db (calculate_route_delays fails now db r hb)))) \<le> 1"
  using calculate_body_unique [of fails now db r hb _ r' h']
  by (auto simp: calculate_route_delays_db split: sum.splits)

lemma store_cycle_route_delays:
  "store_cycle fails t db xs = Inr db' \<Longrightarrow> route_delays db' = route_delays db"
  by (auto simp: store_cycle_def Let_def split: if_splits sum.splits)

lemma run_cycle_route_delays: "route_delays (run_cycle t db) = route_delays db"
  using store_cycle_route_delays [of "t_fails t" "t_now t" db]
  by (auto simp: run_cycle_def collect_telemetry_db split: sum.splits)

lemma run_action_unique:
  "length (route_hour_rows r' h' (route_delays db)) \<le> 1 \<Longrightarrow>
   length (route_hour_rows r' h' (route_delays (run_action a db))) \<le> 1"
proof (cases a)
  case (Collect t)
  assume "length (route_hour_rows r' h' (route_delays db)) \<le> 1"
  then show ?thesis unfolding Collect by (simp add: run_cycle_route_delays)
next
  case (Recompute fails now r hb)
  assume "length (route_hour_rows r' h' (route_delays db)) \<le> 1"
  then show ?thesis
    unfolding Recompute run_action.simps by (rule calculate_route_delays_unique)
qed

lemma run_actions_unique:
  "length (route_hour_rows r' h' (route_delays db)) \<le> 1 \<Longrightarrow>
   length (route_hour_rows r' h' (route_delays (run_actions actions db))) \<le> 1"
  unfolding run_actions_def
proof (induction actions arbitrary: db)
  case Nil
  then show ?case by simp
next
  case (Cons a actions)
  from Cons.IH [OF run_action_unique [OF Cons.prems]] show ?case by simp
qed

text \<open>
  Claim C4. Take a call of \<^verbatim>\<open>calculate_route_delays\<close> for a route and a trailing window of
  \<open>hours_back\<close> hours in which no storage operation fails and the start of the window,
  \<open>now\<close> minus \<open>hours_back\<close> hours, is an instant the clock can show. The call returns
  normally. For every hour of day, let the samples be those the specification describes:
  among the events of the table that are on the route and not older than the start of the
  window, for each vehicle its events of that hour in time order and, with at least two of
  them, each gap between consecutive events in minutes minus the expected headway of the
  route (the headway of the static table, ten minutes for a route that is not listed).
  With no sample the rows of the route and the hour are left as they were: no row is
  produced. With samples, the first row of the route and the hour holds their average,
  their number and the time of the call; it is the row that was there, overwritten, or a
  new row when there was none; and with at most one row before the call this row is the
  only one after it. A call never takes a route and hour from at most one row to more,
  and every store reached from the empty one by collection cycles and recomputations,
  failing or not, has at most one row for a route and an hour.
\<close>

theorem calculate_route_delays_average:
  assumes "\<forall>op. \<not> fails op"
    and "0 \<le> hours_back" and "hours_back * 3600000000 \<le> now" and "now \<le> 315537897599999999"
  shows "let samples = spec_hour_samples (telemetry_events db) route_id
                         (now - hours_back * 3600000000) h;
             old = route_hour_rows route_id h (route_delays db);
             result = calculate_route_delays fails now db route_id hours_back;
             new = route_hour_rows route_id h (route_delays (dr_db result))
         in dr_raised result = None \<and>
            (samples = [] \<longrightarrow> new = old) \<and>
            (samples \<noteq> [] \<longrightarrow>
               (\<exists>row. new = row # tl old \<and>
                  rd_avg_delay_minutes row = Some (sum_list samples / real (length samples)) \<and>
                  rd_sample_count row = Some (int (length samples)) \<and>
                  rd_calculated_at row = now \<and>
                  (old \<noteq> [] \<longrightarrow>
                     row = (hd old)
                       \<lparr>rd_avg_delay_minutes := Some (sum_list samples / real (length samples)),
                        rd_sample_count := Some (int (length samples)),
                        rd_calculated_at := now\<rparr>) \<and>
                  (length old \<le> 1 \<longrightarrow> new = [row]))) \<and>
            (length old \<le> 1 \<longrightarrow> length new \<le> 1) \<and>
            length (route_hour_rows route_id h (route_delays (run_actions actions init_db))) \<le> 1 \<and>
            scheduled_headway_of route_id = spec_expected_headway route_id \<and>
            (route_id \<notin> fst ` set SCHEDULED_HEADWAYS \<longrightarrow> scheduled_headway_of route_id = 10)"
proof -
  let ?cutoff = "now - hours_back * 3600000000"
  let ?win = "window_hour_samples (scheduled_headway_of route_id) (route_events ?cutoff db route_id) h"
  let ?samples = "spec_hour_samples (telemetry_events db) route_id ?cutoff h"
  let ?old = "route_hour_rows route_id h (route_delays db)"
  let ?result = "calculate_route_delays fails now db route_id hours_back"
  let ?new = "route_hour_rows route_id h (route_delays (dr_db ?result))"
  have cutoff: "cutoff_time now hours_back = Inr ?cutoff"
    using assms(2-4) by (rule cutoff_time_window)
  have sum: "sum_list ?win = sum_list ?samples" and len: "length ?win = length ?samples"
    by (rule window_hour_samples_spec)+
  have empty: "?win = [] \<longleftrightarrow> ?samples = []" using len by (metis length_0_conv)
  note rows = calculate_route_delays_rows [OF assms(1) cutoff, of db route_id h]
  have raised: "dr_raised ?result = None" using rows by (simp add: Let_def)
  have keep: "?samples = [] \<longrightarrow> ?new = ?old" using rows empty by (simp add: Let_def)
  have wr: "\<exists>row. ?new = row # tl ?old \<and>
                  rd_avg_delay_minutes row = Some (sum_list ?samples / real (length ?samples)) \<and>
                  rd_sample_count row = Some (int (length ?samples)) \<and>
                  rd_calculated_at row = now \<and>
                  (?old \<noteq> [] \<longrightarrow>
                     row = (hd ?old)
                       \<lparr>rd_avg_delay_minutes := Some (sum_list ?samples / real (length ?samples)),
                        rd_sample_count := Some (int (length ?samples)),
                        rd_calculated_at := now\<rparr>) \<and>
                  (length ?old \<le> 1 \<longrightarrow> ?new = [row])" if ne: "?samples \<noteq> []"
  proof -
    have "?win \<noteq> []" using ne empty by simp
    then obtain row where row: "?new = row # tl ?old"
      "rd_avg_delay_minutes row = Some (sum_list ?win / real (length ?win))"
      "rd_sample_count row = Some (int (length ?win))"
      "rd_calculated_at row = now"
      "?old \<noteq> [] \<longrightarrow>
                     row = (hd ?old)
                       \<lparr>rd_avg_delay_minutes := Some (sum_list ?win / real (length ?win)),
                        rd_sample_count := Some (int (length ?win)),
                        rd_calculated_at := now\<rparr>"
      using rows by (auto simp: Let_def)
    have "tl ?old = []" if "length ?old \<le> 1"
      using that by (cases ?old) simp_all
    then show ?thesis using row sum len by (intro exI [of _ row]) simp
  qed
  have one: "length ?old \<le> 1 \<longrightarrow> length ?new \<le> 1"
    using calculate_route_delays_unique [of route_id h db fails now route_id hours_back] by blast
  have init: "length (route_hour_rows route_id h (route_delays init_db)) \<le> 1"
    by (simp add: init_db_def route_hour_rows_def)
  have reach: "length (route_hour_rows route_id h (route_delays (run_actions actions init_db))) \<le> 1"
    using init by (rule run_actions_unique)
  have default: "route_id \<notin> fst ` set SCHEDULED_HEADWAYS \<longrightarrow> scheduled_headway_of route_id = 10"
    using rows by (simp add: Let_def)
  show ?thesis
    unfolding Let_def
    using raised keep wr one reach default scheduled_headway_spec [of route_id] by blast
qed

lemma mixed_events_samples:
  "spec_hour_samples (telemetry_events mixed_events) ''Red'' 29600000000 7 = [- 1, 3]"
  "spec_hour_samples (telemetry_events mixed_events) ''Red'' 29600000000 8 = []"
  "spec_hour_samples (telemetry_events mixed_events) ''Blue'' 29600000000 7 = []"
  by (simp_all add: spec_hour_samples_def spec_vehicle_samples_def spec_hour_of_day_def
        spec_expected_headway_def mixed_events_def events_db_def sample_event_def Let_def)

lemma two_arrivals_spec_samples:
  "spec_hour_samples (telemetry_events two_arrivals) ''Red'' 1800000000 0 = [3]"
  "spec_hour_samples (telemetry_events two_arrivals) ''Red'' 1800000000 1 = []"
  "spec_hour_samples (telemetry_events two_arrivals_stale) ''Red'' 1800000000 0 = [3]"
  by (simp_all add: spec_hour_samples_def spec_vehicle_samples_def spec_hour_of_day_def
        spec_expected_headway_def two_arrivals_stale_def two_arrivals_def events_db_def
        sample_event_def Let_def)

text \<open>
  The example of claim C4: on the Red line (expected headway 6) two arrivals of one
  vehicle nine minutes apart in hour 0 give the single sample +3, so the row for hour 0
  has average 3 and count 1; hour 1 has no sample and gets no row; and a row that was
  there for hour 0 is overwritten, not joined by a second one. In the table in no
  particular order, hour 7 of the Red line has the samples +3 and -1 (average 1, count
  2): the event on the Blue line, the event before the window and the event of hour 8 do
  not count, and Blue line and hour 8 get no row.
\<close>

theorem calculate_route_delays_average_witness:
  "dr_raised (calculate_route_delays no_failure 116000000000 mixed_events ''Red'' 24) = None \<and>
   (\<exists>row. route_hour_rows ''Red'' 7
             (route_delays (dr_db (calculate_route_delays no_failure 116000000000 mixed_events ''Red'' 24)))
           = [row] \<and>
          rd_avg_delay_minutes row = Some 1 \<and> rd_sample_count row = Some 2 \<and>
          rd_calculated_at row = 116000000000) \<and>
   route_hour_rows ''Red'' 8
     (route_delays (dr_db (calculate_route_delays no_failure 116000000000 mixed_events ''Red'' 24)))
     = [] \<and>
   route_hour_rows ''Blue'' 7
     (route_delays (dr_db (calculate_route_delays no_failure 116000000000 mixed_events ''Blue'' 24)))
     = [] \<and>
   (\<exists>row. route_hour_rows ''Red'' 0
             (route_delays (dr_db (calculate_route_delays no_failure 88200000000 two_arrivals ''Red'' 24)))
           = [row] \<and>
          rd_avg_delay_minutes row = Some 3 \<and> rd_sample_count row = Some 1 \<and>
          rd_calculated_at row = 88200000000) \<and>
   route_hour_rows ''Red'' 1
     (route_delays (dr_db (calculate_route_delays no_failure 88200000000 two_arrivals ''Red'' 24)))
     = [] \<and>
   route_hour_rows ''Red'' 0
     (route_delays (dr_db (calculate_route_delays no_failure 88200000000 two_arrivals_stale ''Red'' 24)))
     = [stale_row\<lparr>rd_avg_delay_minutes := Some 3, rd_sample_count := Some 1,
                   rd_calculated_at := 88200000000\<rparr>]"
proof -
  have nf: "\<forall>op. \<not> no_failure op" by (simp add: no_failure_def)
  have w1: "(0::int) \<le> 24" "(24::int) * 3600000000 \<le> 116000000000"
    "(116000000000::int) \<le> 315537897599999999" by simp_all
  have w2: "(0::int) \<le> 24" "(24::int) * 3600000000 \<le> 88200000000"
    "(88200000000::int) \<le> 315537897599999999" by simp_all
  have c1: "(116000000000::int) - 24 * 3600000000 = 29600000000" by simp
  have c2: "(88200000000::int) - 24 * 3600000000 = 1800000000" by simp
  have mixed_old: "route_hour_rows ''Red'' 7 (route_delays mixed_events) = []"
    "route_hour_rows ''Red'' 8 (route_delays mixed_events) = []"
    "route_hour_rows ''Blue'' 7 (route_delays mixed_events) = []"
    by (simp_all add: route_hour_rows_def mixed_events_def events_db_def)
  have old: "route_hour_rows ''Red'' 0 (route_delays two_arrivals) = []"
    "route_hour_rows ''Red'' 1 (route_delays two_arrivals) = []"
    by (simp_all add: route_hour_rows_def two_arrivals_def events_db_def)
  have stale: "route_hour_rows ''Red'' 0 (route_delays two_arrivals_stale) = [stale_row]"
    by (simp add: route_hour_rows_def two_arrivals_stale_def stale_row_def)
  have a: "dr_raised (calculate_route_delays no_failure 116000000000 mixed_events ''Red'' 24) = None \<and>
   (\<exists>row. route_hour_rows ''Red'' 7
             (route_delays (dr_db (calculate_route_delays no_failure 116000000000 mixed_events ''Red'' 24)))
           = [row] \<and>
          rd_avg_delay_minutes row = Some 1 \<and> rd_sample_count row = Some 2 \<and>
          rd_calculated_at row = 116000000000)"
    using calculate_route_delays_average [OF nf w1, where db = mixed_events and route_id = "''Red''"
        and h = 7 and actions = "[]"]
    by (auto simp: Let_def c1 mixed_events_samples mixed_old)
  have b: "route_hour_rows ''Red'' 8
     (route_delays (dr_db (calculate_route_delays no_failure 116000000000 mixed_events ''Red'' 24)))
     = []"
    using calculate_route_delays_average [OF nf w1, where db = mixed_events and route_id = "''Red''"
        and h = 8 and actions = "[]"]
    by (simp add: Let_def c1 mixed_events_samples mixed_old)
  have c: "route_hour_rows ''Blue'' 7
     (route_delays (dr_db (calculate_route_delays no_failure 116000000000 mixed_events ''Blue'' 24)))
     = []"
    using calculate_route_delays_average [OF nf w1, where db = mixed_events and route_id = "''Blue''"
        and h = 7 and actions = "[]"]
    by (simp add: Let_def c1 mixed_events_samples mixed_old)
  have d: "\<exists>row. route_hour_rows ''Red'' 0
             (route_delays (dr_db (calculate_route_delays no_failure 88200000000 two_arrivals ''Red'' 24)))
           = [row] \<and>
          rd_avg_delay_minutes row = Some 3 \<and> rd_sample_count row = Some 1 \<and>
          rd_calculated_at row = 88200000000"
    using calculate_route_delays_average [OF nf w2, where db = two_arrivals and route_id = "''Red''"
        and h = 0 and actions = "[]"]
    by (auto simp: Let_def c2 two_arrivals_spec_samples old)
  have e: "route_hour_rows ''Red'' 1
     (route_delays (dr_db (calculate_route_delays no_failure 88200000000 two_arrivals ''Red'' 24)))
     = []"
    using calculate_route_delays_average [OF nf w2, where db = two_arrivals and route_id = "''Red''"
        and h = 1 and actions = "[]"]
    by (simp add: Let_def c2 two_arrivals_spec_samples old)
  have f: "route_hour_rows ''Red'' 0
     (route_delays (dr_db (calculate_route_delays no_failure 88200000000 two_arrivals_stale ''Red'' 24)))
     = [stale_row\<lparr>rd_avg_delay_minutes := Some 3, rd_sample_count := Some 1,
                   rd_calculated_at := 88200000000\<rparr>]"
    using calculate_route_delays_average [OF nf w2, where db = two_arrivals_stale and route_id = "''Red''"
        and h = 0 and actions = "[]"]
    by (auto simp: Let_def c2 two_arrivals_spec_samples stale)
  show ?thesis using a b c d e f by simp
qed

lemma delay_loop_fails:
  "(h, vs) \<in> set items \<Longrightarrow> hour_delays sh vs \<noteq> [] \<Longrightarrow> fails (Query_route_delay h) \<Longrightarrow>
   \<exists>e. delay_loop fails now r rn sh items session = Inl e"
proof (induction items arbitrary: session)
  case Nil
  then show ?case by simp
next
  case (Cons item items)
  obtain h0 vs0 where item: "item = (h0, vs0)" by (cases item)
  obtain rows pending where session: "session = (rows, pending)" by (cases session)
  show ?case
  proof (cases "item = (h, vs)")
    case True
    then show ?thesis using Cons.prems session by (simp add: Let_def)
  next
    case False
    then have "(h, vs) \<in> set items" using Cons.prems(1) by simp
    from Cons.IH [OF this Cons.prems(2,3)] show ?thesis
      unfolding item session by (auto simp: Let_def split: option.splits)
  qed
qed

text \<open>
  Claim C9. Whenever the body of \<^verbatim>\<open>calculate_route_delays\<close> raises, the call raises to its
  caller (the exception itself, or the one of a failing rollback) and the store is the
  one before the call: nothing of the recomputation is kept. A call that raises never
  changes the store. In particular the call raises and leaves the store unchanged when
  the query for the events fails, or, with events in the window, when the commit fails
  or the lookup of the delay row fails for an hour that has samples.
\<close>

theorem calculate_route_delays_failure:
  "(calculate_body fails now db route_id hours_back = Inl e \<longrightarrow>
      dr_raised (calculate_route_delays fails now db route_id hours_back) =
        Some (if fails Rollback then StorageError Rollback else e) \<and>
      dr_db (calculate_route_delays fails now db route_id hours_back) = db) \<and>
   (dr_raised (calculate_route_delays fails now db route_id hours_back) \<noteq> None \<longrightarrow>
      dr_db (calculate_route_delays fails now db route_id hours_back) = db) \<and>
   (cutoff_time now hours_back = Inr cutoff \<and>
    (fails Query_telemetry_events \<or>
     route_events cutoff db route_id \<noteq> [] \<and>
     (fails Commit \<or>
      (h, vs) \<in> set (fold group_event (route_events cutoff db route_id) []) \<and>
      hour_delays (scheduled_headway_of route_id) vs \<noteq> [] \<and> fails (Query_route_delay h))) \<longrightarrow>
    dr_raised (calculate_route_delays fails now db route_id hours_back) \<noteq> None \<and>
    dr_db (calculate_route_delays fails now db route_id hours_back) = db)"
proof (intro conjI impI)
  let ?r = "calculate_route_delays fails now db route_id hours_back"
  assume "calculate_body fails now db route_id hours_back = Inl e"
  then show "dr_raised ?r = Some (if fails Rollback then StorageError Rollback else e)"
    and "dr_db ?r = db"
    by (simp_all add: calculate_route_delays_def)
next
  let ?r = "calculate_route_delays fails now db route_id hours_back"
  assume "dr_raised ?r \<noteq> None"
  then show "dr_db ?r = db"
    by (auto simp: calculate_route_delays_def split: sum.splits if_splits)
next
  let ?r = "calculate_route_delays fails now db route_id hours_back"
  let ?events = "route_events cutoff db route_id"
  assume h: "cutoff_time now hours_back = Inr cutoff \<and>
    (fails Query_telemetry_events \<or>
     ?events \<noteq> [] \<and>
     (fails Commit \<or>
      (h, vs) \<in> set (fold group_event ?events []) \<and>
      hour_delays (scheduled_headway_of route_id) vs \<noteq> [] \<and> fails (Query_route_delay h)))"
  have "\<exists>e'. calculate_body fails now db route_id hours_back = Inl e'"
  proof (cases "fails Query_telemetry_events")
    case True
    then show ?thesis using h by (simp add: calculate_body_def)
  next
    case False
    then have ne: "?events \<noteq> []" and
      c: "fails Commit \<or>
        (h, vs) \<in> set (fold group_event ?events []) \<and>
        hour_delays (scheduled_headway_of route_id) vs \<noteq> [] \<and> fails (Query_route_delay h)"
      using h by auto
    show ?thesis
    proof (cases "delay_loop fails now route_id (te_route_id (hd ?events))
        (scheduled_headway_of route_id) (fold group_event ?events []) (route_delays db, [])")
      case (Inl e')
      then show ?thesis using h False ne by (simp add: calculate_body_def Let_def)
    next
      case (Inr session')
      then have "fails Commit"
        using c delay_loop_fails [of h vs "fold group_event ?events []" "scheduled_headway_of route_id"
            fails now route_id "te_route_id (hd ?events)" "(route_delays db, [])"]
        by auto
      then show ?thesis using h False ne Inr
        by (simp add: calculate_body_def Let_def split: prod.splits)
    qed
  qed
  then obtain e' where "calculate_body fails now db route_id hours_back = Inl e'" by blast
  then show "dr_raised ?r \<noteq> None" and "dr_db ?r = db"
    by (simp_all add: calculate_route_delays_def)
qed

theorem calculate_route_delays_failure_witness:
  "dr_raised (calculate_route_delays commit_fails 88200000000 two_arrivals ''Red'' 24)
     = Some (StorageError Commit) \<and>
   dr_db (calculate_route_delays commit_fails 88200000000 two_arrivals ''Red'' 24) = two_arrivals"
proof -
  have rd: "route_delays two_arrivals = []" by (simp add: two_arrivals_def events_db_def)
  have body: "calculate_body commit_fails 88200000000 two_arrivals ''Red'' 24
      = Inl (StorageError Commit)"
    by (simp add: rd calculate_body_def two_arrivals_cutoff two_arrivals_events commit_fails_def
          group_event_def hour_delays_def vehicle_delays_def sample_event_def datetime_hour_def
          total_seconds_def red_headway Let_def)
  have rb: "\<not> commit_fails Rollback" by (simp add: commit_fails_def)
  from calculate_route_delays_failure [of commit_fails 88200000000 two_arrivals "''Red''" 24
      "StorageError Commit" 1800000000 0 "[]"] body rb
  show ?thesis by simp
qed

end
